theory Spec2Isabelle
  imports Complex_Main "HOL-Library.Log_Nat"
begin

section \<open>Trade journal: the CSV normalizer and the trade store of TradeViewer\<close>

text \<open>
  The development embeds the data-carrying part of the component \<^verbatim>\<open>TradeViewer\<close>:
  the routine \<^verbatim>\<open>parseCSV\<close> that turns the text of a broker export into trade
  records, the image map with its two updates (\<^verbatim>\<open>handleImageUpload\<close>,
  \<^verbatim>\<open>removeImage\<close>) and the debug recalculation of the profit and loss.

  Conventions of the embedding.
  \<^item> A JavaScript string is a \<open>string\<close>, read as the UTF-8 bytes of the text (the text
    of a file that \<^verbatim>\<open>readAsText\<close> has decoded is well-formed). The delimiters, digits,
    signs and brackets the code looks for are ASCII, so splitting and prefix tests agree
    with the code on every text. The white space of the language and the pound and euro
    signs are the UTF-8 byte sequences of their code points.
  \<^item> The letter case conversions \<^verbatim>\<open>toLowerCase\<close> and \<^verbatim>\<open>toUpperCase\<close> follow the
    Unicode tables of the host; they are parameters of the definitions that call them.
  \<^item> A JavaScript number is a \<open>jsnum\<close>: not-a-number, the two infinities, or a
    rational that is a binary64 value. The arithmetic rounds every result to binary64
    (to nearest, ties to the even significand, overflow to the infinity). The two zeros
    are the one \<open>Num 0\<close>: the code embedded here neither divides by a computed number
    nor compares with \<^verbatim>\<open>Object.is\<close>, so nothing in it tells them apart.
  \<^item> A \<^verbatim>\<open>Date\<close> is an \<open>int option\<close>: \<open>None\<close> is the invalid date, \<open>Some t\<close> holds
    the time value in milliseconds. The text-to-date conversion of the host
    (\<^verbatim>\<open>new Date(string)\<close>) and the clock (\<^verbatim>\<open>new Date()\<close>) are parameters.
\<close>

subsection \<open>Strings\<close>

fun startsWith :: "string \<Rightarrow> string \<Rightarrow> bool" where
  "startsWith s [] = True"
| "startsWith [] (p # ps) = False"
| "startsWith (c # cs) (p # ps) = (c = p \<and> startsWith cs ps)"

definition endsWith :: "string \<Rightarrow> string \<Rightarrow> bool" where
  "endsWith s p = startsWith (rev s) (rev p)"

text \<open>The characters that \<^verbatim>\<open>String.prototype.trim\<close> and \<^verbatim>\<open>parseFloat\<close> strip: the
  white space and the line terminators of the language, each as the UTF-8 bytes of its
  code point. In this order: U+0009 to U+000D, U+0020, U+00A0, U+1680, U+2000 to U+200A,
  U+2028, U+2029, U+202F, U+205F, U+3000, U+FEFF.\<close>

definition whiteSpace :: "string list" where
  "whiteSpace =
     [ [CHR 0x09], [CHR 0x0A], [CHR 0x0B], [CHR 0x0C], [CHR 0x0D], [CHR 0x20],
      [CHR 0xC2, CHR 0xA0],
      [CHR 0xE1, CHR 0x9A, CHR 0x80],
      [CHR 0xE2, CHR 0x80, CHR 0x80], [CHR 0xE2, CHR 0x80, CHR 0x81],
      [CHR 0xE2, CHR 0x80, CHR 0x82], [CHR 0xE2, CHR 0x80, CHR 0x83],
      [CHR 0xE2, CHR 0x80, CHR 0x84], [CHR 0xE2, CHR 0x80, CHR 0x85],
      [CHR 0xE2, CHR 0x80, CHR 0x86], [CHR 0xE2, CHR 0x80, CHR 0x87],
      [CHR 0xE2, CHR 0x80, CHR 0x88], [CHR 0xE2, CHR 0x80, CHR 0x89],
      [CHR 0xE2, CHR 0x80, CHR 0x8A],
      [CHR 0xE2, CHR 0x80, CHR 0xA8], [CHR 0xE2, CHR 0x80, CHR 0xA9],
      [CHR 0xE2, CHR 0x80, CHR 0xAF],
      [CHR 0xE2, CHR 0x81, CHR 0x9F],
      [CHR 0xE3, CHR 0x80, CHR 0x80],
      [CHR 0xEF, CHR 0xBB, CHR 0xBF]]"

text \<open>\<^verbatim>\<open>trimStart\<close>, \<^verbatim>\<open>trimEnd\<close> and \<^verbatim>\<open>trim\<close>: white-space characters are removed
  from the ends, one at a time, until none is left there.\<close>

function trimStart :: "string \<Rightarrow> string" where
  "trimStart s =
     (case find (startsWith s) whiteSpace of
        None \<Rightarrow> s
      | Some w \<Rightarrow> trimStart (drop (length w) s))"
  by pat_completeness auto
termination
proof (relation "measure length")
  show "wf (measure length)" by simp
next
  fix s w
  assume "find (startsWith s) whiteSpace = Some w"
  then have w: "w \<in> set whiteSpace" and sw: "startsWith s w"
    by (auto simp: find_Some_iff)
  from w have "w \<noteq> []" by (auto simp: whiteSpace_def)
  moreover from sw this have "s \<noteq> []" by (cases s; cases w) auto
  ultimately show "(drop (length w) s, s) \<in> measure length" by simp
qed

function trimEnd :: "string \<Rightarrow> string" where
  "trimEnd s =
     (case find (endsWith s) whiteSpace of
        None \<Rightarrow> s
      | Some w \<Rightarrow> trimEnd (take (length s - length w) s))"
  by pat_completeness auto
termination
proof (relation "measure length")
  show "wf (measure length)" by simp
next
  fix s w
  assume "find (endsWith s) whiteSpace = Some w"
  then have w: "w \<in> set whiteSpace" and sw: "endsWith s w"
    by (auto simp: find_Some_iff)
  from w have "w \<noteq> []" by (auto simp: whiteSpace_def)
  moreover from sw this have "s \<noteq> []" by (cases "rev s"; cases "rev w") (auto simp: endsWith_def)
  ultimately show "(take (length s - length w) s, s) \<in> measure length" by simp
qed

declare trimStart.simps [simp del] trimEnd.simps [simp del]

definition trim :: "string \<Rightarrow> string" where
  "trim s = trimEnd (trimStart s)"

text \<open>\<^verbatim>\<open>s.substring(a, b)\<close> for \<open>0 \<le> a\<close>; the arguments are swapped when \<open>a > b\<close>
  and clamped to the length, as the method does.\<close>

definition substring :: "string \<Rightarrow> nat \<Rightarrow> nat \<Rightarrow> string" where
  "substring s a b = (let lo = min a b; hi = max a b in take (hi - lo) (drop lo s))"

fun includesStr :: "string \<Rightarrow> string \<Rightarrow> bool" where
  "includesStr [] p = (p = [])"
| "includesStr (c # cs) p = (startsWith (c # cs) p \<or> includesStr cs p)"

text \<open>\<^verbatim>\<open>s.split(/,|\t/)\<close> and \<^verbatim>\<open>s.split("\n")\<close>: the pieces between separator
  characters; the empty string gives one empty piece.\<close>

fun splitOn :: "(char \<Rightarrow> bool) \<Rightarrow> string \<Rightarrow> string list" where
  "splitOn sep [] = [[]]"
| "splitOn sep (c # cs) =
     (if sep c then [] # splitOn sep cs
      else (case splitOn sep cs of
              [] \<Rightarrow> [[c]]
            | p # ps \<Rightarrow> (c # p) # ps))"

definition is_delim :: "char \<Rightarrow> bool" where
  "is_delim c = (c = CHR '','' \<or> c = CHR 0x09)"

definition splitFields :: "string \<Rightarrow> string list" where
  "splitFields line = map trim (splitOn is_delim line)"

definition splitLines :: "string \<Rightarrow> string list" where
  "splitLines text = splitOn (\<lambda>c. c = CHR 0x0A) (trim text)"

subsection \<open>Numbers\<close>

datatype jsnum = NaN | PInf | NInf | Num rat

text \<open>The Number value for a rational \<open>q\<close>, that is \<open>q\<close> rounded to binary64. With
  \<open>2^e \<le> |q| < 2^(e+1)\<close> the binary64 values next to \<open>q\<close> are the multiples of
  \<open>2^(e-52)\<close>, and below the least normal number \<open>2^(-1022)\<close> the multiples of
  \<open>2^(-1074)\<close>; \<open>q\<close> goes to the nearest of them, a tie to the one with the even
  multiplier, and a result of magnitude \<open>2^1024\<close> is the infinity.\<close>

definition binade :: "rat \<Rightarrow> int" where
  "binade q = (if 1 \<le> q then bitlen \<lfloor>q\<rfloor> - 1 else - bitlen (\<lceil>1 / q\<rceil> - 1))"

definition roundHalfEven :: "rat \<Rightarrow> int" where
  "roundHalfEven m =
     (let f = \<lfloor>m\<rfloor>; d = m - of_int f in
      if d < 1 / 2 then f else if 1 / 2 < d then f + 1 else if even f then f else f + 1)"

definition binary64 :: "rat \<Rightarrow> jsnum" where
  "binary64 q =
     (if q = 0 then Num 0
      else
        let p = max (binade \<bar>q\<bar>) (- 1022) - 52;
            r = of_int (roundHalfEven (q / 2 powi p)) * 2 powi p
        in if 2 ^ 1024 \<le> r then PInf else if r \<le> - (2 ^ 1024) then NInf else Num r)"

definition isNaN :: "jsnum \<Rightarrow> bool" where
  "isNaN x = (x = NaN)"

fun js_neg :: "jsnum \<Rightarrow> jsnum" where
  "js_neg NaN = NaN"
| "js_neg PInf = NInf"
| "js_neg NInf = PInf"
| "js_neg (Num a) = Num (- a)"

fun js_abs :: "jsnum \<Rightarrow> jsnum" where
  "js_abs NaN = NaN"
| "js_abs PInf = PInf"
| "js_abs NInf = PInf"
| "js_abs (Num a) = Num \<bar>a\<bar>"

fun js_sub :: "jsnum \<Rightarrow> jsnum \<Rightarrow> jsnum" where
  "js_sub (Num a) (Num b) = binary64 (a - b)"
| "js_sub (Num a) PInf = NInf"
| "js_sub (Num a) NInf = PInf"
| "js_sub PInf (Num b) = PInf"
| "js_sub NInf (Num b) = NInf"
| "js_sub PInf NInf = PInf"
| "js_sub NInf PInf = NInf"
| "js_sub PInf PInf = NaN"
| "js_sub NInf NInf = NaN"
| "js_sub NaN y = NaN"
| "js_sub x NaN = NaN"

text \<open>The sign of a number that is not NaN, as \<open>-1\<close>, \<open>0\<close> or \<open>1\<close>.\<close>

fun js_sign :: "jsnum \<Rightarrow> int" where
  "js_sign NaN = 0"
| "js_sign PInf = 1"
| "js_sign NInf = - 1"
| "js_sign (Num a) = (if a < 0 then - 1 else if a = 0 then 0 else 1)"

fun js_mul :: "jsnum \<Rightarrow> jsnum \<Rightarrow> jsnum" where
  "js_mul NaN y = NaN"
| "js_mul x NaN = NaN"
| "js_mul (Num a) (Num b) = binary64 (a * b)"
| "js_mul x y =
     (if js_sign x * js_sign y = 0 then NaN
      else if js_sign x * js_sign y < 0 then NInf else PInf)"

text \<open>The relational operators; every comparison with NaN is false.\<close>

fun js_lt :: "jsnum \<Rightarrow> jsnum \<Rightarrow> bool" where
  "js_lt NaN y = False"
| "js_lt x NaN = False"
| "js_lt (Num a) (Num b) = (a < b)"
| "js_lt x PInf = (x \<noteq> PInf)"
| "js_lt NInf y = (y \<noteq> NInf)"
| "js_lt x y = False"

definition js_gt :: "jsnum \<Rightarrow> jsnum \<Rightarrow> bool" where
  "js_gt x y = js_lt y x"

definition js_le :: "jsnum \<Rightarrow> jsnum \<Rightarrow> bool" where
  "js_le x y = (x \<noteq> NaN \<and> y \<noteq> NaN \<and> \<not> js_lt y x)"

text \<open>\<^verbatim>\<open>Math.floor(x)\<close>, and the quotient \<^verbatim>\<open>x / c\<close> and the remainder \<^verbatim>\<open>x % c\<close> for a
  constant \<open>c > 0\<close>. The remainder has the sign of \<open>x\<close> and is exact.\<close>

fun js_floor :: "jsnum \<Rightarrow> jsnum" where
  "js_floor (Num a) = Num (of_int \<lfloor>a\<rfloor>)"
| "js_floor x = x"

fun divBy :: "rat \<Rightarrow> jsnum \<Rightarrow> jsnum" where
  "divBy c (Num a) = binary64 (a / c)"
| "divBy c x = x"

fun remBy :: "rat \<Rightarrow> jsnum \<Rightarrow> jsnum" where
  "remBy c (Num a) = Num (a - c * of_int (if 0 \<le> a then \<lfloor>a / c\<rfloor> else \<lceil>a / c\<rceil>))"
| "remBy c x = NaN"

subsection \<open>parseFloat\<close>

definition is_digit :: "char \<Rightarrow> bool" where
  "is_digit c = ((48::nat) \<le> of_char c \<and> of_char c \<le> (57::nat))"

definition digitVal :: "char \<Rightarrow> nat" where
  "digitVal c = of_char c - 48"

definition digitsVal :: "string \<Rightarrow> nat" where
  "digitsVal ds = foldl (\<lambda>a c. 10 * a + digitVal c) 0 ds"

text \<open>The exponent part \<^verbatim>\<open>[eE][+-]?digits\<close> at the head of what follows the
  mantissa; it counts only when at least one digit follows.\<close>

definition exponentPart :: "string \<Rightarrow> int" where
  "exponentPart s =
     (case s of
        [] \<Rightarrow> 0
      | e # r \<Rightarrow>
          if e = CHR ''e'' \<or> e = CHR ''E'' then
            (case r of
               [] \<Rightarrow> 0
             | sg # r' \<Rightarrow>
                 if sg = CHR ''-'' then
                   (if takeWhile is_digit r' = [] then 0
                    else - int (digitsVal (takeWhile is_digit r')))
                 else if sg = CHR ''+'' then int (digitsVal (takeWhile is_digit r'))
                 else int (digitsVal (takeWhile is_digit r)))
          else 0)"

definition scale10 :: "rat \<Rightarrow> int \<Rightarrow> rat" where
  "scale10 m e = (if 0 \<le> e then m * 10 ^ nat e else m / 10 ^ nat (- e))"

text \<open>The longest prefix that is an unsigned decimal literal:
  \<^verbatim>\<open>Infinity\<close>, \<^verbatim>\<open>digits[.digits*][exp]\<close> or \<^verbatim>\<open>.digits[exp]\<close>; the result is the
  Number value for the decimal value of the literal. (Past twenty significant digits the
  language leaves the engines a choice of two neighbours; they round correctly there too.)\<close>

definition parseUnsigned :: "string \<Rightarrow> jsnum" where
  "parseUnsigned s =
     (if startsWith s ''Infinity'' then PInf
      else
        let ip = takeWhile is_digit s;
            r1 = dropWhile is_digit s;
            dot = (r1 \<noteq> [] \<and> hd r1 = CHR ''.'');
            fp = (if dot then takeWhile is_digit (tl r1) else []);
            r2 = (if dot then dropWhile is_digit (tl r1) else r1)
        in if ip = [] \<and> fp = [] then NaN
           else binary64 (scale10 (rat_of_nat (digitsVal (ip @ fp)) / 10 ^ length fp)
                                  (exponentPart r2)))"

definition parseFloat :: "string \<Rightarrow> jsnum" where
  "parseFloat s =
     (case trimStart s of
        [] \<Rightarrow> NaN
      | c # r \<Rightarrow>
          if c = CHR ''-'' then js_neg (parseUnsigned r)
          else if c = CHR ''+'' then parseUnsigned r
          else parseUnsigned (c # r))"

subsection \<open>The P/L field\<close>

text \<open>\<^verbatim>\<open>XAUUSD_MULTIPLIER\<close>\<close>

definition XAUUSD_MULTIPLIER :: jsnum where
  "XAUUSD_MULTIPLIER = Num 100"

text \<open>\<^verbatim>\<open>replace(/[$\<pounds>\<euro>]/g, '')\<close> and \<^verbatim>\<open>replace(/[$\<pounds>\<euro>,]/g, '')\<close>; the
  pound sign is the bytes C2 A3, the euro sign the bytes E2 82 AC.\<close>

fun stripCurrency :: "bool \<Rightarrow> string \<Rightarrow> string" where
  "stripCurrency commas [] = []"
| "stripCurrency commas (c # cs) =
     (if c = CHR ''$'' then stripCurrency commas cs
      else if c = CHR '','' \<and> commas then stripCurrency commas cs
      else if c = CHR 0xC2 \<and> startsWith cs [CHR 0xA3] then stripCurrency commas (drop 1 cs)
      else if c = CHR 0xE2 \<and> startsWith cs [CHR 0x82, CHR 0xAC] then stripCurrency commas (drop 2
          cs)
      else c # stripCurrency commas cs)"

text \<open>The three variables the P/L block assigns: \<^verbatim>\<open>pnl\<close>,
  \<^verbatim>\<open>originalPnlString\<close> (here \<open>origPnl\<close>) and \<^verbatim>\<open>shouldDisplayAsNegative\<close>
  (here \<open>dispNeg\<close>); the trade record below has the fields of the full names.\<close>

record pnl_vars =
  pnl :: jsnum
  origPnl :: string
  dispNeg :: bool

text \<open>The first half of the P/L block of \<^verbatim>\<open>parseCSV\<close>: the four branches on the
  shape of the trimmed field.\<close>

definition parsePnlField :: "string \<Rightarrow> pnl_vars" where
  "parsePnlField field =
     (let pnlString = trim field in
      if startsWith pnlString ''$('' \<and> endsWith pnlString '')'' then
        (let numericPart = substring pnlString 2 (length pnlString - 1) in
         \<lparr> pnl = js_neg (parseFloat numericPart),
           origPnl = ''-$'' @ numericPart,
           dispNeg = True \<rparr>)
      else if startsWith pnlString ''('' \<and> endsWith pnlString '')'' then
        (let valueWithoutParens = substring pnlString 1 (length pnlString - 1) in
         \<lparr> pnl = js_neg (js_abs (parseFloat (trim (stripCurrency True valueWithoutParens)))),
           origPnl = ''-$'' @ stripCurrency False valueWithoutParens,
           dispNeg = True \<rparr>)
      else if startsWith pnlString ''-'' then
        \<lparr> pnl = parseFloat (trim (stripCurrency True pnlString)),
          origPnl = pnlString,
          dispNeg = True \<rparr>
      else
        \<lparr> pnl = parseFloat (trim (stripCurrency True pnlString)),
          origPnl = pnlString,
          dispNeg = False \<rparr>)"

text \<open>The fallback of the same block: the direction from the two prices and the
  product, associated to the left as the expression is.\<close>

definition direction :: "jsnum \<Rightarrow> jsnum \<Rightarrow> jsnum" where
  "direction buyPrice sellPrice = (if js_gt buyPrice sellPrice then Num (- 1) else Num 1)"

definition pnlFromPrices :: "jsnum \<Rightarrow> jsnum \<Rightarrow> jsnum \<Rightarrow> jsnum" where
  "pnlFromPrices buyPrice sellPrice quantity =
     js_mul (js_mul (js_mul (direction buyPrice sellPrice) (js_sub sellPrice buyPrice)) quantity)
            XAUUSD_MULTIPLIER"

definition parsePnl :: "string \<Rightarrow> jsnum \<Rightarrow> jsnum \<Rightarrow> jsnum \<Rightarrow> pnl_vars" where
  "parsePnl field buyPrice sellPrice quantity =
     (let r = parsePnlField field in
      if isNaN (pnl r) then r\<lparr> pnl := pnlFromPrices buyPrice sellPrice quantity \<rparr> else r)"

subsection \<open>Header resolution\<close>

text \<open>\<^verbatim>\<open>columnMap\<close> is an object used as a dictionary. Its keys are kept in the
  order of their creation, which \<^verbatim>\<open>Object.keys\<close> reports after the keys that are
  array indices; assigning to an existing key keeps its place, and assigning a
  number to \<^verbatim>\<open>__proto__\<close> creates no property.\<close>

type_synonym obj = "(string \<times> nat) list"

fun objAssign :: "obj \<Rightarrow> string \<Rightarrow> nat \<Rightarrow> obj" where
  "objAssign [] k v = [(k, v)]"
| "objAssign ((k', v') # kvs) k v =
     (if k' = k then (k, v) # kvs else (k', v') # objAssign kvs k v)"

definition setProperty :: "obj \<Rightarrow> string \<Rightarrow> nat \<Rightarrow> obj" where
  "setProperty m k v = (if k = ''__proto__'' then m else objAssign m k v)"

text \<open>An array index is the canonical decimal form of an integer below \<open>2^32 - 1\<close>.\<close>

definition isArrayIndex :: "string \<Rightarrow> bool" where
  "isArrayIndex k =
     (k \<noteq> [] \<and> list_all is_digit k \<and> (k = ''0'' \<or> hd k \<noteq> CHR ''0'')
      \<and> digitsVal k < 4294967295)"

definition objectKeys :: "obj \<Rightarrow> string list" where
  "objectKeys m =
     sort_key digitsVal (filter isArrayIndex (map fst m))
     @ filter (\<lambda>k. \<not> isArrayIndex k) (map fst m)"

text \<open>\<^verbatim>\<open>headers.forEach((header, index) => { columnMap[header.toLowerCase()] = index })\<close>.
  Here and below \<open>toLowerCase\<close> is the conversion of the host.\<close>

fun forEachHeader :: "(string \<Rightarrow> string) \<Rightarrow> string list \<Rightarrow> nat \<Rightarrow> obj \<Rightarrow> obj" where
  "forEachHeader toLowerCase [] index m = m"
| "forEachHeader toLowerCase (header # hs) index m =
     forEachHeader toLowerCase hs (Suc index) (setProperty m (toLowerCase header) index)"

definition columnMap :: "(string \<Rightarrow> string) \<Rightarrow> string list \<Rightarrow> obj" where
  "columnMap toLowerCase headers = forEachHeader toLowerCase headers 0 []"

definition requiredColumns :: "string list" where
  "requiredColumns =
     [''symbol'', ''buyprice'', ''sellprice'', ''qty'', ''boughttimestamp'', ''soldtimestamp'',
      ''pnl'']"

definition missingColumns :: "(string \<Rightarrow> string) \<Rightarrow> string list \<Rightarrow> string list" where
  "missingColumns toLowerCase keys =
     filter (\<lambda>col. \<not> list_ex (\<lambda>key. includesStr key (toLowerCase col)) keys) requiredColumns"

text \<open>\<^verbatim>\<open>Array.prototype.findIndex\<close>: the position of the first element that
  satisfies the predicate, \<open>-1\<close> when there is none.\<close>

fun findIndex :: "('a \<Rightarrow> bool) \<Rightarrow> 'a list \<Rightarrow> int" where
  "findIndex P [] = - 1"
| "findIndex P (x # xs) =
     (if P x then 0 else (if findIndex P xs < 0 then - 1 else findIndex P xs + 1))"

definition getColumnIndex :: "(string \<Rightarrow> string) \<Rightarrow> string list \<Rightarrow> string \<Rightarrow> int" where
  "getColumnIndex toLowerCase keys baseName =
     findIndex (\<lambda>key. includesStr key (toLowerCase baseName)) keys"

text \<open>The eight indices. The seven required ones are read only after the check of
  the missing columns, which makes each of them non-negative (lemma
  \<open>getColumnIndex_required\<close> below), so they are kept as naturals; the optional
  duration column keeps its \<open>-1\<close>.\<close>

record columns =
  symbolCol :: nat
  buyPriceCol :: nat
  sellPriceCol :: nat
  qtyCol :: nat
  buyTimeCol :: nat
  sellTimeCol :: nat
  pnlCol :: nat
  durationCol :: int

definition resolveColumns :: "(string \<Rightarrow> string) \<Rightarrow> string list \<Rightarrow> columns" where
  "resolveColumns toLowerCase keys =
     \<lparr> symbolCol = nat (getColumnIndex toLowerCase keys ''symbol''),
       buyPriceCol = nat (getColumnIndex toLowerCase keys ''buyprice''),
       sellPriceCol = nat (getColumnIndex toLowerCase keys ''sellprice''),
       qtyCol = nat (getColumnIndex toLowerCase keys ''qty''),
       buyTimeCol = nat (getColumnIndex toLowerCase keys ''boughttimestamp''),
       sellTimeCol = nat (getColumnIndex toLowerCase keys ''soldtimestamp''),
       pnlCol = nat (getColumnIndex toLowerCase keys ''pnl''),
       durationCol = getColumnIndex toLowerCase keys ''duration'' \<rparr>"

subsection \<open>Trades and rows\<close>

datatype trade_type = Long | Short

text \<open>The duration text: the cell of the duration column as it is, or the
  computed numbers in one of the two layouts \<^verbatim>\<open>Xh Ym\<close> and \<^verbatim>\<open>Xm\<close>.\<close>

datatype duration = Verbatim string | HoursMinutes jsnum jsnum | Minutes jsnum

text \<open>The trade object. \<open>entryTime\<close> and \<open>exitTime\<close> hold the time value that the
  ISO text of the source denotes. The fields that are only display text
  (\<^verbatim>\<open>entryNY\<close>, \<^verbatim>\<open>exitNY\<close>, \<^verbatim>\<open>description\<close>, \<^verbatim>\<open>exitReason\<close>) are left out.\<close>

record trade =
  id :: nat
  instrument :: string
  entryTime :: int
  exitTime :: int
  quantity :: jsnum
  entryPrice :: jsnum
  exitPrice :: jsnum
  profitLoss :: jsnum
  originalPnlString :: string
  shouldDisplayAsNegative :: bool
  tradeType :: trade_type
  isWinning :: bool
  duration :: duration
  durationMs :: jsnum

datatype row_result = Blank | Skipped | Failed | Parsed trade

text \<open>\<^verbatim>\<open>new Date(ms)\<close>: a time value beyond 8.64e15 milliseconds gives the invalid
  date.\<close>

definition timeClip :: "int \<Rightarrow> int option" where
  "timeClip t = (if \<bar>t\<bar> \<le> 8640000000000000 then Some t else None)"

text \<open>The timestamps of a row: both cells are converted; when either is invalid the
  pair is replaced by the clock reading and one hour later.\<close>

definition rowTimestamps ::
  "(string \<Rightarrow> int option) \<Rightarrow> int \<Rightarrow> string \<Rightarrow> string \<Rightarrow> int option \<times> int option" where
  "rowTimestamps parseDate now buyText sellText =
     (let buyTimestamp = parseDate buyText; sellTimestamp = parseDate sellText in
      if buyTimestamp = None \<or> sellTimestamp = None
      then (Some now, timeClip (now + 3600000))
      else (buyTimestamp, sellTimestamp))"

definition tradeDirection :: "jsnum \<Rightarrow> jsnum \<Rightarrow> trade_type" where
  "tradeDirection buyPrice sellPrice = (if js_le buyPrice sellPrice then Long else Short)"

text \<open>\<^verbatim>\<open>sellTimestamp - buyTimestamp\<close>, the difference of two time values as a
  number.\<close>

definition elapsed :: "int \<Rightarrow> int \<Rightarrow> jsnum" where
  "elapsed buyTimestamp sellTimestamp = js_sub (Num (of_int sellTimestamp)) (Num (of_int
      buyTimestamp))"

definition rowDuration :: "columns \<Rightarrow> string list \<Rightarrow> jsnum \<Rightarrow> duration" where
  "rowDuration cols rowFields ms =
     (if 0 \<le> durationCol cols \<and> durationCol cols < int (length rowFields)
      then Verbatim (rowFields ! nat (durationCol cols))
      else let durationMinutes = js_floor (divBy 60000 ms) in
           if js_le (Num 60) durationMinutes
           then HoursMinutes (js_floor (divBy 60 durationMinutes)) (remBy 60 durationMinutes)
           else Minutes durationMinutes)"

text \<open>The bound of the length test:
  \<^verbatim>\<open>Math.max(symbolCol, buyPriceCol, sellPriceCol, qtyCol, buyTimeCol, sellTimeCol, pnlCol) + 1\<close>\<close>

definition neededFields :: "columns \<Rightarrow> nat" where
  "neededFields cols =
     Max {symbolCol cols, buyPriceCol cols, sellPriceCol cols, qtyCol cols,
          buyTimeCol cols, sellTimeCol cols, pnlCol cols} + 1"

text \<open>The body of the loop over the data lines, for line \<open>i\<close>. \<open>Blank\<close> and
  \<open>Skipped\<close> are the two \<^verbatim>\<open>continue\<close>s; \<open>Failed\<close> is the exception that the
  \<^verbatim>\<open>catch (rowErr)\<close> swallows, which only \<^verbatim>\<open>toISOString\<close> of an invalid date
  can raise.\<close>

definition parseRow ::
  "(string \<Rightarrow> int option) \<Rightarrow> (nat \<Rightarrow> int) \<Rightarrow> columns \<Rightarrow> nat \<Rightarrow> string \<Rightarrow> row_result" where
  "parseRow parseDate now cols i line =
     (if trim line = [] then Blank
      else
        let rowFields = splitFields line in
        if length rowFields < neededFields cols then Skipped
        else
          let symbol = rowFields ! symbolCol cols;
              buyPrice = parseFloat (rowFields ! buyPriceCol cols);
              sellPrice = parseFloat (rowFields ! sellPriceCol cols);
              qty = parseFloat (rowFields ! qtyCol cols);
              stamps = rowTimestamps parseDate (now i)
                         (rowFields ! buyTimeCol cols) (rowFields ! sellTimeCol cols);
              p = parsePnl (rowFields ! pnlCol cols) buyPrice sellPrice qty
          in case stamps of
               (Some buyTimestamp, Some sellTimestamp) \<Rightarrow>
                 Parsed \<lparr> id = i,
                          instrument = symbol,
                          entryTime = buyTimestamp,
                          exitTime = sellTimestamp,
                          quantity = qty,
                          entryPrice = buyPrice,
                          exitPrice = sellPrice,
                          profitLoss = pnl p,
                          originalPnlString = origPnl p,
                          shouldDisplayAsNegative = dispNeg p,
                          tradeType = tradeDirection buyPrice sellPrice,
                          isWinning = (\<not> dispNeg p),
                          duration = rowDuration cols rowFields
                                       (elapsed buyTimestamp sellTimestamp),
                          durationMs = elapsed buyTimestamp sellTimestamp \<rparr>
             | _ \<Rightarrow> Failed)"

text \<open>\<^verbatim>\<open>for (let i = 1; i < lines.length; i++)\<close>, with \<^verbatim>\<open>trades.push\<close>.\<close>

fun rowsLoop ::
  "(string \<Rightarrow> int option) \<Rightarrow> (nat \<Rightarrow> int) \<Rightarrow> columns \<Rightarrow> nat \<Rightarrow> string list \<Rightarrow> trade list
   \<Rightarrow> trade list" where
  "rowsLoop parseDate now cols i [] trades = trades"
| "rowsLoop parseDate now cols i (line # rest) trades =
     rowsLoop parseDate now cols (Suc i) rest
       (case parseRow parseDate now cols i line of
          Parsed t \<Rightarrow> trades @ [t]
        | _ \<Rightarrow> trades)"

subsection \<open>Sorting and the whole import\<close>

text \<open>\<^verbatim>\<open>Array.prototype.sort\<close> with a comparison function. The language
  specification (from ECMAScript 2019 on) fixes the result for a consistent
  comparison: ordered by it, and elements that compare equal in their order of
  input. Insertion from the right end computes that result.\<close>

fun insertBy :: "('a \<Rightarrow> 'a \<Rightarrow> int) \<Rightarrow> 'a \<Rightarrow> 'a list \<Rightarrow> 'a list" where
  "insertBy cmp x [] = [x]"
| "insertBy cmp x (y # ys) = (if cmp x y \<le> 0 then x # y # ys else y # insertBy cmp x ys)"

definition sortBy :: "('a \<Rightarrow> 'a \<Rightarrow> int) \<Rightarrow> 'a list \<Rightarrow> 'a list" where
  "sortBy cmp xs = foldr (insertBy cmp) xs []"

text \<open>\<^verbatim>\<open>(a, b) => new Date(b.entryTime) - new Date(a.entryTime)\<close>\<close>

definition byEntryTimeDesc :: "trade \<Rightarrow> trade \<Rightarrow> int" where
  "byEntryTimeDesc a b = entryTime b - entryTime a"

datatype csv_error = NoDataRows | MissingColumns "string list" | NoValidTrades

definition collectTrades ::
  "(string \<Rightarrow> string) \<Rightarrow> (string \<Rightarrow> int option) \<Rightarrow> (nat \<Rightarrow> int) \<Rightarrow> string list
   \<Rightarrow> trade list" where
  "collectTrades toLowerCase parseDate now lines =
     rowsLoop parseDate now
       (resolveColumns toLowerCase (objectKeys (columnMap toLowerCase (splitFields (hd lines)))))
       1 (tl lines) []"

definition parseCSV ::
  "(string \<Rightarrow> string) \<Rightarrow> (string \<Rightarrow> int option) \<Rightarrow> (nat \<Rightarrow> int) \<Rightarrow> string
   \<Rightarrow> csv_error + trade list" where
  "parseCSV toLowerCase parseDate now text =
     (let lines = splitLines text in
      if length lines < 2 then Inl NoDataRows
      else
        let keys = objectKeys (columnMap toLowerCase (splitFields (hd lines))) in
        if missingColumns toLowerCase keys \<noteq> []
        then Inl (MissingColumns (missingColumns toLowerCase keys))
        else
          let trades = collectTrades toLowerCase parseDate now lines in
          if trades = [] then Inl NoValidTrades
          else Inr (sortBy byEntryTimeDesc trades))"

subsection \<open>The store: trade list, selection, image map\<close>

record store =
  tradeList :: "trade list"
  selectedTrade :: "trade option"

text \<open>The end of \<^verbatim>\<open>reader.onload\<close>: a successful parse replaces the list and
  selects its first trade; a failure only raises a notification.\<close>

definition onload ::
  "(string \<Rightarrow> string) \<Rightarrow> (string \<Rightarrow> int option) \<Rightarrow> (nat \<Rightarrow> int) \<Rightarrow> string \<Rightarrow> store
   \<Rightarrow> store" where
  "onload toLowerCase parseDate now text s =
     (case parseCSV toLowerCase parseDate now text of
        Inl e \<Rightarrow> s
      | Inr trades \<Rightarrow>
          s\<lparr> tradeList := trades,
             selectedTrade := (case trades of [] \<Rightarrow> None | t # _ \<Rightarrow> Some t) \<rparr>)"

text \<open>A cell of an image array: an image (a data URL), \<^verbatim>\<open>null\<close>, \<^verbatim>\<open>undefined\<close>,
  or a hole of a sparse array. Writing past the end of an array leaves holes; the
  spread copy \<^verbatim>\<open>[...a]\<close> reads a hole as \<^verbatim>\<open>undefined\<close>; \<^verbatim>\<open>every\<close> does not
  visit holes.\<close>

datatype img = Hole | Undefined | Null | Data string

type_synonym image_map = "nat \<Rightarrow> img list option"

definition spread :: "img list \<Rightarrow> img list" where
  "spread a = map (\<lambda>c. if c = Hole then Undefined else c) a"

definition arraySet :: "img list \<Rightarrow> nat \<Rightarrow> img \<Rightarrow> img list" where
  "arraySet a i v =
     (if i < length a then a[i := v] else a @ replicate (i - length a) Hole @ [v])"

definition everyNull :: "img list \<Rightarrow> bool" where
  "everyNull a = list_all (\<lambda>c. c = Hole \<or> c = Null) a"

text \<open>The update that \<^verbatim>\<open>handleImageUpload\<close> passes to \<^verbatim>\<open>setTradeImages\<close>.\<close>

definition attachImage :: "image_map \<Rightarrow> nat \<Rightarrow> nat \<Rightarrow> string \<Rightarrow> image_map" where
  "attachImage prev uploadingFor uploadSlot result =
     (let tradeImagesArray = (case prev uploadingFor of None \<Rightarrow> [Null, Null, Null] | Some a \<Rightarrow> a);
          updatedImages = arraySet (spread tradeImagesArray) uploadSlot (Data result)
      in prev(uploadingFor \<mapsto> updatedImages))"

text \<open>\<^verbatim>\<open>handleImageUpload\<close> once the file has been read: nothing happens without a
  pending trade id (\<^verbatim>\<open>null\<close> and \<open>0\<close> are both falsy) or without a slot.\<close>

definition handleImageUpload ::
  "image_map \<Rightarrow> nat option \<Rightarrow> nat option \<Rightarrow> string \<Rightarrow> image_map" where
  "handleImageUpload prev uploadingFor uploadSlot result =
     (case (uploadingFor, uploadSlot) of
        (Some tradeId, Some slot) \<Rightarrow>
          if tradeId = 0 then prev else attachImage prev tradeId slot result
      | _ \<Rightarrow> prev)"

definition removeImage :: "image_map \<Rightarrow> nat \<Rightarrow> nat \<Rightarrow> image_map" where
  "removeImage prev tradeId slot =
     (case prev tradeId of
        None \<Rightarrow> prev
      | Some a \<Rightarrow>
          let updatedImages = arraySet (spread a) slot Null in
          if everyNull updatedImages then prev(tradeId := None)
          else prev(tradeId \<mapsto> updatedImages))"

fun removeImages :: "image_map \<Rightarrow> nat \<Rightarrow> nat list \<Rightarrow> image_map" where
  "removeImages m tradeId [] = m"
| "removeImages m tradeId (slot # slots) = removeImages (removeImage m tradeId slot) tradeId slots"

fun attachImages :: "image_map \<Rightarrow> nat \<Rightarrow> (nat \<times> string) list \<Rightarrow> image_map" where
  "attachImages m tradeId [] = m"
| "attachImages m tradeId ((slot, result) # rest) =
     attachImages (attachImage m tradeId slot result) tradeId rest"

subsection \<open>The debug recalculation of the P/L\<close>

text \<open>The body of the \<^verbatim>\<open>map\<close> in the handler of the Apply button, with the value
  of \<^verbatim>\<open>window.XAUUSD_DEBUG_MULTIPLIER\<close> as \<open>m\<close> and the conversion \<open>toUpperCase\<close> of
  the host.\<close>

definition recalcTrade :: "(string \<Rightarrow> string) \<Rightarrow> jsnum \<Rightarrow> trade \<Rightarrow> trade" where
  "recalcTrade toUpperCase m t =
     (if includesStr (toUpperCase (instrument t)) ''XAUUSD'' then
        let priceDiff = js_sub (exitPrice t) (entryPrice t);
            mult = (if tradeType t = Long then Num 1 else Num (- 1));
            newPL = js_mul (js_mul (js_mul priceDiff mult) m) (quantity t)
        in t\<lparr> profitLoss := newPL \<rparr>
      else t)"

text \<open>The global is \<^verbatim>\<open>undefined\<close> until the input field is edited (\<open>None\<close>); the
  handler acts only when it is truthy, that is neither unset, NaN nor zero.\<close>

definition truthy :: "jsnum option \<Rightarrow> bool" where
  "truthy m = (case m of None \<Rightarrow> False | Some x \<Rightarrow> x \<noteq> NaN \<and> x \<noteq> Num 0)"

definition applyDebugMultiplier ::
  "(string \<Rightarrow> string) \<Rightarrow> jsnum option \<Rightarrow> store \<Rightarrow> store" where
  "applyDebugMultiplier toUpperCase mOpt s =
     (case mOpt of
        None \<Rightarrow> s
      | Some m \<Rightarrow>
          if truthy (Some m) then
            let updatedTrades = map (recalcTrade toUpperCase m) (tradeList s) in
            s\<lparr> tradeList := updatedTrades,
               selectedTrade :=
                 (case selectedTrade s of
                    None \<Rightarrow> None
                  | Some sel \<Rightarrow>
                      (case find (\<lambda>t. id t = id sel) updatedTrades of
                         None \<Rightarrow> Some sel
                       | Some updated \<Rightarrow> Some updated)) \<rparr>
          else s)"

subsection \<open>A host for the examples\<close>

text \<open>The examples below need some text-to-date conversion and some clock. This
  one reads a cell of decimal digits as a time value and rejects every other cell;
  the clock shows \<open>1000\<close> at every row.\<close>

definition digitsDate :: "string \<Rightarrow> int option" where
  "digitsDate s = (if s \<noteq> [] \<and> list_all is_digit s then Some (int (digitsVal s)) else None)"

definition fixedClock :: "nat \<Rightarrow> int" where
  "fixedClock i = 1000"

text \<open>They also need the letter case conversions. The texts of the examples are ASCII;
  on such texts the conversions of every host change the letters \<open>A\<close> to \<open>Z\<close>
  (65 to 90) and \<open>a\<close> to \<open>z\<close> (97 to 122) and nothing else.\<close>

definition lowerChar :: "char \<Rightarrow> char" where
  "lowerChar c =
     (if (65::nat) \<le> of_char c \<and> of_char c \<le> (90::nat) then char_of (of_char c + (32::nat)) else c)"

definition upperChar :: "char \<Rightarrow> char" where
  "upperChar c =
     (if (97::nat) \<le> of_char c \<and> of_char c \<le> (122::nat) then char_of (of_char c - (32::nat)) else
         c)"

definition asciiLowerCase :: "string \<Rightarrow> string" where
  "asciiLowerCase s = map lowerChar s"

definition asciiUpperCase :: "string \<Rightarrow> string" where
  "asciiUpperCase s = map upperChar s"

text \<open>The one-byte characters, and the white space among them.\<close>

definition isAscii :: "char \<Rightarrow> bool" where
  "isAscii c = (of_char c < (128::nat))"

definition asciiSpace :: "char \<Rightarrow> bool" where
  "asciiSpace c = (c = CHR '' '' \<or> c = CHR 0x09 \<or> c = CHR 0x0A \<or> c = CHR 0x0B
                   \<or> c = CHR 0x0C \<or> c = CHR 0x0D)"

subsection \<open>Vocabulary of the statements\<close>

text \<open>The four shapes of a trimmed P/L cell, in the order in which the block tests
  them, and the text that the branch of each shape hands to \<^verbatim>\<open>parseFloat\<close>.\<close>

datatype pnl_shape = DollarParens | Parens | LeadingMinus | Plain

definition pnlShape :: "string \<Rightarrow> pnl_shape" where
  "pnlShape s =
     (if startsWith s ''$('' \<and> endsWith s '')'' then DollarParens
      else if startsWith s ''('' \<and> endsWith s '')'' then Parens
      else if startsWith s ''-'' then LeadingMinus
      else Plain)"

definition cleanedPnl :: "string \<Rightarrow> string" where
  "cleanedPnl s =
     (case pnlShape s of
        DollarParens \<Rightarrow> substring s 2 (length s - 1)
      | Parens \<Rightarrow> trim (stripCurrency True (substring s 1 (length s - 1)))
      | _ \<Rightarrow> trim (stripCurrency True s))"

text \<open>The columns of the header
  \<^verbatim>\<open>Symbol,BuyPrice,SellPrice,Qty,BoughtTimestamp,SoldTimestamp,Pnl\<close>.\<close>

definition exampleCols :: columns where
  "exampleCols =
     \<lparr> symbolCol = 0, buyPriceCol = 1, sellPriceCol = 2, qtyCol = 3, buyTimeCol = 4,
       sellTimeCol = 5, pnlCol = 6, durationCol = - 1 \<rparr>"

text \<open>A row whose P/L cell is no number, and the trade it becomes.\<close>

definition fallbackRow :: string where
  "fallbackRow = ''XAUUSD,1900,1905,1,100,200,n/a''"

definition fallbackTrade :: trade where
  "fallbackTrade =
     \<lparr> id = 1, instrument = ''XAUUSD'', entryTime = 100, exitTime = 200, quantity = Num 1,
       entryPrice = Num 1900, exitPrice = Num 1905, profitLoss = Num 500,
       originalPnlString = ''n/a'', shouldDisplayAsNegative = False, tradeType = Long,
       isWinning = True, duration = Minutes (Num 0), durationMs = Num 100 \<rparr>"

text \<open>A row whose prices are no binary fractions, and the trade it becomes: the prices
  are the binary64 values next to 1900.1 and 1905.3, and the \<open>profitLoss\<close> is
  520.0000000000045474735088646411895751953125.\<close>

definition decimalRow :: string where
  "decimalRow = ''XAUUSD,1900.1,1905.3,1,100,200,n/a''"

definition decimalTrade :: trade where
  "decimalTrade =
     \<lparr> id = 1, instrument = ''XAUUSD'', entryTime = 100, exitTime = 200, quantity = Num 1,
       entryPrice = Num (8356728175748710 / 2 ^ 42), exitPrice = Num (8379598017606451 / 2 ^ 42),
       profitLoss = Num (571746046443525 / 2 ^ 40),
       originalPnlString = ''n/a'', shouldDisplayAsNegative = False, tradeType = Long,
       isWinning = True, duration = Minutes (Num 0), durationMs = Num 100 \<rparr>"

text \<open>A row whose entry price is no number, and the trade it becomes.\<close>

definition nanPriceRow :: string where
  "nanPriceRow = ''XAUUSD,abc,1905,1,100,200,zz''"

definition nanPriceTrade :: trade where
  "nanPriceTrade =
     \<lparr> id = 1, instrument = ''XAUUSD'', entryTime = 100, exitTime = 200, quantity = Num 1,
       entryPrice = NaN, exitPrice = Num 1905, profitLoss = NaN,
       originalPnlString = ''zz'', shouldDisplayAsNegative = False, tradeType = Short,
       isWinning = True, duration = Minutes (Num 0), durationMs = Num 100 \<rparr>"

text \<open>A row of the short shape (the entry price is above the exit price) whose P/L cell
  is no number, and the trade it becomes.\<close>

definition shortFallbackRow :: string where
  "shortFallbackRow = ''XAUUSD,1910,1905,2,100,200,n/a''"

definition shortFallbackTrade :: trade where
  "shortFallbackTrade =
     \<lparr> id = 1, instrument = ''XAUUSD'', entryTime = 100, exitTime = 200, quantity = Num 2,
       entryPrice = Num 1910, exitPrice = Num 1905, profitLoss = Num 1000,
       originalPnlString = ''n/a'', shouldDisplayAsNegative = False, tradeType = Short,
       isWinning = True, duration = Minutes (Num 0), durationMs = Num 100 \<rparr>"

text \<open>Two more rows and their trades: a P/L cell of the shape \<^verbatim>\<open>$(number)\<close>, and one
  whose minus sign follows the currency sign.\<close>

definition dollarParensRow :: string where
  "dollarParensRow = ''XAUUSD,1900,1905,1,100,200,$(225.00)''"

definition dollarParensTrade :: trade where
  "dollarParensTrade =
     \<lparr> id = 1, instrument = ''XAUUSD'', entryTime = 100, exitTime = 200, quantity = Num 1,
       entryPrice = Num 1900, exitPrice = Num 1905, profitLoss = Num (- 225),
       originalPnlString = ''-$225.00'', shouldDisplayAsNegative = True, tradeType = Long,
       isWinning = False, duration = Minutes (Num 0), durationMs = Num 100 \<rparr>"

definition dollarMinusRow :: string where
  "dollarMinusRow = ''xauusd,1910,1905,2,100,300,$-5.00''"

definition dollarMinusTrade :: trade where
  "dollarMinusTrade =
     \<lparr> id = 1, instrument = ''xauusd'', entryTime = 100, exitTime = 300, quantity = Num 2,
       entryPrice = Num 1910, exitPrice = Num 1905, profitLoss = Num (- 5),
       originalPnlString = ''$-5.00'', shouldDisplayAsNegative = False, tradeType = Short,
       isWinning = True, duration = Minutes (Num 0), durationMs = Num 200 \<rparr>"

text \<open>A trade of another instrument, and a store that holds one trade of each kind.\<close>

definition eurTrade :: trade where
  "eurTrade = fallbackTrade\<lparr> id := 2, instrument := ''EURUSD'' \<rparr>"

definition twoTradeStore :: store where
  "twoTradeStore = \<lparr> tradeList = [fallbackTrade, eurTrade], selectedTrade = None \<rparr>"

text \<open>The state of one trade's entry while the slots in \<open>S\<close> may hold an image: no
  entry, or three cells that are not all empty and are \<^verbatim>\<open>null\<close> outside \<open>S\<close>.\<close>

definition slotsInv :: "nat set \<Rightarrow> nat \<Rightarrow> image_map \<Rightarrow> bool" where
  "slotsInv S tradeId m =
     (case m tradeId of
        None \<Rightarrow> True
      | Some a \<Rightarrow> length a = 3 \<and> \<not> everyNull a \<and> (\<forall>i<3. i \<notin> S \<longrightarrow> a ! i = Null))"

text \<open>The trades that the loop collects from the data lines, numbered from \<open>i\<close>: one
  for each line that parses, in the order of the lines.\<close>

fun parsedOf :: "row_result \<Rightarrow> trade list" where
  "parsedOf (Parsed t) = [t]"
| "parsedOf r = []"

definition rowTrades ::
  "(string \<Rightarrow> int option) \<Rightarrow> (nat \<Rightarrow> int) \<Rightarrow> columns \<Rightarrow> nat \<Rightarrow> string list \<Rightarrow> trade list" where
  "rowTrades parseDate now cols i rows =
     concat (map (\<lambda>(k, line). parsedOf (parseRow parseDate now cols k line)) (enumerate i rows))"

text \<open>A whole export: a header, a row with a later entry time, a row that is too short,
  a row with a bad timestamp, and the two rows with the P/L shapes above.\<close>

definition exampleHeader :: string where
  "exampleHeader = ''Symbol,BuyPrice,SellPrice,Qty,BoughtTimestamp,SoldTimestamp,Pnl''"

definition lateRow :: string where
  "lateRow = ''XAUUSD,1900,1905,1,300,400,10''"

definition badTimeRow :: string where
  "badTimeRow = ''XAUUSD,1900,1905,1,bad,200,n/a''"

definition exampleCsv :: string where
  "exampleCsv =
     exampleHeader @ [CHR 0x0A] @ lateRow @ [CHR 0x0A] @ ''short,row'' @ [CHR 0x0A]
     @ badTimeRow @ [CHR 0x0A] @ dollarParensRow @ [CHR 0x0A] @ dollarMinusRow @ [CHR 0x0A]"

definition lateTrade :: trade where
  "lateTrade =
     \<lparr> id = 1, instrument = ''XAUUSD'', entryTime = 300, exitTime = 400, quantity = Num 1,
       entryPrice = Num 1900, exitPrice = Num 1905, profitLoss = Num 10,
       originalPnlString = ''10'', shouldDisplayAsNegative = False, tradeType = Long,
       isWinning = True, duration = Minutes (Num 0), durationMs = Num 100 \<rparr>"

definition clockTrade :: trade where
  "clockTrade =
     \<lparr> id = 3, instrument = ''XAUUSD'', entryTime = 1000, exitTime = 3601000, quantity = Num 1,
       entryPrice = Num 1900, exitPrice = Num 1905, profitLoss = Num 500,
       originalPnlString = ''n/a'', shouldDisplayAsNegative = False, tradeType = Long,
       isWinning = True, duration = HoursMinutes (Num 1) (Num 0), durationMs = Num 3600000 \<rparr>"

text \<open>Headers that are plain: pairwise different once in lower case, none an array index,
  none \<^verbatim>\<open>__proto__\<close>. And the position \<open>j\<close> of the only header that contains a
  column name, letter case aside.\<close>

definition plainHeaders :: "(string \<Rightarrow> string) \<Rightarrow> string list \<Rightarrow> bool" where
  "plainHeaders toLowerCase headers \<longleftrightarrow>
     distinct (map toLowerCase headers)
     \<and> (\<forall>h \<in> set headers. \<not> isArrayIndex (toLowerCase h) \<and> toLowerCase h \<noteq> ''__proto__'')"

definition uniqueColumn :: "(string \<Rightarrow> string) \<Rightarrow> string list \<Rightarrow> string \<Rightarrow> nat \<Rightarrow> bool" where
  "uniqueColumn toLowerCase headers baseName j \<longleftrightarrow>
     j < length headers
     \<and> includesStr (toLowerCase (headers ! j)) (toLowerCase baseName)
     \<and> (\<forall>k < length headers.
           includesStr (toLowerCase (headers ! k)) (toLowerCase baseName) \<longrightarrow> k = j)"

text \<open>Header rows for the resolution of the columns: the usual one, the same names in
  another order and letter case with a row that has the same cells under the same names,
  two rows where a second name contains \<^verbatim>\<open>pnl\<close>, and one where two names differ only
  in letter case.\<close>

definition exampleHeaders :: "string list" where
  "exampleHeaders =
     [''Symbol'', ''BuyPrice'', ''SellPrice'', ''Qty'', ''BoughtTimestamp'', ''SoldTimestamp'',
         ''Pnl'']"

definition shuffledHeaders :: "string list" where
  "shuffledHeaders =
     [''PNL'', ''symbol'', ''buyPrice'', ''SELLPRICE'', ''Qty'', ''BoughtTimestamp'',
         ''SoldTimestamp'']"

definition shuffledRow :: string where
  "shuffledRow = ''n/a,XAUUSD,1900,1905,1,100,200''"

definition collisionHeadersA :: "string list" where
  "collisionHeadersA =
     [''Symbol'', ''BuyPrice'', ''SellPrice'', ''Qty'', ''BoughtTimestamp'', ''SoldTimestamp'',
      ''Pnl'', ''PnlPct'']"

definition collisionHeadersB :: "string list" where
  "collisionHeadersB =
     [''Symbol'', ''BuyPrice'', ''SellPrice'', ''Qty'', ''BoughtTimestamp'', ''SoldTimestamp'',
      ''PnlPct'', ''Pnl'']"

definition collisionTradeA :: trade where
  "collisionTradeA = fallbackTrade\<lparr> profitLoss := Num 10, originalPnlString := ''10'' \<rparr>"

definition collisionTradeB :: trade where
  "collisionTradeB = fallbackTrade\<lparr> profitLoss := Num 7, originalPnlString := ''7'' \<rparr>"

definition duplicateHeaders :: "string list" where
  "duplicateHeaders =
     [''Note'', ''NOTE'', ''Symbol'', ''BuyPrice'', ''SellPrice'', ''Qty'', ''BoughtTimestamp'',
      ''SoldTimestamp'', ''Pnl'']"

section \<open>Properties\<close>

subsection \<open>White space at the ends of one-byte text\<close>

lemma trimStart_Nil [simp]: "trimStart [] = []"
  by (simp add: trimStart.simps [of "[]"] whiteSpace_def)

lemma trimEnd_Nil [simp]: "trimEnd [] = []"
  by (simp add: trimEnd.simps [of "[]"] whiteSpace_def endsWith_def)

lemma find_ws_ascii:
  assumes "isAscii c"
  shows "find (startsWith (c # cs)) whiteSpace = (if asciiSpace c then Some [c] else None)"
proof -
  have "c \<noteq> CHR 0xC2" "c \<noteq> CHR 0xE1" "c \<noteq> CHR 0xE2" "c \<noteq> CHR 0xE3" "c \<noteq> CHR 0xEF"
    using assms by (auto simp: isAscii_def)
  then show ?thesis by (auto simp: whiteSpace_def asciiSpace_def)
qed

lemma trimStart_ascii:
  "isAscii c \<Longrightarrow> trimStart (c # cs) = (if asciiSpace c then trimStart cs else c # cs)"
  by (simp add: trimStart.simps [of "c # cs"] find_ws_ascii)

lemma find_ws_ascii_end:
  assumes "isAscii c"
  shows "find (endsWith (cs @ [c])) whiteSpace = (if asciiSpace c then Some [c] else None)"
proof -
  have "c \<noteq> CHR 0xA0" "c \<noteq> CHR 0x80" "c \<noteq> CHR 0x81" "c \<noteq> CHR 0x82" "c \<noteq> CHR 0x83"
    "c \<noteq> CHR 0x84" "c \<noteq> CHR 0x85" "c \<noteq> CHR 0x86" "c \<noteq> CHR 0x87" "c \<noteq> CHR 0x88"
    "c \<noteq> CHR 0x89" "c \<noteq> CHR 0x8A" "c \<noteq> CHR 0xA8" "c \<noteq> CHR 0xA9" "c \<noteq> CHR 0xAF"
    "c \<noteq> CHR 0x9F" "c \<noteq> CHR 0xBF"
    using assms by (auto simp: isAscii_def)
  then show ?thesis by (auto simp: whiteSpace_def asciiSpace_def endsWith_def)
qed

lemma trimEnd_ascii:
  "isAscii c \<Longrightarrow> trimEnd (cs @ [c]) = (if asciiSpace c then trimEnd cs else cs @ [c])"
  by (simp add: trimEnd.simps [of "cs @ [c]"] find_ws_ascii_end)

lemma trimStart_ascii_list: "list_all isAscii s \<Longrightarrow> trimStart s = dropWhile asciiSpace s"
  by (induction s) (simp_all add: trimStart_ascii)

lemma trimEnd_ascii_list: "list_all isAscii s \<Longrightarrow> trimEnd s = rev (dropWhile asciiSpace (rev s))"
  by (induction s rule: rev_induct) (simp_all add: trimEnd_ascii)

lemma trim_ascii:
  assumes "list_all isAscii s"
  shows "trim s = rev (dropWhile asciiSpace (rev (dropWhile asciiSpace s)))"
proof -
  have "list_all isAscii (dropWhile asciiSpace s)"
    using assms by (auto simp: list_all_iff dest: set_dropWhileD)
  then show ?thesis by (simp add: trim_def trimStart_ascii_list [OF assms] trimEnd_ascii_list)
qed

subsection \<open>Rounding to binary64\<close>

lemma roundHalfEven_of_int [simp]: "roundHalfEven (of_int n) = n"
  by (simp add: roundHalfEven_def)

lemma roundHalfEven_ge: "of_int n \<le> m \<Longrightarrow> n \<le> roundHalfEven m"
proof -
  assume "of_int n \<le> m"
  then have "n \<le> \<lfloor>m\<rfloor>" by (simp add: le_floor_iff)
  moreover have "\<lfloor>m\<rfloor> \<le> roundHalfEven m" by (simp add: roundHalfEven_def Let_def)
  ultimately show ?thesis by simp
qed

lemma roundHalfEven_le: "m \<le> of_int n \<Longrightarrow> roundHalfEven m \<le> n"
proof -
  assume a: "m \<le> of_int n"
  show ?thesis
  proof (cases "m = of_int \<lfloor>m\<rfloor>")
    case True
    then have "roundHalfEven m = \<lfloor>m\<rfloor>" by (simp add: roundHalfEven_def)
    moreover have "\<lfloor>m\<rfloor> \<le> n" using a by (metis floor_mono floor_of_int)
    ultimately show ?thesis by simp
  next
    case False
    then have "of_int \<lfloor>m\<rfloor> < m" by (metis of_int_floor_le order_less_le)
    then have "of_int \<lfloor>m\<rfloor> < (of_int n :: rat)" using a by linarith
    then have "\<lfloor>m\<rfloor> < n" by simp
    then have "\<lfloor>m\<rfloor> + 1 \<le> n" by simp
    then show ?thesis by (auto simp: roundHalfEven_def Let_def)
  qed
qed

lemma roundHalfEven_minus: "roundHalfEven (- m) = - roundHalfEven m"
proof (cases "m = of_int \<lfloor>m\<rfloor>")
  case True
  then obtain n where "m = of_int n" ..
  then show ?thesis by (simp flip: of_int_minus)
next
  case False
  then have c: "\<lceil>m\<rceil> = \<lfloor>m\<rfloor> + 1" by (metis ceiling_altdef of_int_floor_cancel)
  have f: "\<lfloor>- m\<rfloor> = - \<lfloor>m\<rfloor> - 1" using c by (simp add: floor_minus)
  show ?thesis
    unfolding roundHalfEven_def Let_def f
    by (auto simp: algebra_simps)
qed

lemma binade_bounds:
  assumes "0 < q"
  shows "2 powi binade q \<le> q \<and> q < 2 powi (binade q + 1)"
proof (cases "1 \<le> q")
  case True
  then have f: "0 < \<lfloor>q\<rfloor>" by simp
  have b: "1 \<le> bitlen \<lfloor>q\<rfloor>" using f bitlen_eq_zero_iff [of "\<lfloor>q\<rfloor>"] bitlen_nonneg [of "\<lfloor>q\<rfloor>"] by
      linarith
  note bb = bitlen_bounds [OF f]
  have "(2::rat) ^ nat (bitlen \<lfloor>q\<rfloor> - 1) = of_int (2 ^ nat (bitlen \<lfloor>q\<rfloor> - 1))" by simp
  also have "\<dots> \<le> of_int \<lfloor>q\<rfloor>" using bb unfolding of_int_le_iff by blast
  also have "\<dots> \<le> q" by simp
  finally have lo: "(2::rat) ^ nat (bitlen \<lfloor>q\<rfloor> - 1) \<le> q" .
  have "\<lfloor>q\<rfloor> + 1 \<le> 2 ^ nat (bitlen \<lfloor>q\<rfloor>)" using bb by simp
  then have "(of_int (\<lfloor>q\<rfloor> + 1) :: rat) \<le> of_int (2 ^ nat (bitlen \<lfloor>q\<rfloor>))"
    unfolding of_int_le_iff .
  moreover have "q < of_int (\<lfloor>q\<rfloor> + 1)" by linarith
  ultimately have hi: "q < 2 ^ nat (bitlen \<lfloor>q\<rfloor>)" by simp
  show ?thesis using True lo hi b by (simp add: binade_def power_int_def)
next
  case False
  then have q1: "q < 1" by simp
  define c where "c = \<lceil>1 / q\<rceil> - 1"
  have "1 < 1 / q" using assms q1 by simp
  then have c0: "0 < c" unfolding c_def by (simp add: less_ceiling_iff)
  have b: "1 \<le> bitlen c" using c0 bitlen_eq_zero_iff [of c] bitlen_nonneg [of c] by linarith
  note bb = bitlen_bounds [OF c0]
  have c1: "of_int c < 1 / q" unfolding c_def by (simp add: field_simps) linarith
  have c2: "1 / q \<le> of_int (c + 1)" unfolding c_def by simp
  have "(2::rat) ^ nat (bitlen c - 1) = of_int (2 ^ nat (bitlen c - 1))" by simp
  also have "\<dots> \<le> of_int c" using bb unfolding of_int_le_iff by blast
  also have "\<dots> < 1 / q" by (rule c1)
  finally have "q * 2 ^ nat (bitlen c - 1) < 1" using assms by (simp add: field_simps)
  then have hi: "q < 1 / 2 ^ nat (bitlen c - 1)" by (simp add: field_simps)
  have "c + 1 \<le> 2 ^ nat (bitlen c)" using bb by simp
  then have "(of_int (c + 1) :: rat) \<le> of_int (2 ^ nat (bitlen c))" unfolding of_int_le_iff .
  then have "1 / q \<le> 2 ^ nat (bitlen c)" using c2 by simp
  then have "1 \<le> q * 2 ^ nat (bitlen c)" using assms by (simp add: field_simps)
  then have lo: "1 / 2 ^ nat (bitlen c) \<le> q" by (simp add: field_simps)
  have e: "binade q = - bitlen c" using False by (simp add: binade_def c_def)
  have n1: "nat (bitlen c) = Suc (nat (bitlen c - 1))" using b by simp
  show ?thesis
  proof (cases "bitlen c = 1")
    case True
    then show ?thesis using lo hi by (simp add: e power_int_def)
  next
    case False
    then have "2 \<le> bitlen c" using b by simp
    then have "- bitlen c + 1 < 0" "nat (- (- bitlen c + 1)) = nat (bitlen c - 1)" by simp_all
    then show ?thesis using lo hi b by (simp add: e power_int_def field_simps)
  qed
qed


lemma binary64_minus: "binary64 (- q) = js_neg (binary64 q)"
proof (cases "q = 0")
  case True
  then show ?thesis by (simp add: binary64_def)
next
  case False
  define p where "p = max (binade \<bar>q\<bar>) (- 1022) - 52"
  define r where "r = rat_of_int (roundHalfEven (q / 2 powi p)) * 2 powi p"
  have m: "rat_of_int (roundHalfEven (- q / 2 powi p)) * 2 powi p = - r"
    by (simp add: r_def roundHalfEven_minus)
  have "binary64 q = (if 2 ^ 1024 \<le> r then PInf else if r \<le> - (2 ^ 1024) then NInf else Num r)"
    using False by (simp add: binary64_def Let_def p_def r_def)
  moreover have "binary64 (- q) =
      (if 2 ^ 1024 \<le> - r then PInf else if - r \<le> - (2 ^ 1024) then NInf else Num (- r))"
    using False m by (simp add: binary64_def Let_def p_def)
  ultimately show ?thesis by auto
qed

lemma binary64_nonneg:
  assumes "0 \<le> q"
  shows "binary64 q = PInf \<or> (\<exists>r. binary64 q = Num r \<and> 0 \<le> r)"
proof (cases "q = 0")
  case True
  then show ?thesis by (simp add: binary64_def)
next
  case False
  define p where "p = max (binade \<bar>q\<bar>) (- 1022) - 52"
  define r where "r = rat_of_int (roundHalfEven (q / 2 powi p)) * 2 powi p"
  have pp: "(0::rat) < 2 powi p" by simp
  have "rat_of_int 0 \<le> q / 2 powi p" using assms pp by simp
  then have "0 \<le> roundHalfEven (q / 2 powi p)" by (rule roundHalfEven_ge)
  then have r0: "0 \<le> r" using pp by (simp add: r_def)
  have "binary64 q = (if 2 ^ 1024 \<le> r then PInf else if r \<le> - (2 ^ 1024) then NInf else Num r)"
    using False by (simp add: binary64_def Let_def p_def r_def)
  then show ?thesis using r0 by auto
qed

lemma binary64_nonpos:
  assumes "q \<le> 0"
  shows "binary64 q = NInf \<or> (\<exists>r. binary64 q = Num r \<and> r \<le> 0)"
proof -
  have "0 \<le> - q" using assms by simp
  from binary64_nonneg [OF this] show ?thesis
    unfolding binary64_minus by (cases "binary64 q") auto
qed

lemma binary64_nat:
  assumes "n < 2 ^ 53"
  shows "binary64 (of_nat n) = Num (of_nat n)"
proof (cases "n = 0")
  case True
  then show ?thesis by (simp add: binary64_def)
next
  case False
  define q :: rat where "q = of_nat n"
  have q1: "1 \<le> q" using False by (simp add: q_def)
  have fl: "\<lfloor>q\<rfloor> = int n" by (simp add: q_def)
  define e where "e = binade \<bar>q\<bar>"
  have e: "e = bitlen (int n) - 1" using q1 by (simp add: e_def binade_def fl)
  have "bitlen (int n) \<le> 53" using assms by (simp add: bitlen_le_iff_power)
  moreover have "1 \<le> bitlen (int n)"
    using False bitlen_eq_zero_iff [of "int n"] bitlen_nonneg [of "int n"] by linarith
  ultimately have e0: "0 \<le> e" and e52: "e \<le> 52" using e by simp_all
  define k where "k = nat (52 - e)"
  have p: "max e (- 1022) - 52 = - int k" using e0 e52 by (simp add: k_def)
  have pw: "(2::rat) powi (- int k) = 1 / 2 ^ k" by (simp add: power_int_minus field_simps)
  have "q / 2 powi (- int k) = rat_of_int (int n * 2 ^ k)" by (simp add: pw q_def)
  then have rh: "roundHalfEven (q / 2 powi (- int k)) = int n * 2 ^ k"
    by (simp only: roundHalfEven_of_int)
  have r: "rat_of_int (roundHalfEven (q / 2 powi (- int k))) * 2 powi (- int k) = q"
    unfolding rh by (simp add: pw q_def)
  have "q < 2 ^ 53" using assms unfolding q_def
    by (metis of_nat_less_iff of_nat_numeral of_nat_power)
  also have "\<dots> < (2::rat) ^ 1024" by (rule power_strict_increasing) simp_all
  finally have big: "q < 2 ^ 1024" .
  have "binary64 q = Num q"
    using q1 big unfolding binary64_def Let_def e_def [symmetric] p r
    by (simp del: power_int_minus)
  then show ?thesis by (simp add: q_def)
qed

lemma binary64_numeral [simp]:
  "numeral k < (2::nat) ^ 53 \<Longrightarrow> binary64 (numeral k) = Num (numeral k)"
  using binary64_nat [of "numeral k"] by simp

lemma binary64_neg_numeral [simp]:
  "numeral k < (2::nat) ^ 53 \<Longrightarrow> binary64 (- numeral k) = Num (- numeral k)"
  by (simp add: binary64_minus)

lemma binary64_0 [simp]: "binary64 0 = Num 0"
  by (simp add: binary64_def)

lemma binary64_1 [simp]: "binary64 1 = Num 1"
  using binary64_nat [of 1] by simp

lemma binary64_le_powi:
  assumes "0 \<le> q" and "q \<le> 2 powi k" and "- 1074 \<le> k" and "k \<le> 1023"
  shows "\<exists>r. binary64 q = Num r \<and> 0 \<le> r \<and> r \<le> 2 powi k"
proof (cases "q = 0")
  case True
  then show ?thesis by (simp add: binary64_def)
next
  case False
  then have q: "0 < q" using assms(1) by simp
  define p where "p = max (binade \<bar>q\<bar>) (- 1022) - 52"
  define r where "r = rat_of_int (roundHalfEven (q / 2 powi p)) * 2 powi p"
  have pp: "(0::rat) < 2 powi p" by simp
  have "binade q \<le> k"
  proof (rule ccontr)
    assume "\<not> binade q \<le> k"
    then have "k < binade q" by simp
    then have "(2::rat) powi k < 2 powi binade q" by (intro power_int_strict_increasing) simp_all
    then show False using binade_bounds [OF q] assms(2) by linarith
  qed
  then have pk: "p \<le> k" using assms(3) q by (simp add: p_def)
  define n where "n = nat (k - p)"
  have kp: "(2::rat) powi k = 2 ^ n * 2 powi p"
  proof -
    have "k = int n + p" using pk by (simp add: n_def)
    then have "(2::rat) powi k = 2 powi (int n + p)" by simp
    also have "\<dots> = 2 powi int n * 2 powi p" by (rule power_int_add) simp
    finally show ?thesis by (simp add: power_int_of_nat)
  qed
  have "q / 2 powi p \<le> 2 ^ n" using assms(2) pp unfolding kp by (simp add: field_simps)
  then have "q / 2 powi p \<le> rat_of_int (2 ^ n)" by simp
  then have "roundHalfEven (q / 2 powi p) \<le> 2 ^ n" by (rule roundHalfEven_le)
  then have "rat_of_int (roundHalfEven (q / 2 powi p)) \<le> rat_of_int (2 ^ n)"
    unfolding of_int_le_iff .
  then have rk: "r \<le> 2 powi k" unfolding r_def kp using pp by simp
  have "rat_of_int 0 \<le> q / 2 powi p" using assms(1) pp by simp
  then have "0 \<le> roundHalfEven (q / 2 powi p)" by (rule roundHalfEven_ge)
  then have r0: "0 \<le> r" using pp by (simp add: r_def)
  have "(2::rat) powi k \<le> 2 powi 1023" using assms(4) by (intro power_int_increasing) simp_all
  also have "\<dots> < (2::rat) ^ 1024" by (simp add: power_int_def)
  finally have "r < 2 ^ 1024" using rk by simp
  moreover have "binary64 q = (if 2 ^ 1024 \<le> r then PInf else if r \<le> - (2 ^ 1024) then NInf else
      Num r)"
    using False by (simp add: binary64_def Let_def p_def r_def)
  ultimately have "binary64 q = Num r" using r0 by simp
  then show ?thesis using r0 rk by blast
qed

lemma binade_eqI:
  assumes "2 powi e \<le> q" and "q < 2 powi (e + 1)"
  shows "binade q = e"
proof -
  have q: "0 < q" using assms(1) by (rule less_le_trans [rotated]) simp
  note b = binade_bounds [OF q]
  have "\<not> binade q < e"
  proof
    assume "binade q < e"
    then have "binade q + 1 \<le> e" by simp
    then have "(2::rat) powi (binade q + 1) \<le> 2 powi e" by (intro power_int_increasing) simp_all
    then show False using b assms(1) by linarith
  qed
  moreover have "\<not> e < binade q"
  proof
    assume "e < binade q"
    then have "e + 1 \<le> binade q" by simp
    then have "(2::rat) powi (e + 1) \<le> 2 powi binade q" by (intro power_int_increasing) simp_all
    then show False using b assms(2) by linarith
  qed
  ultimately show ?thesis by simp
qed

lemma roundHalfEven_near:
  assumes "\<bar>m - of_int n\<bar> < 1 / 2"
  shows "roundHalfEven m = n"
proof (cases "of_int n \<le> m")
  case True
  then have "\<lfloor>m\<rfloor> = n" using assms by (simp add: floor_eq_iff)
  then show ?thesis using assms True by (simp add: roundHalfEven_def Let_def)
next
  case False
  then have "\<lfloor>m\<rfloor> = n - 1" using assms by (simp add: floor_eq_iff)
  then show ?thesis using assms False by (auto simp: roundHalfEven_def Let_def) 
qed

text \<open>A positive normal number: \<open>q\<close> in the binade \<open>e\<close> goes to the multiple \<open>n\<close> of
  \<open>2^(e-52)\<close> that is less than half a unit away.\<close>

lemma binary64_eqI:
  assumes "2 powi e \<le> q" and "q < 2 powi (e + 1)" and "- 1022 \<le> e" and "e \<le> 1022"
    and "\<bar>q / 2 powi (e - 52) - of_int n\<bar> < 1 / 2"
  shows "binary64 q = Num (of_int n * 2 powi (e - 52))"
proof -
  have q: "0 < q" using assms(1) by (rule less_le_trans [rotated]) simp
  have b: "binade \<bar>q\<bar> = e" using q binade_eqI [OF assms(1,2)] by simp
  have p: "max e (- 1022) - 52 = e - 52" using assms(3) by simp
  have rh: "roundHalfEven (q / 2 powi (e - 52)) = n" by (rule roundHalfEven_near [OF assms(5)])
  have pp: "(0::rat) < 2 powi (e - 52)" by simp
  have "q / 2 powi (e - 52) < 2 ^ 53"
  proof -
    have "e + 1 = 53 + (e - 52)" by simp
    then have "(2::rat) powi (e + 1) = 2 powi (53 + (e - 52))" by (simp only:)
    also have "\<dots> = 2 powi 53 * 2 powi (e - 52)" by (rule power_int_add) simp
    finally have "q < 2 ^ 53 * 2 powi (e - 52)" using assms(2) by (simp add: power_int_def)
    then show ?thesis using pp by (simp add: field_simps)
  qed
  then have "q / 2 powi (e - 52) \<le> rat_of_int (2 ^ 53)" by simp
  then have "n \<le> 2 ^ 53" using roundHalfEven_le [of "q / 2 powi (e - 52)" "2 ^ 53"] rh by simp
  then have "rat_of_int n \<le> rat_of_int (2 ^ 53)" unfolding of_int_le_iff .
  then have "rat_of_int n * 2 powi (e - 52) \<le> 2 ^ 53 * 2 powi (e - 52)" using pp by simp
  also have "\<dots> = 2 powi 53 * 2 powi (e - 52)" by (simp add: power_int_def)
  also have "\<dots> = 2 powi (53 + (e - 52))" by (rule power_int_add [symmetric]) simp
  also have "\<dots> \<le> 2 powi 1023" using assms(4) by (intro power_int_increasing) simp_all
  also have "\<dots> < (2::rat) ^ 1024" by (simp add: power_int_def)
  finally have hi: "rat_of_int n * 2 powi (e - 52) < 2 ^ 1024" .
  have "rat_of_int 0 \<le> q / 2 powi (e - 52)" using q pp by simp
  then have "0 \<le> n" using roundHalfEven_ge [of 0 "q / 2 powi (e - 52)"] rh by simp
  then have lo: "0 \<le> rat_of_int n * 2 powi (e - 52)" using pp by simp
  show ?thesis
    using q hi lo unfolding binary64_def Let_def b p rh by simp
qed

lemma divBy_exact: "binary64 (a / c) = Num b \<Longrightarrow> divBy c (Num a) = Num b"
  by simp

declare divBy.simps [simp del]

lemma floor_divBy_small:
  assumes "0 \<le> a" and "2 * a \<le> c"  and "0 < c"
  shows "js_floor (divBy c (Num a)) = Num 0"
proof -
  have "a / c \<le> 2 powi (- 1)" using assms by (simp add: power_int_def field_simps)
  moreover have "0 \<le> a / c" using assms by simp
  ultimately obtain r where "binary64 (a / c) = Num r" "0 \<le> r" "r \<le> 2 powi (- 1)"
    using binary64_le_powi [of "a / c" "- 1"] by auto
  then show ?thesis by (simp add: divBy.simps power_int_def floor_eq_iff)
qed

lemma divBy_hour: "divBy 60000 (Num 3600000) = Num 60"
  by (rule divBy_exact) simp

lemma divBy_60: "divBy 60 (Num 60) = Num 1"
  by (rule divBy_exact) simp


subsection \<open>Rules for evaluating the definitions on concrete text\<close>

lemmas str_defs = trim_ascii trimStart_ascii_list isAscii_def asciiSpace_def endsWith_def
  substring_def is_delim_def splitFields_def splitLines_def lowerChar_def upperChar_def
  asciiLowerCase_def asciiUpperCase_def

lemmas num_defs = isNaN_def js_gt_def js_le_def is_digit_def digitVal_def digitsVal_def
  exponentPart_def scale10_def parseUnsigned_def parseFloat_def

lemmas pnl_defs = XAUUSD_MULTIPLIER_def parsePnlField_def direction_def pnlFromPrices_def
  parsePnl_def pnlShape_def cleanedPnl_def

lemmas row_defs = timeClip_def rowTimestamps_def tradeDirection_def rowDuration_def
  neededFields_def digitsDate_def fixedClock_def exampleCols_def elapsed_def floor_divBy_small

subsection \<open>Signs of products\<close>

lemma js_neg_NaN [simp]: "js_neg x = NaN \<longleftrightarrow> x = NaN"
  by (cases x) auto

lemma js_abs_NaN [simp]: "js_abs x = NaN \<longleftrightarrow> x = NaN"
  by (cases x) auto

lemma not_neg_iff: "\<not> js_lt x (Num 0) \<longleftrightarrow> x = NaN \<or> js_le (Num 0) x"
  by (cases x) (auto simp: js_le_def)

lemma js_le_0_iff: "js_le (Num 0) x \<longleftrightarrow> x = PInf \<or> (\<exists>r. x = Num r \<and> 0 \<le> r)"
  by (cases x) (auto simp: js_le_def)

lemma binary64_ge_0: "0 \<le> q \<Longrightarrow> js_le (Num 0) (binary64 q)"
  using binary64_nonneg [of q] by (auto simp: js_le_0_iff)

lemma js_mul_not_neg:
  assumes "\<not> js_lt x (Num 0)" and "\<not> js_lt y (Num 0)"
  shows "\<not> js_lt (js_mul x y) (Num 0)"
proof (cases x)
  case (Num a)
  show ?thesis
  proof (cases y)
    case (Num b)
    have "0 \<le> a * b" using assms \<open>x = Num a\<close> Num by simp
    then show ?thesis using binary64_ge_0 [of "a * b"] \<open>x = Num a\<close> Num
      by (simp add: not_neg_iff)
  qed (use assms Num in \<open>auto split: if_splits\<close>)
qed (use assms in \<open>cases y; auto split: if_splits\<close>)+

lemma js_mul_pos:
  assumes "js_le (Num 0) x" and "0 < q"
  shows "js_le (Num 0) (js_mul x (Num q))"
proof (cases x)
  case (Num a)
  then have "0 \<le> a * q" using assms by (simp add: js_le_def)
  then show ?thesis using binary64_ge_0 [of "a * q"] Num by simp
qed (use assms in \<open>auto simp: js_le_def\<close>)

lemma js_sub_Num_le:
  "a \<le> b \<Longrightarrow> js_sub (Num a) (Num b) = NInf \<or> (\<exists>r. js_sub (Num a) (Num b) = Num r \<and> r \<le> 0)"
  using binary64_nonpos [of "a - b"] by simp

lemma js_sub_Num_ge:
  "b \<le> a \<Longrightarrow> js_sub (Num a) (Num b) = PInf \<or> (\<exists>r. js_sub (Num a) (Num b) = Num r \<and> 0 \<le> r)"
  using binary64_nonneg [of "a - b"] by simp

lemma direction_diff_Num:
  "js_le (Num 0) (js_mul (direction (Num b) (Num s)) (js_sub (Num s) (Num b)))"
proof (cases "s < b")
  case True
  then have d: "direction (Num b) (Num s) = Num (- 1)" by (simp add: direction_def js_gt_def)
  from True have "s \<le> b" by simp
  from js_sub_Num_le [OF this] show ?thesis
  proof
    assume "js_sub (Num s) (Num b) = NInf"
    then show ?thesis by (simp add: d js_le_def)
  next
    assume "\<exists>r. js_sub (Num s) (Num b) = Num r \<and> r \<le> 0"
    then obtain r where r: "js_sub (Num s) (Num b) = Num r" "r \<le> 0" by blast
    then have "0 \<le> - 1 * r" by simp
    from binary64_ge_0 [OF this] show ?thesis by (simp only: d r js_mul.simps)
  qed
next
  case False
  then have d: "direction (Num b) (Num s) = Num 1" by (simp add: direction_def js_gt_def)
  from False have "b \<le> s" by simp
  from js_sub_Num_ge [OF this] show ?thesis
  proof
    assume "js_sub (Num s) (Num b) = PInf"
    then show ?thesis by (simp add: d js_le_def)
  next
    assume "\<exists>r. js_sub (Num s) (Num b) = Num r \<and> 0 \<le> r"
    then obtain r where r: "js_sub (Num s) (Num b) = Num r" "0 \<le> r" by blast
    then have "0 \<le> 1 * r" by simp
    from binary64_ge_0 [OF this] show ?thesis by (simp only: d r js_mul.simps)
  qed
qed

lemma direction_diff_not_neg: "\<not> js_lt (js_mul (direction b s) (js_sub s b)) (Num 0)"
proof (cases b)
  case (Num a)
  show ?thesis
  proof (cases s)
    case (Num c)
    show ?thesis
      using direction_diff_Num [of a c] unfolding \<open>b = Num a\<close> Num by (simp add: not_neg_iff)
  qed (use Num in \<open>auto simp: direction_def js_gt_def\<close>)
qed (cases s; auto simp: direction_def js_gt_def)+

lemma js_le_not_lt: "js_le (Num 0) x \<Longrightarrow> \<not> js_lt x (Num 0)"
  by (cases x) (auto simp: js_le_def)

lemma pnlFromPrices_not_neg:
  assumes "js_le (Num 0) q"
  shows "\<not> js_lt (pnlFromPrices b s q) (Num 0)"
proof -
  have 1: "\<not> js_lt (js_mul (js_mul (direction b s) (js_sub s b)) q) (Num 0)"
    by (rule js_mul_not_neg [OF direction_diff_not_neg js_le_not_lt [OF assms]])
  have 2: "\<not> js_lt (Num 100) (Num 0)" by simp
  show ?thesis
    unfolding pnlFromPrices_def XAUUSD_MULTIPLIER_def
    by (rule js_mul_not_neg [OF 1 2])
qed

lemma pnlFromPrices_Num:
  assumes "0 < q"
  shows "js_le (Num 0) (pnlFromPrices (Num b) (Num s) (Num q))"
  unfolding pnlFromPrices_def XAUUSD_MULTIPLIER_def
  by (intro js_mul_pos direction_diff_Num assms) simp

lemma recalc_diff_Num:
  "js_le (Num 0) (js_mul (js_sub (Num x) (Num e))
                         (if tradeDirection (Num e) (Num x) = Long then Num 1 else Num (- 1)))"
proof (cases "e \<le> x")
  case True
  then have d: "tradeDirection (Num e) (Num x) = Long" by (simp add: tradeDirection_def js_le_def)
  from js_sub_Num_ge [OF True] show ?thesis
  proof
    assume "js_sub (Num x) (Num e) = PInf"
    then show ?thesis by (simp add: d js_le_def)
  next
    assume "\<exists>r. js_sub (Num x) (Num e) = Num r \<and> 0 \<le> r"
    then obtain r where r: "js_sub (Num x) (Num e) = Num r" "0 \<le> r" by blast
    then have "0 \<le> r * 1" by simp
    from binary64_ge_0 [OF this] show ?thesis by (simp add: d r del: js_sub.simps)
  qed
next
  case False
  then have d: "tradeDirection (Num e) (Num x) \<noteq> Long" by (simp add: tradeDirection_def js_le_def)
  from False have "x \<le> e" by simp
  from js_sub_Num_le [OF this] show ?thesis
  proof
    assume "js_sub (Num x) (Num e) = NInf"
    then show ?thesis using d by (simp add: js_le_def)
  next
    assume "\<exists>r. js_sub (Num x) (Num e) = Num r \<and> r \<le> 0"
    then obtain r where r: "js_sub (Num x) (Num e) = Num r" "r \<le> 0" by blast
    then have "0 \<le> r * - 1" by simp
    from binary64_ge_0 [OF this] show ?thesis using d by (simp add: r del: js_sub.simps)
  qed
qed

lemma recalc_diff_not_neg:
  "\<not> js_lt (js_mul (js_sub x e) (if tradeDirection e x = Long then Num 1 else Num (- 1))) (Num 0)"
proof (cases e)
  case (Num a)
  show ?thesis
  proof (cases x)
    case (Num c)
    show ?thesis
      using recalc_diff_Num [of c a] unfolding \<open>e = Num a\<close> Num by (simp add: not_neg_iff)
  qed (use Num in \<open>auto simp: tradeDirection_def js_le_def\<close>)
qed (cases x; auto simp: tradeDirection_def js_le_def)+

subsection \<open>The P/L cell\<close>

lemma parsePnlField_NaN:
  "pnl (parsePnlField field) = NaN \<longleftrightarrow> parseFloat (cleanedPnl (trim field)) = NaN"
  by (simp add: parsePnlField_def cleanedPnl_def pnlShape_def Let_def)

lemma scale10_nonneg: "0 \<le> m \<Longrightarrow> 0 \<le> scale10 m e"
  by (simp add: scale10_def)

lemma parseUnsigned_sign: "\<not> js_lt (parseUnsigned s) (Num 0)"
proof -
  have "\<not> js_lt (binary64 (scale10 (rat_of_nat n / 10 ^ k) e)) (Num 0)" for n k e
    using binary64_ge_0 [of "scale10 (rat_of_nat n / 10 ^ k) e"]
    by (simp add: scale10_nonneg js_le_not_lt)
  then show ?thesis by (simp add: parseUnsigned_def Let_def)
qed

lemma endsWith_length: "endsWith s w \<Longrightarrow> length w \<le> length s"
proof -
  have "startsWith a b \<Longrightarrow> length b \<le> length a" for a b
    by (induction a b rule: startsWith.induct) auto
  from this [of "rev s" "rev w"] show "endsWith s w \<Longrightarrow> length w \<le> length s"
    by (simp add: endsWith_def)
qed

lemma endsWith_whole: "endsWith s w \<Longrightarrow> length w = length s \<Longrightarrow> s = w"
proof -
  have "startsWith a b \<Longrightarrow> length b = length a \<Longrightarrow> a = b" for a b
    by (induction a b rule: startsWith.induct) auto
  from this [of "rev s" "rev w"] show "endsWith s w \<Longrightarrow> length w = length s \<Longrightarrow> s = w"
    by (simp add: endsWith_def)
qed

lemma trimEnd_keeps_head:
  assumes "\<forall>w \<in> set whiteSpace. hd w \<noteq> c"
  shows "\<exists>v. trimEnd (c # u) = c # v"
proof (induction "length u" arbitrary: u rule: less_induct)
  case less
  show ?case
  proof (cases "find (endsWith (c # u)) whiteSpace")
    case None
    then show ?thesis by (simp add: trimEnd.simps [of "c # u"])
  next
    case (Some w)
    then have w: "w \<in> set whiteSpace" and e: "endsWith (c # u) w"
      by (auto simp: find_Some_iff)
    have wn: "w \<noteq> []" using w by (auto simp: whiteSpace_def)
    have "length w \<noteq> length (c # u)"
    proof
      assume "length w = length (c # u)"
      then have "c # u = w" using e by (intro endsWith_whole) auto
      then have "hd w = c" by auto
      then show False using assms w by blast
    qed
    then have l: "length w \<le> length u" using endsWith_length [OF e] by simp
    define u' where "u' = take (length u - length w) u"
    have t: "take (length (c # u) - length w) (c # u) = c # u'"
      using l by (simp add: u'_def Suc_diff_le)
    have "length u' < length u" using wn l by (simp add: u'_def) (cases w; simp)
    from less [OF this] obtain v where "trimEnd (c # u') = c # v" by blast
    then show ?thesis using Some t by (simp add: trimEnd.simps [of "c # u"])
  qed
qed

lemma trim_minus: "\<exists>v. trim (CHR ''-'' # u) = CHR ''-'' # v"
proof -
  have "trimStart (CHR ''-'' # u) = CHR ''-'' # u"
    by (simp add: trimStart_ascii isAscii_def asciiSpace_def)
  moreover have "\<forall>w \<in> set whiteSpace. hd w \<noteq> CHR ''-''" by (simp add: whiteSpace_def)
  ultimately show ?thesis using trimEnd_keeps_head [of "CHR ''-''" u] by (simp add: trim_def)
qed

lemma parseFloat_minus: "parseFloat (CHR ''-'' # v) = js_neg (parseUnsigned v)"
  by (simp add: parseFloat_def trimStart_ascii isAscii_def asciiSpace_def)

lemma js_neg_not_pos: "\<not> js_lt x (Num 0) \<Longrightarrow> \<not> js_lt (Num 0) (js_neg x)"
  by (cases x) auto

lemma leading_minus_not_positive:
  assumes "startsWith s ''-''"
  shows "\<not> js_lt (Num 0) (parseFloat (trim (stripCurrency True s)))"
proof -
  from assms obtain u where s: "s = CHR ''-'' # u" by (cases s) auto
  obtain v where "trim (stripCurrency True s) = CHR ''-'' # v"
    using trim_minus [of "stripCurrency True u"] by (auto simp: s)
  then show ?thesis
    by (simp add: parseFloat_minus js_neg_not_pos parseUnsigned_sign)
qed

lemma neg_abs_not_positive: "\<not> js_lt (Num 0) (js_neg (js_abs x))"
  by (cases x) auto

subsection \<open>A row, field by field\<close>

lemma parseRow_cases:
  "parseRow parseDate now cols i line =
     (if trim line = [] then Blank
      else if length (splitFields line) < neededFields cols then Skipped
      else (case rowTimestamps parseDate (now i)
                   (splitFields line ! buyTimeCol cols) (splitFields line ! sellTimeCol cols) of
              (Some b, Some s) \<Rightarrow>
                 Parsed \<lparr> id = i,
                          instrument = splitFields line ! symbolCol cols,
                          entryTime = b,
                          exitTime = s,
                          quantity = parseFloat (splitFields line ! qtyCol cols),
                          entryPrice = parseFloat (splitFields line ! buyPriceCol cols),
                          exitPrice = parseFloat (splitFields line ! sellPriceCol cols),
                          profitLoss = pnl (parsePnl (splitFields line ! pnlCol cols)
                               (parseFloat (splitFields line ! buyPriceCol cols))
                               (parseFloat (splitFields line ! sellPriceCol cols))
                               (parseFloat (splitFields line ! qtyCol cols))),
                          originalPnlString = origPnl (parsePnl (splitFields line ! pnlCol cols)
                               (parseFloat (splitFields line ! buyPriceCol cols))
                               (parseFloat (splitFields line ! sellPriceCol cols))
                               (parseFloat (splitFields line ! qtyCol cols))),
                          shouldDisplayAsNegative = dispNeg (parsePnl (splitFields line ! pnlCol
                              cols)
                               (parseFloat (splitFields line ! buyPriceCol cols))
                               (parseFloat (splitFields line ! sellPriceCol cols))
                               (parseFloat (splitFields line ! qtyCol cols))),
                          tradeType = tradeDirection (parseFloat (splitFields line ! buyPriceCol
                              cols))
                               (parseFloat (splitFields line ! sellPriceCol cols)),
                          isWinning = (\<not> dispNeg (parsePnl (splitFields line ! pnlCol cols)
                               (parseFloat (splitFields line ! buyPriceCol cols))
                               (parseFloat (splitFields line ! sellPriceCol cols))
                               (parseFloat (splitFields line ! qtyCol cols)))),
                          duration = rowDuration cols (splitFields line) (elapsed b s),
                          durationMs = elapsed b s \<rparr>
            | _ \<Rightarrow> Failed))"
  unfolding parseRow_def Let_def by (rule refl)

lemma parseRow_Parsed:
  assumes "parseRow parseDate now cols i line = Parsed t"
  shows "trade.id t = i"
    and "instrument t = splitFields line ! symbolCol cols"
    and "entryPrice t = parseFloat (splitFields line ! buyPriceCol cols)"
    and "exitPrice t = parseFloat (splitFields line ! sellPriceCol cols)"
    and "quantity t = parseFloat (splitFields line ! qtyCol cols)"
    and "profitLoss t =
           pnl (parsePnl (splitFields line ! pnlCol cols) (entryPrice t) (exitPrice t) (quantity
               t))"
    and "originalPnlString t = origPnl (parsePnlField (splitFields line ! pnlCol cols))"
    and "shouldDisplayAsNegative t = dispNeg (parsePnlField (splitFields line ! pnlCol cols))"
    and "tradeType t = tradeDirection (entryPrice t) (exitPrice t)"
    and "rowTimestamps parseDate (now i) (splitFields line ! buyTimeCol cols)
           (splitFields line ! sellTimeCol cols) = (Some (entryTime t), Some (exitTime t))"
    and "trim line \<noteq> []"
    and "neededFields cols \<le> length (splitFields line)"
  using assms unfolding parseRow_cases
  by (auto simp: parsePnl_def Let_def split: if_splits option.splits prod.splits)

subsection \<open>The example row\<close>

lemma fallbackRow_fields:
  "splitFields fallbackRow = [''XAUUSD'', ''1900'', ''1905'', ''1'', ''100'', ''200'', ''n/a'']"
  by (simp add: fallbackRow_def str_defs)

lemma trim_fallbackRow: "trim fallbackRow \<noteq> []"
  by (simp add: fallbackRow_def str_defs)

lemma parseFloat_1900: "parseFloat ''1900'' = Num 1900"
  by (simp add: str_defs num_defs)

lemma parseFloat_1905: "parseFloat ''1905'' = Num 1905"
  by (simp add: str_defs num_defs)

lemma parseFloat_1: "parseFloat ''1'' = Num 1"
  by (simp add: str_defs num_defs)

lemma parsePnl_na:
  "parsePnl ''n/a'' (Num 1900) (Num 1905) (Num 1) = \<lparr>pnl = Num 500, origPnl = ''n/a'', dispNeg =
      False\<rparr>"
  by (simp add: str_defs num_defs pnl_defs)

lemma digitsDate_100: "digitsDate ''100'' = Some 100"
  by (simp add: digitsDate_def num_defs)

lemma digitsDate_200: "digitsDate ''200'' = Some 200"
  by (simp add: digitsDate_def num_defs)

lemma parseRow_fallbackRow:
  "parseRow digitsDate fixedClock exampleCols 1 fallbackRow = Parsed fallbackTrade"
  unfolding parseRow_cases fallbackRow_fields
  by (simp add: trim_fallbackRow exampleCols_def neededFields_def parseFloat_1900 parseFloat_1905
        parseFloat_1 parsePnl_na digitsDate_100 digitsDate_200 rowTimestamps_def
        tradeDirection_def js_le_def rowDuration_def elapsed_def floor_divBy_small divBy_hour
            divBy_60 fallbackTrade_def)

lemma cleaned_na: "parseFloat (cleanedPnl (trim ''n/a'')) = NaN"
  by (simp add: str_defs num_defs pnl_defs)

subsection \<open>The fallback to the prices\<close>

text \<open>C2. A row whose P/L cell, once cleaned, is not a number gets its \<open>profitLoss\<close>
  from the prices: direction times (exit price minus entry price) times quantity times
  100, where the direction is \<open>-1\<close> when the entry price is greater than the exit price
  and \<open>1\<close> otherwise.\<close>

theorem fallback_pnl_from_prices:
  assumes "parseRow parseDate now cols i line = Parsed t"
    and "parseFloat (cleanedPnl (trim (splitFields line ! pnlCol cols))) = NaN"
  shows "profitLoss t =
           js_mul (js_mul (js_mul (if js_gt (entryPrice t) (exitPrice t) then Num (- 1) else Num 1)
                                  (js_sub (exitPrice t) (entryPrice t)))
                          (quantity t))
                  (Num 100)"
proof -
  have "pnl (parsePnlField (splitFields line ! pnlCol cols)) = NaN"
    using assms(2) by (simp add: parsePnlField_NaN)
  then have "profitLoss t = pnlFromPrices (entryPrice t) (exitPrice t) (quantity t)"
    using parseRow_Parsed(6) [OF assms(1)] by (simp add: parsePnl_def isNaN_def)
  then show ?thesis
    by (simp add: pnlFromPrices_def direction_def XAUUSD_MULTIPLIER_def)
qed

text \<open>The row with entry 1900, exit 1905, quantity 1 and the P/L cell \<^verbatim>\<open>n/a\<close>
  yields 500.\<close>

theorem fallback_pnl_from_prices_witness:
  "parseRow digitsDate fixedClock exampleCols 1 ''XAUUSD,1900,1905,1,100,200,n/a'' = Parsed
      fallbackTrade
   \<and> parseFloat (cleanedPnl (trim ''n/a'')) = NaN
   \<and> entryPrice fallbackTrade = Num 1900 \<and> exitPrice fallbackTrade = Num 1905
   \<and> quantity fallbackTrade = Num 1
   \<and> profitLoss fallbackTrade = Num 500"
proof -
  have c: "parseFloat (cleanedPnl (trim (splitFields fallbackRow ! pnlCol exampleCols))) = NaN"
    by (simp add: fallbackRow_fields exampleCols_def cleaned_na)
  have "profitLoss fallbackTrade = Num 500"
    using fallback_pnl_from_prices [OF parseRow_fallbackRow c]
    by (simp add: fallbackTrade_def)
  then show ?thesis
    using parseRow_fallbackRow cleaned_na by (simp add: fallbackRow_def fallbackTrade_def)
qed

subsection \<open>The fallback on prices that are no binary fractions\<close>

text \<open>The arithmetic of the fallback is that of binary64. With the price cells
  \<^verbatim>\<open>1900.1\<close> and \<^verbatim>\<open>1905.3\<close> and the quantity 1, \<^verbatim>\<open>parseFloat\<close> gives the binary64
  values next to the two decimals, their difference and its products are exact, and the
  \<open>profitLoss\<close> is \<open>571746046443525 / 2^40\<close>, a little above 520.\<close>

lemma binary64_1900_1: "binary64 (19001 / 10) = Num (8356728175748710 / 2 ^ 42)"
  using binary64_eqI [of 10 "19001 / 10" 8356728175748710]
  by (simp add: power_int_def power_one_over)

lemma binary64_1905_3: "binary64 (19053 / 10) = Num (8379598017606451 / 2 ^ 42)"
  using binary64_eqI [of 10 "19053 / 10" 8379598017606451]
  by (simp add: power_int_def power_one_over)

lemma binary64_times_100:
  "binary64 (22869841857741 / 2 ^ 42 * 100) = Num (571746046443525 / 2 ^ 40)"
  using binary64_eqI [of 9 "571746046443525 / 2 ^ 40" 4573968371548200]
  by (simp add: power_int_def power_one_over)

lemma parseFloat_1900_1: "parseFloat ''1900.1'' = Num (8356728175748710 / 2 ^ 42)"
  using binary64_1900_1 by (simp add: str_defs num_defs)

lemma parseFloat_1905_3: "parseFloat ''1905.3'' = Num (8379598017606451 / 2 ^ 42)"
  using binary64_1905_3 by (simp add: str_defs num_defs)

lemma binary64_diff_exact:
  "binary64 (22869841857741 / 2 ^ 42) = Num (22869841857741 / 2 ^ 42)"
  using binary64_eqI [of 2 "22869841857741 / 2 ^ 42" 5854679515581696]
  by (simp add: power_int_def power_one_over)

lemma pnlFromPrices_decimal:
  "pnlFromPrices (Num (8356728175748710 / 2 ^ 42)) (Num (8379598017606451 / 2 ^ 42)) (Num 1)
     = Num (571746046443525 / 2 ^ 40)"
proof -
  have d: "direction (Num (8356728175748710 / 2 ^ 42)) (Num (8379598017606451 / 2 ^ 42)) = Num 1"
    by (simp add: direction_def js_gt_def)
  have s: "js_sub (Num (8379598017606451 / 2 ^ 42)) (Num (8356728175748710 / 2 ^ 42))
             = Num (22869841857741 / 2 ^ 42)"
    using binary64_diff_exact by simp
  have m: "js_mul (Num 1) (Num (22869841857741 / 2 ^ 42)) = Num (22869841857741 / 2 ^ 42)"
    using binary64_diff_exact by simp
  have q: "js_mul (Num (22869841857741 / 2 ^ 42)) (Num 1) = Num (22869841857741 / 2 ^ 42)"
    using binary64_diff_exact by simp
  have h: "js_mul (Num (22869841857741 / 2 ^ 42)) (Num 100) = Num (571746046443525 / 2 ^ 40)"
    using binary64_times_100 by simp
  show ?thesis
    unfolding pnlFromPrices_def XAUUSD_MULTIPLIER_def d s m q h ..
qed

lemma decimalRow_fields:
  "splitFields decimalRow = [''XAUUSD'', ''1900.1'', ''1905.3'', ''1'', ''100'', ''200'', ''n/a'']"
  by (simp add: decimalRow_def str_defs)

lemma trim_decimalRow: "trim decimalRow \<noteq> []"
  by (simp add: decimalRow_def str_defs)

lemma parsePnlField_na: "parsePnlField ''n/a'' = \<lparr>pnl = NaN, origPnl = ''n/a'', dispNeg = False\<rparr>"
  by (simp add: str_defs num_defs pnl_defs)

lemma parsePnl_decimal:
  "parsePnl ''n/a'' (Num (8356728175748710 / 2 ^ 42)) (Num (8379598017606451 / 2 ^ 42)) (Num 1)
     = \<lparr>pnl = Num (571746046443525 / 2 ^ 40), origPnl = ''n/a'', dispNeg = False\<rparr>"
  unfolding parsePnl_def parsePnlField_na Let_def pnlFromPrices_decimal
  by (simp add: isNaN_def)

lemma parseRow_decimalRow:
  "parseRow digitsDate fixedClock exampleCols 1 decimalRow = Parsed decimalTrade"
  unfolding parseRow_cases decimalRow_fields
  using parsePnl_decimal
  by (simp add: trim_decimalRow exampleCols_def neededFields_def parseFloat_1900_1
        parseFloat_1905_3 parseFloat_1 digitsDate_100 digitsDate_200
        rowTimestamps_def tradeDirection_def js_le_def rowDuration_def elapsed_def
        floor_divBy_small decimalTrade_def)

lemma fallback_on_decimal_prices:
  "parseRow digitsDate fixedClock exampleCols 1 ''XAUUSD,1900.1,1905.3,1,100,200,n/a''
     = Parsed decimalTrade
   \<and> profitLoss decimalTrade = Num (571746046443525 / 2 ^ 40)
   \<and> js_lt (Num 520) (profitLoss decimalTrade)
   \<and> js_lt (profitLoss decimalTrade) (Num (520 + 1 / 10 ^ 11))"
  using parseRow_decimalRow by (simp add: decimalRow_def) (simp add: decimalTrade_def)

subsection \<open>Two more example rows\<close>

lemma nanPriceRow_fields:
  "splitFields nanPriceRow = [''XAUUSD'', ''abc'', ''1905'', ''1'', ''100'', ''200'', ''zz'']"
  by (simp add: nanPriceRow_def str_defs)

lemma trim_nanPriceRow: "trim nanPriceRow \<noteq> []"
  by (simp add: nanPriceRow_def str_defs)

lemma parseFloat_abc: "parseFloat ''abc'' = NaN"
  by (simp add: str_defs num_defs)

lemma parsePnl_zz:
  "parsePnl ''zz'' NaN (Num 1905) (Num 1) = \<lparr>pnl = NaN, origPnl = ''zz'', dispNeg = False\<rparr>"
  by (simp add: str_defs num_defs pnl_defs)

lemma parseRow_nanPriceRow:
  "parseRow digitsDate fixedClock exampleCols 1 nanPriceRow = Parsed nanPriceTrade"
  unfolding parseRow_cases nanPriceRow_fields
  by (simp add: trim_nanPriceRow exampleCols_def neededFields_def parseFloat_abc parseFloat_1905
        parseFloat_1 parsePnl_zz digitsDate_100 digitsDate_200 rowTimestamps_def
        tradeDirection_def js_le_def rowDuration_def elapsed_def floor_divBy_small divBy_hour
            divBy_60 nanPriceTrade_def)

lemma shortFallbackRow_fields:
  "splitFields shortFallbackRow = [''XAUUSD'', ''1910'', ''1905'', ''2'', ''100'', ''200'',
      ''n/a'']"
  by (simp add: shortFallbackRow_def str_defs)

lemma trim_shortFallbackRow: "trim shortFallbackRow \<noteq> []"
  by (simp add: shortFallbackRow_def str_defs)

lemma parseFloat_1910: "parseFloat ''1910'' = Num 1910"
  by (simp add: str_defs num_defs)

lemma parseFloat_2: "parseFloat ''2'' = Num 2"
  by (simp add: str_defs num_defs)

lemma parsePnl_na_short:
  "parsePnl ''n/a'' (Num 1910) (Num 1905) (Num 2)
     = \<lparr>pnl = Num 1000, origPnl = ''n/a'', dispNeg = False\<rparr>"
  by (simp add: str_defs num_defs pnl_defs)

lemma parseRow_shortFallbackRow:
  "parseRow digitsDate fixedClock exampleCols 1 shortFallbackRow = Parsed shortFallbackTrade"
  unfolding parseRow_cases shortFallbackRow_fields
  by (simp add: trim_shortFallbackRow exampleCols_def neededFields_def parseFloat_1910
        parseFloat_1905 parseFloat_2 parsePnl_na_short digitsDate_100 digitsDate_200
        rowTimestamps_def tradeDirection_def js_le_def rowDuration_def elapsed_def
        floor_divBy_small shortFallbackTrade_def)

lemma cleaned_zz: "parseFloat (cleanedPnl (trim ''zz'')) = NaN"
  by (simp add: str_defs num_defs pnl_defs)

subsection \<open>A recomputed P/L is never a loss\<close>

lemma recalcTrade_profitLoss:
  "includesStr (toUpperCase (instrument t)) ''XAUUSD'' \<Longrightarrow>
   profitLoss (recalcTrade toUpperCase m t) =
     js_mul (js_mul (js_mul (js_sub (exitPrice t) (entryPrice t))
                            (if tradeType t = Long then Num 1 else Num (- 1))) m) (quantity t)"
  by (simp add: recalcTrade_def Let_def)

lemma instrument_fallbackTrade:
  "includesStr (asciiUpperCase (instrument fallbackTrade)) ''XAUUSD''"
  by (simp add: fallbackTrade_def str_defs)

lemma instrument_shortFallbackTrade:
  "includesStr (asciiUpperCase (instrument shortFallbackTrade)) ''XAUUSD''"
  by (simp add: shortFallbackTrade_def str_defs)

lemma instrument_nanPriceTrade:
  "includesStr (asciiUpperCase (instrument nanPriceTrade)) ''XAUUSD''"
  by (simp add: nanPriceTrade_def str_defs)

text \<open>C3, as stated, fails on a row whose price cell is no number. The quantity of the
  row is 1 and its P/L cell is no number, so \<open>profitLoss\<close> is computed from the prices; the
  entry price is NaN and so is the result, which is not at least zero. The debug
  recalculation of that trade with the multiplier 10 gives NaN as well.\<close>

theorem recomputed_pnl_is_nan_for_a_nan_price:
  "parseRow digitsDate fixedClock exampleCols 1 ''XAUUSD,abc,1905,1,100,200,zz''
     = Parsed nanPriceTrade
   \<and> js_le (Num 0) (quantity nanPriceTrade)
   \<and> parseFloat (cleanedPnl (trim ''zz'')) = NaN
   \<and> profitLoss nanPriceTrade = NaN
   \<and> \<not> js_le (Num 0) (profitLoss nanPriceTrade)
   \<and> js_le (Num 0) (Num 10)
   \<and> includesStr (asciiUpperCase (instrument nanPriceTrade)) ''XAUUSD''
   \<and> \<not> js_le (Num 0) (profitLoss (recalcTrade asciiUpperCase (Num 10) nanPriceTrade))"
  using parseRow_nanPriceRow cleaned_zz instrument_nanPriceTrade
  by (simp add: nanPriceRow_def recalcTrade_profitLoss)
     (simp add: nanPriceTrade_def js_le_def)

text \<open>C3, amended. Whenever \<open>profitLoss\<close> is computed from the prices (by the fallback for a
  P/L cell that is no number, or by the debug recalculation with a multiplier that is not
  negative) and the quantity of the row is not negative, the result is never below zero: it
  is at least zero or it is NaN, because the direction factor cancels the sign of the price
  difference. So a price-recomputed P/L never represents a loss. When the two prices are
  finite numbers and the quantity (and the multiplier of the recalculation) is a finite
  number above zero, the result is at least zero, possibly \<open>+Infinity\<close>; otherwise it may
  be NaN.\<close>

theorem recomputed_pnl_never_negative:
  assumes "parseRow parseDate now cols i line = Parsed t"
    and "js_le (Num 0) (quantity t)"
  shows "(parseFloat (cleanedPnl (trim (splitFields line ! pnlCol cols))) = NaN
            \<longrightarrow> \<not> js_lt (profitLoss t) (Num 0)
                \<and> (profitLoss t = NaN \<or> js_le (Num 0) (profitLoss t)))
       \<and> (\<forall>m. js_le (Num 0) m \<and> includesStr (toUpperCase (instrument t)) ''XAUUSD''
            \<longrightarrow> \<not> js_lt (profitLoss (recalcTrade toUpperCase m t)) (Num 0)
                \<and> (profitLoss (recalcTrade toUpperCase m t) = NaN
                    \<or> js_le (Num 0) (profitLoss (recalcTrade toUpperCase m t))))
       \<and> (\<forall>a b q. entryPrice t = Num a \<and> exitPrice t = Num b \<and> quantity t = Num q \<and> 0 < q
            \<longrightarrow> (parseFloat (cleanedPnl (trim (splitFields line ! pnlCol cols))) = NaN
                   \<longrightarrow> js_le (Num 0) (profitLoss t))
              \<and> (\<forall>m. 0 < m \<and> includesStr (toUpperCase (instrument t)) ''XAUUSD''
                   \<longrightarrow> js_le (Num 0) (profitLoss (recalcTrade toUpperCase (Num m) t))))"
proof (intro conjI allI impI)
  assume "parseFloat (cleanedPnl (trim (splitFields line ! pnlCol cols))) = NaN"
  then have "pnl (parsePnlField (splitFields line ! pnlCol cols)) = NaN"
    by (simp add: parsePnlField_NaN)
  then have "profitLoss t = pnlFromPrices (entryPrice t) (exitPrice t) (quantity t)"
    using parseRow_Parsed(6) [OF assms(1)] by (simp add: parsePnl_def isNaN_def)
  then show n: "\<not> js_lt (profitLoss t) (Num 0)"
    using pnlFromPrices_not_neg [OF assms(2)] by simp
  then show "profitLoss t = NaN \<or> js_le (Num 0) (profitLoss t)"
    by (simp only: not_neg_iff)
next
  fix m
  assume h: "js_le (Num 0) m \<and> includesStr (toUpperCase (instrument t)) ''XAUUSD''"
  have d: "\<not> js_lt (js_mul (js_sub (exitPrice t) (entryPrice t))
                (if tradeType t = Long then Num 1 else Num (- 1))) (Num 0)"
    using recalc_diff_not_neg [of "exitPrice t" "entryPrice t"] parseRow_Parsed(9) [OF assms(1)]
    by simp
  have "\<not> js_lt (js_mul (js_mul (js_mul (js_sub (exitPrice t) (entryPrice t))
                (if tradeType t = Long then Num 1 else Num (- 1))) m) (quantity t)) (Num 0)"
    by (intro js_mul_not_neg d js_le_not_lt) (use h assms(2) in auto)
  then show n: "\<not> js_lt (profitLoss (recalcTrade toUpperCase m t)) (Num 0)"
    using h by (simp add: recalcTrade_profitLoss)
  then show "profitLoss (recalcTrade toUpperCase m t) = NaN
             \<or> js_le (Num 0) (profitLoss (recalcTrade toUpperCase m t))"
    by (simp only: not_neg_iff)
next
  fix a b q
  assume n: "entryPrice t = Num a \<and> exitPrice t = Num b \<and> quantity t = Num q \<and> 0 < q"
    and c: "parseFloat (cleanedPnl (trim (splitFields line ! pnlCol cols))) = NaN"
  have "pnl (parsePnlField (splitFields line ! pnlCol cols)) = NaN"
    using c by (simp add: parsePnlField_NaN)
  then have "profitLoss t = pnlFromPrices (Num a) (Num b) (Num q)"
    using parseRow_Parsed(6) [OF assms(1)] n by (simp add: parsePnl_def isNaN_def)
  then show "js_le (Num 0) (profitLoss t)"
    using pnlFromPrices_Num [of q a b] n by simp
next
  fix a b q m :: rat
  assume n: "entryPrice t = Num a \<and> exitPrice t = Num b \<and> quantity t = Num q \<and> 0 < q"
    and h: "0 < m \<and> includesStr (toUpperCase (instrument t)) ''XAUUSD''"
  have tt: "tradeType t = tradeDirection (Num a) (Num b)"
    using parseRow_Parsed(9) [OF assms(1)] n by simp
  have "js_le (Num 0) (js_mul (js_mul (js_mul (js_sub (Num b) (Num a))
           (if tradeDirection (Num a) (Num b) = Long then Num 1 else Num (- 1))) (Num m)) (Num q))"
    by (intro js_mul_pos recalc_diff_Num) (use n h in auto)
  then show "js_le (Num 0) (profitLoss (recalcTrade toUpperCase (Num m) t))"
    using h n tt by (simp only: recalcTrade_profitLoss)
qed

text \<open>A row of the short shape: entry 1910, exit 1905, quantity 2 and the P/L cell
  \<^verbatim>\<open>n/a\<close>. The difference is \<open>-5\<close>, the direction \<open>-1\<close>, the \<open>profitLoss\<close> 1000; the
  recalculation with the multiplier 10 gives 100.\<close>

theorem recomputed_pnl_never_negative_witness:
  "parseRow digitsDate fixedClock exampleCols 1 ''XAUUSD,1910,1905,2,100,200,n/a''
     = Parsed shortFallbackTrade
   \<and> js_le (Num 0) (quantity shortFallbackTrade)
   \<and> js_gt (entryPrice shortFallbackTrade) (exitPrice shortFallbackTrade)
   \<and> profitLoss shortFallbackTrade = Num 1000
   \<and> js_le (Num 0) (profitLoss shortFallbackTrade)
   \<and> profitLoss (recalcTrade asciiUpperCase (Num 10) shortFallbackTrade) = Num 100
   \<and> js_le (Num 0) (profitLoss (recalcTrade asciiUpperCase (Num 10) shortFallbackTrade))"
proof -
  have q: "js_le (Num 0) (quantity shortFallbackTrade)"
    by (simp add: shortFallbackTrade_def js_le_def)
  have c: "parseFloat (cleanedPnl (trim (splitFields shortFallbackRow ! pnlCol exampleCols))) = NaN"
    by (simp add: shortFallbackRow_fields exampleCols_def cleaned_na)
  have e: "entryPrice shortFallbackTrade = Num 1910 \<and> exitPrice shortFallbackTrade = Num 1905
           \<and> quantity shortFallbackTrade = Num 2 \<and> (0::rat) < 2"
    by (simp add: shortFallbackTrade_def)
  have m: "(0::rat) < 10 \<and> includesStr (asciiUpperCase (instrument shortFallbackTrade)) ''XAUUSD''"
    using instrument_shortFallbackTrade by simp
  note T = recomputed_pnl_never_negative
             [of digitsDate fixedClock exampleCols 1 shortFallbackRow shortFallbackTrade
                 asciiUpperCase,
              OF parseRow_shortFallbackRow q]
  have 1: "js_le (Num 0) (profitLoss shortFallbackTrade)"
    using T e c by blast
  have 2: "js_le (Num 0) (profitLoss (recalcTrade asciiUpperCase (Num 10) shortFallbackTrade))"
    using T e m by blast
  have 3: "profitLoss (recalcTrade asciiUpperCase (Num 10) shortFallbackTrade) = Num 100"
    using instrument_shortFallbackTrade
    by (simp add: recalcTrade_profitLoss) (simp add: shortFallbackTrade_def)
  have 4: "js_gt (entryPrice shortFallbackTrade) (exitPrice shortFallbackTrade)"
    by (simp add: shortFallbackTrade_def js_gt_def)
  show ?thesis
    using parseRow_shortFallbackRow q 1 2 3 4
    by (simp add: shortFallbackRow_def) (simp add: shortFallbackTrade_def)
qed

subsection \<open>Trade type and fallback direction\<close>

text \<open>C6, as stated, fails on a row whose price cell is no number: the entry price is
  NaN, both comparisons are false, so the trade type is \<open>Short\<close> while the direction of
  the fallback is \<open>+1\<close>.\<close>

theorem direction_mismatch_on_nan_price:
  "parseRow digitsDate fixedClock exampleCols 1 ''XAUUSD,abc,1905,1,100,200,zz''
     = Parsed nanPriceTrade
   \<and> tradeType nanPriceTrade = Short
   \<and> direction (entryPrice nanPriceTrade) (exitPrice nanPriceTrade) = Num 1
   \<and> \<not> js_gt (entryPrice nanPriceTrade) (exitPrice nanPriceTrade)"
  using parseRow_nanPriceRow
  by (simp add: nanPriceRow_def nanPriceTrade_def direction_def js_gt_def)

text \<open>C6, amended. For every row whose entry and exit prices are both numbers (not NaN),
  the trade type is \<open>Long\<close> exactly when the direction of the P/L fallback is \<open>+1\<close>,
  that is when the entry price is at most the exit price, and \<open>Short\<close> exactly when
  that direction is \<open>-1\<close>, that is when the entry price is greater.\<close>

theorem direction_consistent_for_numeric_prices:
  assumes "parseRow parseDate now cols i line = Parsed t"
    and "entryPrice t \<noteq> NaN" and "exitPrice t \<noteq> NaN"
  shows "(tradeType t = Long \<longleftrightarrow> direction (entryPrice t) (exitPrice t) = Num 1)
       \<and> (tradeType t = Long \<longleftrightarrow> js_le (entryPrice t) (exitPrice t))
       \<and> (tradeType t = Short \<longleftrightarrow> direction (entryPrice t) (exitPrice t) = Num (- 1))
       \<and> (tradeType t = Short \<longleftrightarrow> js_gt (entryPrice t) (exitPrice t))"
proof -
  have tt: "tradeType t = tradeDirection (entryPrice t) (exitPrice t)"
    by (rule parseRow_Parsed(9) [OF assms(1)])
  show ?thesis
    unfolding tt using assms(2,3)
    by (cases "entryPrice t"; cases "exitPrice t")
       (auto simp: tradeDirection_def direction_def js_le_def js_gt_def)
qed

theorem direction_consistent_for_numeric_prices_witness:
  "entryPrice fallbackTrade \<noteq> NaN \<and> exitPrice fallbackTrade \<noteq> NaN
   \<and> tradeType fallbackTrade = Long
   \<and> direction (entryPrice fallbackTrade) (exitPrice fallbackTrade) = Num 1
   \<and> js_le (entryPrice fallbackTrade) (exitPrice fallbackTrade)"
proof -
  have a: "entryPrice fallbackTrade \<noteq> NaN" and b: "exitPrice fallbackTrade \<noteq> NaN"
    and c: "tradeType fallbackTrade = Long"
    by (simp_all add: fallbackTrade_def)
  show ?thesis
    using direction_consistent_for_numeric_prices [OF parseRow_fallbackRow a b] a b c
    by simp
qed

subsection \<open>The four shapes of the P/L cell\<close>

lemma startsWith_iff: "startsWith s p \<longleftrightarrow> (\<exists>r. s = p @ r)"
  by (induction s p rule: startsWith.induct) auto

lemma endsWith_iff: "endsWith s p \<longleftrightarrow> (\<exists>r. s = r @ p)"
proof -
  have "endsWith s p \<longleftrightarrow> (\<exists>r. rev s = rev p @ r)"
    by (simp add: endsWith_def startsWith_iff)
  also have "\<dots> \<longleftrightarrow> (\<exists>r. s = r @ p)"
  proof
    assume "\<exists>r. rev s = rev p @ r"
    then obtain r where "rev s = rev p @ r" ..
    then have "s = rev r @ p" by (metis rev_append rev_rev_ident)
    then show "\<exists>r. s = r @ p" ..
  next
    assume "\<exists>r. s = r @ p"
    then obtain r where "s = r @ p" ..
    then have "rev s = rev p @ rev r" by simp
    then show "\<exists>r. rev s = rev p @ r" ..
  qed
  finally show ?thesis .
qed

lemma substring_le: "a \<le> b \<Longrightarrow> substring s a b = take (b - a) (drop a s)"
  by (simp add: substring_def min_def max_def)

lemma dollarParens_decomp:
  assumes "pnlShape s = DollarParens"
  shows "s = ''$('' @ cleanedPnl s @ '')''"
proof -
  from assms have a: "startsWith s ''$(''" and b: "endsWith s '')''"
    by (auto simp: pnlShape_def split: if_splits)
  from a obtain r where r: "s = ''$('' @ r" by (auto simp: startsWith_iff)
  from b obtain q where q: "s = q @ '')''" by (auto simp: endsWith_iff)
  have "r \<noteq> []" using r q by auto
  then have "last r = CHR '')''" using r q by (metis last_appendR last_snoc)
  then have r': "r = butlast r @ '')''" using \<open>r \<noteq> []\<close> by (metis append_butlast_last_id)
  have len: "2 \<le> length s - 1" using r \<open>r \<noteq> []\<close> by (cases r) auto
  have "substring s 2 (length s - 1) = take (length s - 1 - 2) (drop 2 s)"
    by (rule substring_le [OF len])
  also have "\<dots> = butlast r" by (simp add: r butlast_conv_take)
  finally have "cleanedPnl s = butlast r"
    using assms by (simp add: cleanedPnl_def)
  then show ?thesis using r r' by simp
qed

lemma parens_decomp:
  assumes "pnlShape s = Parens"
  shows "s = ''('' @ substring s 1 (length s - 1) @ '')''"
proof -
  from assms have a: "startsWith s ''(''" and b: "endsWith s '')''"
    by (auto simp: pnlShape_def split: if_splits)
  from a obtain r where r: "s = ''('' @ r" by (auto simp: startsWith_iff)
  from b obtain q where q: "s = q @ '')''" by (auto simp: endsWith_iff)
  have "r \<noteq> []" using r q by auto
  then have "last r = CHR '')''" using r q by (metis last_appendR last_snoc)
  then have r': "r = butlast r @ '')''" using \<open>r \<noteq> []\<close> by (metis append_butlast_last_id)
  have len: "1 \<le> length s - 1" using r \<open>r \<noteq> []\<close> by (cases r) auto
  have "substring s 1 (length s - 1) = take (length s - 1 - 1) (drop 1 s)"
    by (rule substring_le [OF len])
  also have "\<dots> = butlast r" by (simp add: r butlast_conv_take)
  finally have "substring s 1 (length s - 1) = butlast r" .
  then show ?thesis using r r' by simp
qed

lemma parsePnlField_shape:
  "parsePnlField field =
     (case pnlShape (trim field) of
        DollarParens \<Rightarrow>
          \<lparr> pnl = js_neg (parseFloat (cleanedPnl (trim field))),
            origPnl = ''-$'' @ cleanedPnl (trim field), dispNeg = True \<rparr>
      | Parens \<Rightarrow>
          \<lparr> pnl = js_neg (js_abs (parseFloat (cleanedPnl (trim field)))),
            origPnl = ''-$'' @ stripCurrency False
                                (substring (trim field) 1 (length (trim field) - 1)),
            dispNeg = True \<rparr>
      | LeadingMinus \<Rightarrow>
          \<lparr> pnl = parseFloat (cleanedPnl (trim field)), origPnl = trim field, dispNeg = True \<rparr>
      | Plain \<Rightarrow>
          \<lparr> pnl = parseFloat (cleanedPnl (trim field)), origPnl = trim field, dispNeg = False \<rparr>)"
  by (simp add: parsePnlField_def pnlShape_def cleanedPnl_def Let_def)

lemma parsePnl_kept:
  "pnl (parsePnlField field) \<noteq> NaN \<Longrightarrow> pnl (parsePnl field b s q) = pnl (parsePnlField field)"
  by (simp add: parsePnl_def isNaN_def)

lemma dollarParensRow_fields:
  "splitFields dollarParensRow = [''XAUUSD'', ''1900'', ''1905'', ''1'', ''100'', ''200'',
      ''$(225.00)'']"
  by (simp add: dollarParensRow_def str_defs)

lemma trim_dollarParensRow: "trim dollarParensRow \<noteq> []"
  by (simp add: dollarParensRow_def str_defs)

lemma parsePnl_dollarParens:
  "parsePnl ''$(225.00)'' (Num 1900) (Num 1905) (Num 1)
     = \<lparr>pnl = Num (- 225), origPnl = ''-$225.00'', dispNeg = True\<rparr>"
  by (simp add: str_defs num_defs pnl_defs)

lemma parseRow_dollarParensRow:
  "parseRow digitsDate fixedClock exampleCols 1 dollarParensRow = Parsed dollarParensTrade"
  unfolding parseRow_cases dollarParensRow_fields
  by (simp add: trim_dollarParensRow exampleCols_def neededFields_def parseFloat_1900
        parseFloat_1905 parseFloat_1 parsePnl_dollarParens digitsDate_100 digitsDate_200
        rowTimestamps_def tradeDirection_def js_le_def rowDuration_def elapsed_def
            floor_divBy_small divBy_hour divBy_60 dollarParensTrade_def)

lemma dollarMinusRow_fields:
  "splitFields dollarMinusRow = [''xauusd'', ''1910'', ''1905'', ''2'', ''100'', ''300'',
      ''$-5.00'']"
  by (simp add: dollarMinusRow_def str_defs)

lemma trim_dollarMinusRow: "trim dollarMinusRow \<noteq> []"
  by (simp add: dollarMinusRow_def str_defs)

lemma digitsDate_300: "digitsDate ''300'' = Some 300"
  by (simp add: digitsDate_def num_defs)

lemma parsePnl_dollarMinus:
  "parsePnl ''$-5.00'' (Num 1910) (Num 1905) (Num 2)
     = \<lparr>pnl = Num (- 5), origPnl = ''$-5.00'', dispNeg = False\<rparr>"
  by (simp add: str_defs num_defs pnl_defs)

lemma parseRow_dollarMinusRow:
  "parseRow digitsDate fixedClock exampleCols 1 dollarMinusRow = Parsed dollarMinusTrade"
  unfolding parseRow_cases dollarMinusRow_fields
  by (simp add: trim_dollarMinusRow exampleCols_def neededFields_def parseFloat_1910
        parseFloat_1905 parseFloat_2 parsePnl_dollarMinus digitsDate_100 digitsDate_300
        rowTimestamps_def tradeDirection_def js_le_def rowDuration_def elapsed_def
            floor_divBy_small divBy_hour divBy_60 dollarMinusTrade_def)

lemma shape_dollarMinus: "pnlShape (trim ''$-5.00'') = Plain"
  by (simp add: str_defs pnl_defs)

lemma shape_dollarParens: "pnlShape (trim ''$(225.00)'') = DollarParens"
  by (simp add: str_defs pnl_defs)

lemma cleaned_dollarParens: "cleanedPnl (trim ''$(225.00)'') = ''225.00''"
  by (simp add: str_defs pnl_defs)

lemma parseFloat_225: "parseFloat ''225.00'' = Num 225"
  by (simp add: str_defs num_defs)

text \<open>C1. The last branch of the P/L block, which the source comments as the one of a
  normal positive number, takes every cell that has none of the three negative shapes and
  parses it as it is written. The cell \<^verbatim>\<open>$-5.00\<close> has none of them (its minus sign
  follows the currency sign): the row gets \<open>profitLoss = -5\<close>, a negative number, while
  \<open>shouldDisplayAsNegative\<close> is false and \<open>isWinning\<close> is true. The claim has that branch
  parse as positive.\<close>

theorem plain_cell_parses_negative:
  "parseRow digitsDate fixedClock exampleCols 1 ''xauusd,1910,1905,2,100,300,$-5.00''
     = Parsed dollarMinusTrade
   \<and> pnlShape (trim ''$-5.00'') = Plain
   \<and> profitLoss dollarMinusTrade = Num (- 5)
   \<and> js_lt (profitLoss dollarMinusTrade) (Num 0)
   \<and> \<not> shouldDisplayAsNegative dollarMinusTrade
   \<and> isWinning dollarMinusTrade"
  using parseRow_dollarMinusRow shape_dollarMinus
  by (simp add: dollarMinusRow_def dollarMinusTrade_def)

text \<open>The four branches of the block, for the trimmed P/L cell \<open>s\<close> of any row, where \<open>x\<close>
  is the number that \<^verbatim>\<open>parseFloat\<close> reads from the cleaned text (when \<open>x\<close> is NaN the
  prices decide):
  (a) \<open>s\<close> is \<^verbatim>\<open>$(\<close>, a text \<open>n\<close>, \<^verbatim>\<open>)\<close>: \<open>profitLoss\<close> is minus the number read
      from \<open>n\<close> and \<open>originalPnlString\<close> is \<^verbatim>\<open>-$\<close> followed by \<open>n\<close>;
  (b) otherwise \<open>s\<close> is \<^verbatim>\<open>(\<close>, a text \<open>v\<close>, \<^verbatim>\<open>)\<close>: \<open>profitLoss\<close> is minus the
      absolute value of the number read from \<open>v\<close> without currency signs and commas,
      so it is never positive;
  (c) otherwise \<open>s\<close> starts with \<^verbatim>\<open>-\<close>: \<open>profitLoss\<close> is the number read from \<open>s\<close>
      without currency signs and commas, which is never positive;
  (d) otherwise \<open>profitLoss\<close> is the number read from \<open>s\<close> without currency signs and
      commas, with the sign it is written with.
  \<open>shouldDisplayAsNegative\<close> is set exactly in the cases (a) to (c).\<close>

lemma pnl_cell_branches:
  assumes "parseRow parseDate now cols i line = Parsed t"
  shows "let s = trim (splitFields line ! pnlCol cols); x = parseFloat (cleanedPnl s) in
     (shouldDisplayAsNegative t \<longleftrightarrow> pnlShape s \<noteq> Plain)
   \<and> (pnlShape s = DollarParens \<longrightarrow>
        s = ''$('' @ cleanedPnl s @ '')''
        \<and> originalPnlString t = ''-$'' @ cleanedPnl s
        \<and> (x \<noteq> NaN \<longrightarrow> profitLoss t = js_neg x))
   \<and> (pnlShape s = Parens \<longrightarrow>
        s = ''('' @ substring s 1 (length s - 1) @ '')''
        \<and> cleanedPnl s = trim (stripCurrency True (substring s 1 (length s - 1)))
        \<and> originalPnlString t = ''-$'' @ stripCurrency False (substring s 1 (length s - 1))
        \<and> (x \<noteq> NaN \<longrightarrow> profitLoss t = js_neg (js_abs x) \<and> \<not> js_lt (Num 0) (profitLoss t)))
   \<and> (pnlShape s = LeadingMinus \<longrightarrow>
        cleanedPnl s = trim (stripCurrency True s)
        \<and> originalPnlString t = s
        \<and> (x \<noteq> NaN \<longrightarrow> profitLoss t = x \<and> \<not> js_lt (Num 0) (profitLoss t)))
   \<and> (pnlShape s = Plain \<longrightarrow>
        cleanedPnl s = trim (stripCurrency True s)
        \<and> originalPnlString t = s
        \<and> (x \<noteq> NaN \<longrightarrow> profitLoss t = x))"
proof -
  define cell where "cell = splitFields line ! pnlCol cols"
  define s where "s = trim cell"
  define x where "x = parseFloat (cleanedPnl s)"
  have pl: "profitLoss t = pnl (parsePnl cell (entryPrice t) (exitPrice t) (quantity t))"
    and orig: "originalPnlString t = origPnl (parsePnlField cell)"
    and neg: "shouldDisplayAsNegative t = dispNeg (parsePnlField cell)"
    unfolding cell_def
    by (rule parseRow_Parsed(6) [OF assms], rule parseRow_Parsed(7) [OF assms],
        rule parseRow_Parsed(8) [OF assms])
  have nan: "pnl (parsePnlField cell) = NaN \<longleftrightarrow> x = NaN"
    by (simp add: parsePnlField_NaN x_def s_def)
  have kept: "x \<noteq> NaN \<Longrightarrow> profitLoss t = pnl (parsePnlField cell)"
    using nan pl by (simp add: parsePnl_kept)
  have 0: "shouldDisplayAsNegative t \<longleftrightarrow> pnlShape s \<noteq> Plain"
    unfolding neg by (cases "pnlShape s") (simp_all add: parsePnlField_shape s_def [symmetric])
  have a: "pnlShape s = DollarParens \<longrightarrow>
        s = ''$('' @ cleanedPnl s @ '')''
        \<and> originalPnlString t = ''-$'' @ cleanedPnl s
        \<and> (x \<noteq> NaN \<longrightarrow> profitLoss t = js_neg x)"
    using dollarParens_decomp [of s] kept
    by (auto simp: orig parsePnlField_shape s_def [symmetric] x_def [symmetric])
  have b: "pnlShape s = Parens \<longrightarrow>
        s = ''('' @ substring s 1 (length s - 1) @ '')''
        \<and> cleanedPnl s = trim (stripCurrency True (substring s 1 (length s - 1)))
        \<and> originalPnlString t = ''-$'' @ stripCurrency False (substring s 1 (length s - 1))
        \<and> (x \<noteq> NaN \<longrightarrow> profitLoss t = js_neg (js_abs x) \<and> \<not> js_lt (Num 0) (profitLoss t))"
  proof
    assume sh: "pnlShape s = Parens"
    have cl: "cleanedPnl s = trim (stripCurrency True (substring s 1 (length s - 1)))"
      using sh by (simp add: cleanedPnl_def)
    have f: "parsePnlField cell =
          \<lparr> pnl = js_neg (js_abs x),
            origPnl = ''-$'' @ stripCurrency False (substring s 1 (length s - 1)),
            dispNeg = True \<rparr>"
      using sh by (simp add: parsePnlField_shape s_def [symmetric] x_def [symmetric])
    show "s = ''('' @ substring s 1 (length s - 1) @ '')''
        \<and> cleanedPnl s = trim (stripCurrency True (substring s 1 (length s - 1)))
        \<and> originalPnlString t = ''-$'' @ stripCurrency False (substring s 1 (length s - 1))
        \<and> (x \<noteq> NaN \<longrightarrow> profitLoss t = js_neg (js_abs x) \<and> \<not> js_lt (Num 0) (profitLoss t))"
      using parens_decomp [OF sh] cl kept neg_abs_not_positive [of x]
      by (simp add: orig f)
  qed
  have c: "pnlShape s = LeadingMinus \<longrightarrow>
        cleanedPnl s = trim (stripCurrency True s)
        \<and> originalPnlString t = s
        \<and> (x \<noteq> NaN \<longrightarrow> profitLoss t = x \<and> \<not> js_lt (Num 0) (profitLoss t))"
  proof
    assume sh: "pnlShape s = LeadingMinus"
    then have m: "startsWith s ''-''" by (auto simp: pnlShape_def split: if_splits)
    have cl: "cleanedPnl s = trim (stripCurrency True s)" using sh by (simp add: cleanedPnl_def)
    have np: "\<not> js_lt (Num 0) x"
      unfolding x_def cl by (rule leading_minus_not_positive [OF m])
    have f: "parsePnlField cell = \<lparr> pnl = x, origPnl = s, dispNeg = True \<rparr>"
      using sh by (simp add: parsePnlField_shape s_def [symmetric] x_def [symmetric])
    show "cleanedPnl s = trim (stripCurrency True s)
        \<and> originalPnlString t = s
        \<and> (x \<noteq> NaN \<longrightarrow> profitLoss t = x \<and> \<not> js_lt (Num 0) (profitLoss t))"
      using cl kept np by (simp add: orig f)
  qed
  have d: "pnlShape s = Plain \<longrightarrow>
        cleanedPnl s = trim (stripCurrency True s)
        \<and> originalPnlString t = s
        \<and> (x \<noteq> NaN \<longrightarrow> profitLoss t = x)"
  proof
    assume sh: "pnlShape s = Plain"
    have cl: "cleanedPnl s = trim (stripCurrency True s)" using sh by (simp add: cleanedPnl_def)
    have f: "parsePnlField cell = \<lparr> pnl = x, origPnl = s, dispNeg = False \<rparr>"
      using sh by (simp add: parsePnlField_shape s_def [symmetric] x_def [symmetric])
    show "cleanedPnl s = trim (stripCurrency True s)
        \<and> originalPnlString t = s
        \<and> (x \<noteq> NaN \<longrightarrow> profitLoss t = x)"
      using cl kept by (simp add: orig f)
  qed
  show ?thesis
    unfolding Let_def cell_def [symmetric] s_def [symmetric] x_def [symmetric]
    using 0 a b c d by blast
qed

text \<open>The cell \<^verbatim>\<open>$(225.00)\<close> gives \<open>profitLoss = -225\<close> and the original text
  \<^verbatim>\<open>-$225.00\<close>.\<close>

lemma dollar_parens_cell:
  "parseRow digitsDate fixedClock exampleCols 1 ''XAUUSD,1900,1905,1,100,200,$(225.00)''
     = Parsed dollarParensTrade
   \<and> pnlShape (trim ''$(225.00)'') = DollarParens
   \<and> profitLoss dollarParensTrade = Num (- 225)
   \<and> originalPnlString dollarParensTrade = ''-$225.00''
   \<and> shouldDisplayAsNegative dollarParensTrade"
proof -
  have cell: "splitFields dollarParensRow ! pnlCol exampleCols = ''$(225.00)''"
    by (simp add: dollarParensRow_fields exampleCols_def)
  have "profitLoss dollarParensTrade = Num (- 225)
      \<and> originalPnlString dollarParensTrade = ''-$225.00''
      \<and> shouldDisplayAsNegative dollarParensTrade"
    using pnl_cell_branches [OF parseRow_dollarParensRow]
    by (simp add: cell Let_def shape_dollarParens cleaned_dollarParens parseFloat_225)
  then show ?thesis
    using parseRow_dollarParensRow shape_dollarParens by (simp add: dollarParensRow_def)
qed

subsection \<open>The debug recalculation\<close>

lemma includesStr_iff: "includesStr s p \<longleftrightarrow> (\<exists>pre post. s = pre @ p @ post)"
proof (induction s)
  case Nil
  then show ?case by auto
next
  case (Cons c cs)
  show ?case
  proof
    assume "includesStr (c # cs) p"
    then consider "startsWith (c # cs) p" | "includesStr cs p" by auto
    then show "\<exists>pre post. c # cs = pre @ p @ post"
    proof cases
      case 1
      then obtain r where "c # cs = p @ r" by (auto simp: startsWith_iff)
      then have "c # cs = [] @ p @ r" by simp
      then show ?thesis by blast
    next
      case 2
      then obtain pre post where "cs = pre @ p @ post" using Cons.IH by auto
      then have "c # cs = (c # pre) @ p @ post" by simp
      then show ?thesis by blast
    qed
  next
    assume "\<exists>pre post. c # cs = pre @ p @ post"
    then obtain pre post where e: "c # cs = pre @ p @ post" by auto
    show "includesStr (c # cs) p"
    proof (cases pre)
      case Nil
      then have "startsWith (c # cs) p" using e by (auto simp: startsWith_iff)
      then show ?thesis by simp
    next
      case (Cons a pre')
      then have "cs = pre' @ p @ post" using e by simp
      then have "includesStr cs p" using Cons.IH by blast
      then show ?thesis by simp
    qed
  qed
qed

lemma recalcTrade_cases:
  "recalcTrade toUpperCase m t =
     (if includesStr (toUpperCase (instrument t)) ''XAUUSD''
      then t\<lparr> profitLoss :=
                js_mul (js_mul (js_mul (js_sub (exitPrice t) (entryPrice t))
                                       (if tradeType t = Long then Num 1 else Num (- 1))) m)
                       (quantity t) \<rparr>
      else t)"
  by (simp add: recalcTrade_def Let_def)

lemma tradeList_applyDebugMultiplier:
  "truthy (Some m) \<Longrightarrow>
     tradeList (applyDebugMultiplier toUpperCase (Some m) s) = map (recalcTrade toUpperCase m)
         (tradeList s)"
  by (simp add: applyDebugMultiplier_def Let_def)

lemma applyDebugMultiplier_falsy: "\<not> truthy mOpt \<Longrightarrow> applyDebugMultiplier toUpperCase mOpt s = s"
  by (cases mOpt) (simp_all add: applyDebugMultiplier_def)

text \<open>C10, as stated, fails for the multiplier zero: the handler tests the multiplier for
  truthiness first, so with \<open>0\<close> (as with NaN, or with the global never set) it leaves the
  list as it is, while the formula of the claim would give the P/L \<open>0\<close>.\<close>

theorem override_with_zero_changes_nothing:
  "tradeList (applyDebugMultiplier asciiUpperCase (Some (Num 0))
               \<lparr> tradeList = [fallbackTrade], selectedTrade = None \<rparr>) = [fallbackTrade]
   \<and> includesStr (asciiUpperCase (instrument fallbackTrade)) ''XAUUSD''
   \<and> profitLoss fallbackTrade = Num 500
   \<and> js_mul (js_mul (js_mul (js_sub (exitPrice fallbackTrade) (entryPrice fallbackTrade))
                            (if tradeType fallbackTrade = Long then Num 1 else Num (- 1)))
                    (Num 0))
            (quantity fallbackTrade) = Num 0"
  using instrument_fallbackTrade
  by (simp add: applyDebugMultiplier_def truthy_def) (simp add: fallbackTrade_def)

text \<open>C10, amended. With a truthy multiplier \<open>m\<close> (set, not NaN, not zero) the recalculation
  replaces the \<open>profitLoss\<close> of every trade whose instrument, once in upper case, contains
  \<^verbatim>\<open>XAUUSD\<close> by (exit price minus entry price) times (\<open>1\<close> for \<open>Long\<close>, \<open>-1\<close> otherwise)
  times \<open>m\<close> times quantity, and changes nothing else in the trade list: the other fields
  of those trades, the other trades, the length and the order of the list. With a
  multiplier that is not truthy it changes nothing at all.\<close>

theorem override_replaces_only_matching_pnl:
  "(truthy (Some m) \<longrightarrow>
      length (tradeList (applyDebugMultiplier toUpperCase (Some m) s)) = length (tradeList s)
      \<and> (\<forall>i < length (tradeList s).
            tradeList (applyDebugMultiplier toUpperCase (Some m) s) ! i =
              (if includesStr (toUpperCase (instrument (tradeList s ! i))) ''XAUUSD''
               then (tradeList s ! i)\<lparr> profitLoss :=
                      js_mul (js_mul (js_mul (js_sub (exitPrice (tradeList s ! i))
                                                     (entryPrice (tradeList s ! i)))
                                             (if tradeType (tradeList s ! i) = Long
                                              then Num 1 else Num (- 1)))
                                     m)
                             (quantity (tradeList s ! i)) \<rparr>
               else tradeList s ! i)))
   \<and> (\<not> truthy mOpt \<longrightarrow> applyDebugMultiplier toUpperCase mOpt s = s)"
  by (simp add: tradeList_applyDebugMultiplier recalcTrade_cases applyDebugMultiplier_falsy)

lemma instrument_eurTrade: "\<not> includesStr (asciiUpperCase (instrument eurTrade)) ''XAUUSD''"
  by (simp add: eurTrade_def fallbackTrade_def str_defs)

text \<open>A store with a trade of \<^verbatim>\<open>XAUUSD\<close> and one of \<^verbatim>\<open>EURUSD\<close>: with the multiplier 10
  the first gets the P/L 50 and the second stays; with the global unset nothing changes.\<close>

theorem override_replaces_only_matching_pnl_witness:
  "truthy (Some (Num 10))
   \<and> tradeList (applyDebugMultiplier asciiUpperCase (Some (Num 10)) twoTradeStore) ! 0
       = fallbackTrade\<lparr> profitLoss := Num 50 \<rparr>
   \<and> tradeList (applyDebugMultiplier asciiUpperCase (Some (Num 10)) twoTradeStore) ! 1 = eurTrade
   \<and> applyDebugMultiplier asciiUpperCase None twoTradeStore = twoTradeStore"
proof -
  have t: "truthy (Some (Num 10))" by (simp add: truthy_def)
  have n: "\<not> truthy None" by (simp add: truthy_def)
  note a = instrument_fallbackTrade
  note b = instrument_eurTrade
  have v: "js_mul (js_mul (js_mul (js_sub (exitPrice fallbackTrade) (entryPrice fallbackTrade))
                            (if tradeType fallbackTrade = Long then Num 1 else Num (- 1)))
                    (Num 10))
            (quantity fallbackTrade) = Num 50"
    by (simp add: fallbackTrade_def)
  have e0: "tradeList twoTradeStore ! 0 = fallbackTrade"
    and e1: "tradeList twoTradeStore ! 1 = eurTrade"
    and l0: "0 < length (tradeList twoTradeStore)"
    and l1: "1 < length (tradeList twoTradeStore)"
    by (simp_all add: twoTradeStore_def)
  note T = override_replaces_only_matching_pnl [of "Num 10" asciiUpperCase twoTradeStore None]
  from T t have all: "\<forall>i < length (tradeList twoTradeStore).
            tradeList (applyDebugMultiplier asciiUpperCase (Some (Num 10)) twoTradeStore) ! i =
              (if includesStr (asciiUpperCase (instrument (tradeList twoTradeStore ! i))) ''XAUUSD''
               then (tradeList twoTradeStore ! i)\<lparr> profitLoss :=
                      js_mul (js_mul (js_mul (js_sub (exitPrice (tradeList twoTradeStore ! i))
                                                     (entryPrice (tradeList twoTradeStore ! i)))
                                             (if tradeType (tradeList twoTradeStore ! i) = Long
                                              then Num 1 else Num (- 1)))
                                     (Num 10))
                             (quantity (tradeList twoTradeStore ! i)) \<rparr>
               else tradeList twoTradeStore ! i)"
    by blast
  have "tradeList (applyDebugMultiplier asciiUpperCase (Some (Num 10)) twoTradeStore) ! 0
          = fallbackTrade\<lparr> profitLoss := Num 50 \<rparr>"
    using all [rule_format, OF l0] by (simp only: e0 if_P [OF a] v)
  moreover have
    "tradeList (applyDebugMultiplier asciiUpperCase (Some (Num 10)) twoTradeStore) ! 1 = eurTrade"
    using all [rule_format, OF l1] by (simp only: e1 if_not_P [OF b])
  moreover have "applyDebugMultiplier asciiUpperCase None twoTradeStore = twoTradeStore"
    using T n by blast
  ultimately show ?thesis using t by simp
qed

subsection \<open>The image map\<close>

lemma spread_Null: "i < length a \<Longrightarrow> a ! i = Null \<Longrightarrow> spread a ! i = Null"
  by (simp add: spread_def)

lemma length_spread [simp]: "length (spread a) = length a"
  by (simp add: spread_def)

lemma arraySet_in_range: "i < length a \<Longrightarrow> arraySet a i v = a[i := v]"
  by (simp add: arraySet_def)

lemma everyNull_iff: "everyNull a \<longleftrightarrow> (\<forall>i<length a. a ! i = Hole \<or> a ! i = Null)"
  by (simp add: everyNull_def list_all_length)

lemma everyNull_spread_iff:
  "everyNull ((spread a)[slot := Null]) \<longleftrightarrow> (\<forall>i<length a. ((spread a)[slot := Null]) ! i = Null)"
proof -
  have "\<And>i. i < length a \<Longrightarrow> ((spread a)[slot := Null]) ! i \<noteq> Hole"
    by (cases "slot < length a") (auto simp: nth_list_update spread_def)
  then show ?thesis by (auto simp: everyNull_iff)
qed

lemma removeImage_Some:
  assumes "m tradeId = Some a" and "slot < length a"
  shows "removeImage m tradeId slot =
           (if \<forall>i<length a. ((spread a)[slot := Null]) ! i = Null
            then m(tradeId := None) else m(tradeId \<mapsto> (spread a)[slot := Null]))"
  using assms
  by (simp add: removeImage_def Let_def arraySet_in_range everyNull_spread_iff)

lemma attachImage_inv:
  assumes "slotsInv S tradeId m" and "slot < 3"
  shows "slotsInv (insert slot S) tradeId (attachImage m tradeId slot r)"
proof (cases "m tradeId")
  case None
  have "arraySet (spread [Null, Null, Null]) slot (Data r) = [Null, Null, Null][slot := Data r]"
    using assms(2) by (simp add: arraySet_def spread_def)
  then show ?thesis
    using None assms(2)
    by (auto simp: slotsInv_def attachImage_def Let_def everyNull_iff nth_list_update
          less_Suc_eq numeral_3_eq_3)
next
  case (Some a)
  then have len: "length a = 3" and nul: "\<forall>i<3. i \<notin> S \<longrightarrow> a ! i = Null"
    using assms(1) by (auto simp: slotsInv_def)
  have e: "arraySet (spread a) slot (Data r) = (spread a)[slot := Data r]"
    using len assms(2) by (simp add: arraySet_in_range)
  have "\<not> everyNull ((spread a)[slot := Data r])"
    using len assms(2) by (auto simp: everyNull_iff intro!: exI [of _ slot])
  moreover have "\<forall>i<3. i \<notin> insert slot S \<longrightarrow> ((spread a)[slot := Data r]) ! i = Null"
    using len nul by (auto simp: nth_list_update spread_Null)
  ultimately show ?thesis
    using Some len by (simp add: slotsInv_def attachImage_def Let_def e)
qed

lemma attachImages_inv:
  "slotsInv S tradeId m \<Longrightarrow> \<forall>(slot, r) \<in> set atts. slot < 3 \<Longrightarrow>
   slotsInv (S \<union> fst ` set atts) tradeId (attachImages m tradeId atts)"
proof (induction atts arbitrary: S m)
  case Nil
  then show ?case by simp
next
  case (Cons x atts)
  obtain slot r where x: "x = (slot, r)" by (cases x)
  have "slotsInv (insert slot S) tradeId (attachImage m tradeId slot r)"
    using Cons.prems by (intro attachImage_inv) (auto simp: x)
  then have "slotsInv (insert slot S \<union> fst ` set atts) tradeId
               (attachImages (attachImage m tradeId slot r) tradeId atts)"
    using Cons.prems by (intro Cons.IH) auto
  then show ?case by (simp add: x)
qed

lemma removeImage_inv:
  assumes "slotsInv S tradeId m" and "d < 3"
  shows "slotsInv (S - {d}) tradeId (removeImage m tradeId d)"
proof (cases "m tradeId")
  case None
  then show ?thesis by (simp add: removeImage_def slotsInv_def)
next
  case (Some a)
  then have len: "length a = 3" and nul: "\<forall>i<3. i \<notin> S \<longrightarrow> a ! i = Null"
    using assms(1) by (auto simp: slotsInv_def)
  have d: "d < length a" using len assms(2) by simp
  have k: "\<forall>i<3. i \<notin> S - {d} \<longrightarrow> ((spread a)[d := Null]) ! i = Null"
    using len nul d by (auto simp: nth_list_update spread_Null)
  note eq = removeImage_Some [of m tradeId a d, OF Some d]
  show ?thesis
  proof (cases "\<forall>i<length a. ((spread a)[d := Null]) ! i = Null")
    case True
    then show ?thesis unfolding eq by (simp add: slotsInv_def)
  next
    case False
    then have "\<not> everyNull ((spread a)[d := Null])"
      by (simp only: everyNull_spread_iff not_False_eq_True)
    then show ?thesis
      unfolding eq using False len k by (simp add: slotsInv_def)
  qed
qed

lemma removeImages_inv:
  "slotsInv S tradeId m \<Longrightarrow> \<forall>d \<in> set dets. d < 3 \<Longrightarrow>
   slotsInv (S - set dets) tradeId (removeImages m tradeId dets)"
proof (induction dets arbitrary: S m)
  case Nil
  then show ?case by simp
next
  case (Cons d dets)
  have "slotsInv (S - {d}) tradeId (removeImage m tradeId d)"
    using Cons.prems by (intro removeImage_inv) auto
  then have "slotsInv (S - {d} - set dets) tradeId
               (removeImages (removeImage m tradeId d) tradeId dets)"
    using Cons.prems by (intro Cons.IH) auto
  moreover have "S - {d} - set dets = S - set (d # dets)" by auto
  ultimately show ?case by simp
qed

lemma slotsInv_empty: "slotsInv {} tradeId m \<Longrightarrow> m tradeId = None"
  by (cases "m tradeId") (auto simp: slotsInv_def everyNull_iff)

text \<open>C9. For a trade id whose entry has its three cells and a slot among 0, 1, 2,
  \<^verbatim>\<open>removeImage\<close> sets the cell of the slot to \<^verbatim>\<open>null\<close> and removes the entry of the trade
  id from the map exactly when all three cells are then \<^verbatim>\<open>null\<close>; otherwise the entry
  holds the updated cells. Hence, starting without an entry for the trade, attaching
  images to any slots and then detaching every slot that was attached leaves the map
  without the key of the trade. The attaching update is what \<^verbatim>\<open>handleImageUpload\<close>
  performs for a pending trade id and slot.\<close>

theorem detach_clears_slot_and_prunes_entry:
  "(m tradeId = Some a \<and> length a = 3 \<and> slot < 3 \<longrightarrow>
       ((spread a)[slot := Null]) ! slot = Null
     \<and> removeImage m tradeId slot =
         (if \<forall>i<3. ((spread a)[slot := Null]) ! i = Null then m(tradeId := None)
          else m(tradeId \<mapsto> (spread a)[slot := Null])))
   \<and> (m tradeId = None \<and> (\<forall>(s, r) \<in> set atts. s < 3) \<and> fst ` set atts \<subseteq> set dets
        \<and> (\<forall>d \<in> set dets. d < 3)
       \<longrightarrow> removeImages (attachImages m tradeId atts) tradeId dets tradeId = None)
   \<and> (tradeId \<noteq> 0 \<longrightarrow>
        handleImageUpload m (Some tradeId) (Some slot) result = attachImage m tradeId slot result)"
proof (intro conjI impI)
  assume h: "m tradeId = Some a \<and> length a = 3 \<and> slot < 3"
  then show "((spread a)[slot := Null]) ! slot = Null" by simp
  from h have 1: "m tradeId = Some a" and 2: "slot < length a" and 3: "length a = 3" by auto
  show "removeImage m tradeId slot =
         (if \<forall>i<3. ((spread a)[slot := Null]) ! i = Null then m(tradeId := None)
          else m(tradeId \<mapsto> (spread a)[slot := Null]))"
    using removeImage_Some [of m tradeId a slot, OF 1 2] by (simp only: 3)
next
  assume h: "m tradeId = None \<and> (\<forall>(s, r) \<in> set atts. s < 3) \<and> fst ` set atts \<subseteq> set dets
        \<and> (\<forall>d \<in> set dets. d < 3)"
  then have "slotsInv {} tradeId m" by (simp add: slotsInv_def)
  then have "slotsInv ({} \<union> fst ` set atts) tradeId (attachImages m tradeId atts)"
    using h by (intro attachImages_inv) auto
  then have i: "slotsInv (({} \<union> fst ` set atts) - set dets) tradeId
               (removeImages (attachImages m tradeId atts) tradeId dets)"
    using h by (intro removeImages_inv) auto
  have "({} \<union> fst ` set atts) - set dets = {}" using h by auto
  then have "slotsInv {} tradeId (removeImages (attachImages m tradeId atts) tradeId dets)"
    using i by (simp only:)
  then show "removeImages (attachImages m tradeId atts) tradeId dets tradeId = None"
    by (rule slotsInv_empty)
next
  assume "tradeId \<noteq> 0"
  then show "handleImageUpload m (Some tradeId) (Some slot) result
               = attachImage m tradeId slot result"
    by (simp add: handleImageUpload_def)
qed

theorem detach_clears_slot_and_prunes_entry_witness:
  "removeImage (Map.empty(1 \<mapsto> [Data ''a'', Null, Null])) 1 0 = Map.empty
   \<and> removeImages (attachImages Map.empty 1 [(0, ''a''), (2, ''b'')]) 1 [2, 0] 1 = None
   \<and> handleImageUpload Map.empty (Some 1) (Some 0) ''a'' = attachImage Map.empty 1 0 ''a''"
proof -
  note T = detach_clears_slot_and_prunes_entry
             [of "Map.empty(1 \<mapsto> [Data ''a'', Null, Null])" 1 "[Data ''a'', Null, Null]" 0
                 "[]" "[]" "''a''"]
  note U = detach_clears_slot_and_prunes_entry
             [of Map.empty 1 "[]" 0 "[(0, ''a''), (2, ''b'')]" "[2, 0]" "''a''"]
  have a: "removeImage (Map.empty(1 \<mapsto> [Data ''a'', Null, Null])) 1 0 = Map.empty"
    using T by (simp add: spread_def less_Suc_eq numeral_3_eq_3)
  have b: "removeImages (attachImages Map.empty 1 [(0, ''a''), (2, ''b'')]) 1 [2, 0] 1 = None"
    using U by simp
  have c: "handleImageUpload Map.empty (Some 1) (Some 0) ''a'' = attachImage Map.empty 1 0 ''a''"
    using U by simp
  show ?thesis using a b c by simp
qed

subsection \<open>The loop over the rows, and the keys of the column map\<close>

lemma rowsLoop_eq:
  "rowsLoop parseDate now cols i rows trades = trades @ rowTrades parseDate now cols i rows"
proof (induction rows arbitrary: i trades)
  case Nil
  then show ?case by (simp add: rowTrades_def)
next
  case (Cons line rest)
  show ?case
    by (cases "parseRow parseDate now cols i line")
       (simp_all add: Cons.IH rowTrades_def)
qed

lemma set_rowTrades:
  "set (rowTrades parseDate now cols i rows) =
     {t. \<exists>(k, line) \<in> set (enumerate i rows). parseRow parseDate now cols k line = Parsed t}"
proof -
  have p: "\<And>r t. t \<in> set (parsedOf r) \<longleftrightarrow> r = Parsed t"
    by (case_tac r) auto
  show ?thesis
    by (auto simp: rowTrades_def p)
qed

lemma rowTrades_empty_iff:
  "rowTrades parseDate now cols i rows = [] \<longleftrightarrow>
     (\<forall>(k, line) \<in> set (enumerate i rows). \<forall>t. parseRow parseDate now cols k line \<noteq> Parsed t)"
proof -
  have "rowTrades parseDate now cols i rows = [] \<longleftrightarrow> set (rowTrades parseDate now cols i rows) = {}"
    by simp
  also have "\<dots> \<longleftrightarrow> (\<forall>(k, line) \<in> set (enumerate i rows). \<forall>t. parseRow parseDate now cols k line \<noteq>
      Parsed t)"
    unfolding set_rowTrades by auto
  finally show ?thesis .
qed

lemma collectTrades_eq:
  "collectTrades toLowerCase parseDate now lines =
     rowTrades parseDate now (resolveColumns toLowerCase (objectKeys (columnMap toLowerCase
         (splitFields (hd lines)))))
       1 (tl lines)"
  by (simp add: collectTrades_def rowsLoop_eq)

lemma set_insertBy: "set (insertBy cmp x ys) = insert x (set ys)"
  by (induction ys) auto

lemma set_sortBy: "set (sortBy cmp xs) = set xs"
  by (induction xs) (simp_all add: sortBy_def set_insertBy)

lemma sortBy_Nil_iff: "sortBy cmp xs = [] \<longleftrightarrow> xs = []"
  by (metis set_sortBy set_empty)

lemma parseCSV_cases:
  "parseCSV toLowerCase parseDate now text =
     (if length (splitLines text) < 2 then Inl NoDataRows
      else if missingColumns toLowerCase (objectKeys (columnMap toLowerCase (splitFields (hd
          (splitLines text))))) \<noteq> []
      then Inl (MissingColumns
                  (missingColumns toLowerCase (objectKeys (columnMap toLowerCase (splitFields (hd
                      (splitLines text)))))))
      else if collectTrades toLowerCase parseDate now (splitLines text) = [] then Inl NoValidTrades
      else Inr (sortBy byEntryTimeDesc (collectTrades toLowerCase parseDate now (splitLines
          text))))"
  by (simp add: parseCSV_def Let_def)

lemma map_fst_objAssign:
  "map fst (objAssign m k v) = (if k \<in> fst ` set m then map fst m else map fst m @ [k])"
  by (induction m) (auto split: if_splits)

lemma keys_objAssign: "set (map fst (objAssign m k v)) = insert k (set (map fst m))"
  unfolding map_fst_objAssign by auto

lemma keys_setProperty:
  "set (map fst (setProperty m k v)) =
     (if k = ''__proto__'' then set (map fst m) else insert k (set (map fst m)))"
  by (simp add: setProperty_def keys_objAssign del: set_map)

lemma keys_forEachHeader:
  "set (map fst (forEachHeader toLowerCase hs i m)) =
     set (map fst m) \<union> (toLowerCase ` set hs - {''__proto__''})"
proof (induction hs arbitrary: i m)
  case Nil
  then show ?case by simp
next
  case (Cons h hs)
  show ?case
    unfolding forEachHeader.simps Cons.IH keys_setProperty by auto
qed

lemma set_objectKeys: "set (objectKeys m) = set (map fst m)"
  by (auto simp: objectKeys_def)

lemma set_keys_columnMap:
  "set (objectKeys (columnMap toLowerCase hs)) = toLowerCase ` set hs - {''__proto__''}"
  unfolding set_objectKeys columnMap_def keys_forEachHeader by simp

lemma missingColumns_iff:
  "c \<in> set (missingColumns toLowerCase keys) \<longleftrightarrow>
     c \<in> set requiredColumns \<and> (\<forall>key \<in> set keys. \<not> includesStr key (toLowerCase c))"
  by (auto simp: missingColumns_def list_ex_iff)

subsection \<open>When the import aborts\<close>

text \<open>C5. The import fails as a whole if and only if the text has fewer than two lines,
  or some required column name is contained in no key of the column map (the keys are the
  header names in lower case), or no data line becomes a trade. The three failures are
  reported in this order. A data line that is blank, too short or fails has no effect on
  the other lines: a successful import holds exactly the trades of the lines that parse.\<close>

theorem import_aborts_only_on_header_level_failure:
  "let lines = splitLines text;
       headers = splitFields (hd lines);
       keys = objectKeys (columnMap toLowerCase headers);
       rows = enumerate 1 (tl lines);
       cols = resolveColumns toLowerCase keys
   in set keys = toLowerCase ` set headers - {''__proto__''}
    \<and> ((\<exists>e. parseCSV toLowerCase parseDate now text = Inl e) \<longleftrightarrow>
         length lines < 2
         \<or> (\<exists>c \<in> set requiredColumns. \<forall>key \<in> set keys. \<not> includesStr key (toLowerCase c))
         \<or> (\<forall>(i, line) \<in> set rows. \<forall>t. parseRow parseDate now cols i line \<noteq> Parsed t))
    \<and> (length lines < 2 \<longrightarrow> parseCSV toLowerCase parseDate now text = Inl NoDataRows)
    \<and> (2 \<le> length lines
         \<and> (\<exists>c \<in> set requiredColumns. \<forall>key \<in> set keys. \<not> includesStr key (toLowerCase c))
        \<longrightarrow> parseCSV toLowerCase parseDate now text
              = Inl (MissingColumns (missingColumns toLowerCase keys)))
    \<and> (2 \<le> length lines
         \<and> (\<forall>c \<in> set requiredColumns. \<exists>key \<in> set keys. includesStr key (toLowerCase c))
         \<and> (\<forall>(i, line) \<in> set rows. \<forall>t. parseRow parseDate now cols i line \<noteq> Parsed t)
        \<longrightarrow> parseCSV toLowerCase parseDate now text = Inl NoValidTrades)
    \<and> (\<forall>ts. parseCSV toLowerCase parseDate now text = Inr ts \<longrightarrow>
          set ts = {t. \<exists>(i, line) \<in> set rows. parseRow parseDate now cols i line = Parsed t})"
proof -
  define lines where "lines = splitLines text"
  define headers where "headers = splitFields (hd lines)"
  define keys where "keys = objectKeys (columnMap toLowerCase headers)"
  define rows where "rows = enumerate 1 (tl lines)"
  define cols where "cols = resolveColumns toLowerCase keys"
  define missing where
    "missing \<longleftrightarrow>
       (\<exists>c \<in> set requiredColumns. \<forall>key \<in> set keys. \<not> includesStr key (toLowerCase c))"
  define none where
    "none \<longleftrightarrow> (\<forall>(i, line) \<in> set rows. \<forall>t. parseRow parseDate now cols i line \<noteq> Parsed t)"
  have k: "set keys = toLowerCase ` set headers - {''__proto__''}"
    unfolding keys_def by (rule set_keys_columnMap)
  have m: "missingColumns toLowerCase keys \<noteq> [] \<longleftrightarrow> missing"
  proof -
    have "missingColumns toLowerCase keys \<noteq> []
            \<longleftrightarrow> (\<exists>c. c \<in> set (missingColumns toLowerCase keys))"
      by (cases "missingColumns toLowerCase keys") auto
    then show ?thesis unfolding missingColumns_iff missing_def by auto
  qed
  have ct: "collectTrades toLowerCase parseDate now lines
              = rowTrades parseDate now cols 1 (tl lines)"
    by (simp add: collectTrades_eq cols_def keys_def headers_def)
  have n: "collectTrades toLowerCase parseDate now lines = [] \<longleftrightarrow> none"
    unfolding ct rowTrades_empty_iff none_def rows_def ..
  have st: "set (collectTrades toLowerCase parseDate now lines)
              = {t. \<exists>(i, line) \<in> set rows. parseRow parseDate now cols i line = Parsed t}"
    unfolding ct set_rowTrades rows_def ..
  have pc: "parseCSV toLowerCase parseDate now text =
     (if length lines < 2 then Inl NoDataRows
      else if missing then Inl (MissingColumns (missingColumns toLowerCase keys))
      else if none then Inl NoValidTrades
      else Inr (sortBy byEntryTimeDesc (collectTrades toLowerCase parseDate now lines)))"
    unfolding parseCSV_cases lines_def [symmetric] headers_def [symmetric] keys_def [symmetric]
    using m n by simp
  have "((\<exists>e. parseCSV toLowerCase parseDate now text = Inl e)
           \<longleftrightarrow> length lines < 2 \<or> missing \<or> none)
    \<and> (length lines < 2 \<longrightarrow> parseCSV toLowerCase parseDate now text = Inl NoDataRows)
    \<and> (2 \<le> length lines \<and> missing
        \<longrightarrow> parseCSV toLowerCase parseDate now text
              = Inl (MissingColumns (missingColumns toLowerCase keys)))
    \<and> (2 \<le> length lines \<and> \<not> missing \<and> none
        \<longrightarrow> parseCSV toLowerCase parseDate now text = Inl NoValidTrades)
    \<and> (\<forall>ts. parseCSV toLowerCase parseDate now text = Inr ts \<longrightarrow>
          set ts = {t. \<exists>(i, line) \<in> set rows. parseRow parseDate now cols i line = Parsed t})"
    unfolding pc using st by (auto simp: set_sortBy)
  moreover have "\<not> missing \<longleftrightarrow>
      (\<forall>c \<in> set requiredColumns. \<exists>key \<in> set keys. includesStr key (toLowerCase c))"
    by (auto simp: missing_def)
  ultimately show ?thesis
    unfolding Let_def lines_def [symmetric] headers_def [symmetric] keys_def [symmetric]
      rows_def [symmetric] cols_def [symmetric] missing_def [symmetric] none_def [symmetric]
    using k by simp
qed

subsection \<open>The example export, evaluated\<close>

lemmas char_eval = char_of_def bit_Suc_0_iff

lemma splitLines_exampleCsv:
  "splitLines exampleCsv =
     [exampleHeader, lateRow, ''short,row'', badTimeRow, dollarParensRow, dollarMinusRow]"
  by (simp add: exampleCsv_def exampleHeader_def lateRow_def badTimeRow_def dollarParensRow_def
        dollarMinusRow_def str_defs)

lemma headers_example:
  "splitFields exampleHeader =
     [''Symbol'', ''BuyPrice'', ''SellPrice'', ''Qty'', ''BoughtTimestamp'', ''SoldTimestamp'',
         ''Pnl'']"
  by (simp add: exampleHeader_def str_defs)

lemma keys_example:
  "objectKeys (columnMap asciiLowerCase [''Symbol'', ''BuyPrice'', ''SellPrice'', ''Qty'',
      ''BoughtTimestamp'',
                          ''SoldTimestamp'', ''Pnl''])
     = [''symbol'', ''buyprice'', ''sellprice'', ''qty'', ''boughttimestamp'', ''soldtimestamp'',
        ''pnl'']"
  by (simp add: columnMap_def setProperty_def objectKeys_def isArrayIndex_def is_digit_def
        asciiLowerCase_def lowerChar_def char_eval)

lemma missing_example:
  "missingColumns asciiLowerCase [''symbol'', ''buyprice'', ''sellprice'', ''qty'',
      ''boughttimestamp'',
                   ''soldtimestamp'', ''pnl''] = []"
  by (simp add: missingColumns_def requiredColumns_def asciiLowerCase_def lowerChar_def char_eval)

lemma cols_example:
  "resolveColumns asciiLowerCase [''symbol'', ''buyprice'', ''sellprice'', ''qty'',
      ''boughttimestamp'',
                   ''soldtimestamp'', ''pnl''] = exampleCols"
  by (simp add: resolveColumns_def getColumnIndex_def exampleCols_def asciiLowerCase_def
      lowerChar_def char_eval)

lemma parseFloat_10: "parseFloat ''10'' = Num 10"
  by (simp add: str_defs num_defs)

lemma parsePnl_10:
  "parsePnl ''10'' (Num 1900) (Num 1905) (Num 1) = \<lparr>pnl = Num 10, origPnl = ''10'', dispNeg =
      False\<rparr>"
  by (simp add: str_defs num_defs pnl_defs)

lemma digitsDate_400: "digitsDate ''400'' = Some 400"
  by (simp add: digitsDate_def num_defs)

lemma digitsDate_bad: "digitsDate ''bad'' = None"
  by (simp add: digitsDate_def num_defs)

lemma lateRow_fields:
  "splitFields lateRow = [''XAUUSD'', ''1900'', ''1905'', ''1'', ''300'', ''400'', ''10'']"
  by (simp add: lateRow_def str_defs)

lemma badTimeRow_fields:
  "splitFields badTimeRow = [''XAUUSD'', ''1900'', ''1905'', ''1'', ''bad'', ''200'', ''n/a'']"
  by (simp add: badTimeRow_def str_defs)

lemma parseRow_lateRow:
  "parseRow digitsDate fixedClock exampleCols i lateRow = Parsed (lateTrade\<lparr> id := i \<rparr>)"
  unfolding parseRow_cases lateRow_fields
  by (simp add: lateRow_def str_defs exampleCols_def neededFields_def parseFloat_1900
        parseFloat_1905 parseFloat_1 parsePnl_10 digitsDate_300 digitsDate_400
        rowTimestamps_def tradeDirection_def js_le_def rowDuration_def elapsed_def
            floor_divBy_small divBy_hour divBy_60 lateTrade_def)

lemma parseRow_shortRow:
  "parseRow digitsDate fixedClock exampleCols i ''short,row'' = Skipped"
  unfolding parseRow_cases
  by (simp add: str_defs exampleCols_def neededFields_def)

lemma parseRow_badTimeRow:
  "parseRow digitsDate fixedClock exampleCols i badTimeRow = Parsed (clockTrade\<lparr> id := i \<rparr>)"
  unfolding parseRow_cases badTimeRow_fields
  by (simp add: badTimeRow_def str_defs exampleCols_def neededFields_def parseFloat_1900
        parseFloat_1905 parseFloat_1 parsePnl_na digitsDate_bad digitsDate_200
        rowTimestamps_def timeClip_def fixedClock_def tradeDirection_def js_le_def
        rowDuration_def elapsed_def floor_divBy_small divBy_hour divBy_60 clockTrade_def)

lemma parseRow_dollarParensRow_i:
  "parseRow digitsDate fixedClock exampleCols i dollarParensRow
     = Parsed (dollarParensTrade\<lparr> id := i \<rparr>)"
  unfolding parseRow_cases dollarParensRow_fields
  by (simp add: trim_dollarParensRow exampleCols_def neededFields_def parseFloat_1900
        parseFloat_1905 parseFloat_1 parsePnl_dollarParens digitsDate_100 digitsDate_200
        rowTimestamps_def tradeDirection_def js_le_def rowDuration_def elapsed_def
            floor_divBy_small divBy_hour divBy_60 dollarParensTrade_def)

lemma parseRow_dollarMinusRow_i:
  "parseRow digitsDate fixedClock exampleCols i dollarMinusRow
     = Parsed (dollarMinusTrade\<lparr> id := i \<rparr>)"
  unfolding parseRow_cases dollarMinusRow_fields
  by (simp add: trim_dollarMinusRow exampleCols_def neededFields_def parseFloat_1910
        parseFloat_1905 parseFloat_2 parsePnl_dollarMinus digitsDate_100 digitsDate_300
        rowTimestamps_def tradeDirection_def js_le_def rowDuration_def elapsed_def
            floor_divBy_small divBy_hour divBy_60 dollarMinusTrade_def)

lemma collectTrades_example:
  "collectTrades asciiLowerCase digitsDate fixedClock (splitLines exampleCsv) =
     [lateTrade, clockTrade, dollarParensTrade\<lparr> id := 4 \<rparr>, dollarMinusTrade\<lparr> id := 5 \<rparr>]"
  unfolding splitLines_exampleCsv collectTrades_def
  by (simp add: headers_example keys_example cols_example parseRow_lateRow parseRow_shortRow
        parseRow_badTimeRow parseRow_dollarParensRow_i parseRow_dollarMinusRow_i
        lateTrade_def clockTrade_def eval_nat_numeral)

lemma sort_example:
  "sortBy byEntryTimeDesc
     [lateTrade, clockTrade, dollarParensTrade\<lparr> id := 4 \<rparr>, dollarMinusTrade\<lparr> id := 5 \<rparr>]
   = [clockTrade, lateTrade, dollarParensTrade\<lparr> id := 4 \<rparr>, dollarMinusTrade\<lparr> id := 5 \<rparr>]"
  by (simp add: sortBy_def byEntryTimeDesc_def lateTrade_def clockTrade_def dollarParensTrade_def
        dollarMinusTrade_def)

lemma parseCSV_example:
  "parseCSV asciiLowerCase digitsDate fixedClock exampleCsv =
     Inr [clockTrade, lateTrade, dollarParensTrade\<lparr> id := 4 \<rparr>, dollarMinusTrade\<lparr> id := 5 \<rparr>]"
  unfolding parseCSV_cases collectTrades_example sort_example
  by (simp add: splitLines_exampleCsv headers_example keys_example missing_example)

subsection \<open>The sort by entry time\<close>

lemma sorted_insertBy:
  "sorted_wrt (\<lambda>a b. entryTime b \<le> entryTime a) ys \<Longrightarrow>
   sorted_wrt (\<lambda>a b. entryTime b \<le> entryTime a) (insertBy byEntryTimeDesc x ys)"
proof (induction ys)
  case Nil
  then show ?case by simp
next
  case (Cons y ys)
  show ?case
  proof (cases "byEntryTimeDesc x y \<le> 0")
    case True
    then have "entryTime y \<le> entryTime x" by (simp add: byEntryTimeDesc_def)
    then show ?thesis using True Cons.prems by auto
  next
    case False
    then have "entryTime x \<le> entryTime y" by (simp add: byEntryTimeDesc_def)
    then show ?thesis using False Cons by (auto simp: set_insertBy)
  qed
qed

lemma sorted_sortBy:
  "sorted_wrt (\<lambda>a b. entryTime b \<le> entryTime a) (sortBy byEntryTimeDesc xs)"
proof (induction xs)
  case Nil
  then show ?case by (simp add: sortBy_def)
next
  case (Cons x xs)
  then show ?case using sorted_insertBy [of "sortBy byEntryTimeDesc xs" x] by (simp add: sortBy_def)
qed

lemma filter_insertBy:
  "filter (\<lambda>t. entryTime t = k) (insertBy byEntryTimeDesc x ys) =
     (if entryTime x = k then x # filter (\<lambda>t. entryTime t = k) ys
      else filter (\<lambda>t. entryTime t = k) ys)"
  by (induction ys) (auto simp: byEntryTimeDesc_def)

lemma filter_sortBy:
  "filter (\<lambda>t. entryTime t = k) (sortBy byEntryTimeDesc xs) = filter (\<lambda>t. entryTime t = k) xs"
proof (induction xs)
  case Nil
  then show ?case by (simp add: sortBy_def)
next
  case (Cons x xs)
  have "sortBy byEntryTimeDesc (x # xs) = insertBy byEntryTimeDesc x (sortBy byEntryTimeDesc xs)"
    by (simp add: sortBy_def)
  then show ?case using Cons.IH by (simp add: filter_insertBy)
qed

lemma sorted_wrt_filter_nth:
  "sorted_wrt R (filter Q xs) \<Longrightarrow> a < b \<Longrightarrow> b < length xs \<Longrightarrow> Q (xs ! a) \<Longrightarrow> Q (xs ! b)
   \<Longrightarrow> R (xs ! a) (xs ! b)"
proof (induction xs arbitrary: a b)
  case Nil
  then show ?case by simp
next
  case (Cons x xs)
  show ?case
  proof (cases a)
    case 0
    then obtain b' where b: "b = Suc b'" using Cons.prems(2) by (cases b) auto
    then have "xs ! b' \<in> set (filter Q xs)" using Cons.prems by auto
    then show ?thesis using Cons.prems 0 b by auto
  next
    case (Suc a')
    then obtain b' where b: "b = Suc b'" using Cons.prems(2) by (cases b) auto
    have "sorted_wrt R (filter Q xs)" using Cons.prems(1) by (cases "Q x") auto
    then have "R (xs ! a') (xs ! b')"
      using Cons.prems Suc b by (intro Cons.IH) auto
    then show ?thesis by (simp add: Suc b)
  qed
qed

lemma id_parsedOf: "t \<in> set (parsedOf (parseRow parseDate now cols k line)) \<Longrightarrow> trade.id t = k"
  by (cases "parseRow parseDate now cols k line") (auto simp: parseRow_Parsed(1))

lemma rowTrades_ids:
  "sorted_wrt (<) (map trade.id (rowTrades parseDate now cols i rows))
   \<and> (\<forall>t \<in> set (rowTrades parseDate now cols i rows). i \<le> trade.id t)"
proof (induction rows arbitrary: i)
  case Nil
  then show ?case by (simp add: rowTrades_def)
next
  case (Cons line rest)
  have e: "rowTrades parseDate now cols i (line # rest) =
             parsedOf (parseRow parseDate now cols i line) @ rowTrades parseDate now cols (Suc i)
                 rest"
    by (simp add: rowTrades_def)
  have h: "\<forall>t \<in> set (parsedOf (parseRow parseDate now cols i line)). trade.id t = i"
    using id_parsedOf by blast
  have s: "sorted_wrt (<) (map trade.id (parsedOf (parseRow parseDate now cols i line)))"
    by (cases "parseRow parseDate now cols i line") auto
  show ?case
    unfolding e using Cons.IH [of "Suc i"] h s
    by (auto simp: sorted_wrt_append)
qed

subsection \<open>The example export, imported\<close>

text \<open>The import of the example keeps the four rows that parse although the second data
  line is too short; a text of one line is refused.\<close>

lemma example_resolved:
  "resolveColumns asciiLowerCase (objectKeys (columnMap asciiLowerCase (splitFields (hd
      (splitLines exampleCsv))))) = exampleCols"
  by (simp add: splitLines_exampleCsv headers_example keys_example cols_example)

theorem import_aborts_only_on_header_level_failure_witness:
  "parseCSV asciiLowerCase digitsDate fixedClock exampleCsv
     = Inr [clockTrade, lateTrade, dollarParensTrade\<lparr> id := 4 \<rparr>, dollarMinusTrade\<lparr> id := 5 \<rparr>]
   \<and> (2, ''short,row'') \<in> set (enumerate 1 (tl (splitLines exampleCsv)))
   \<and> parseRow digitsDate fixedClock exampleCols 2 ''short,row'' = Skipped
   \<and> set [clockTrade, lateTrade, dollarParensTrade\<lparr> id := 4 \<rparr>, dollarMinusTrade\<lparr> id := 5 \<rparr>]
       = {t. \<exists>(i, line) \<in> set (enumerate 1 (tl (splitLines exampleCsv))).
               parseRow digitsDate fixedClock exampleCols i line = Parsed t}
   \<and> length (splitLines ''Symbol,Pnl'') < 2
   \<and> parseCSV asciiLowerCase digitsDate fixedClock ''Symbol,Pnl'' = Inl NoDataRows"
proof -
  note T = import_aborts_only_on_header_level_failure
             [of exampleCsv asciiLowerCase digitsDate fixedClock]
  note U = import_aborts_only_on_header_level_failure
             [of "''Symbol,Pnl''" asciiLowerCase digitsDate fixedClock]
  have a: "set [clockTrade, lateTrade, dollarParensTrade\<lparr> id := 4 \<rparr>, dollarMinusTrade\<lparr> id := 5 \<rparr>]
       = {t. \<exists>(i, line) \<in> set (enumerate 1 (tl (splitLines exampleCsv))).
               parseRow digitsDate fixedClock exampleCols i line = Parsed t}"
    using T parseCSV_example unfolding Let_def example_resolved by blast
  have l: "length (splitLines ''Symbol,Pnl'') < 2" by (simp add: str_defs)
  have b: "parseCSV asciiLowerCase digitsDate fixedClock ''Symbol,Pnl'' = Inl NoDataRows"
    using U l unfolding Let_def by blast
  have c: "(2, ''short,row'') \<in> set (enumerate 1 (tl (splitLines exampleCsv)))"
    by (simp add: splitLines_exampleCsv in_set_enumerate_eq)
  show ?thesis using a b c l parseCSV_example parseRow_shortRow by simp
qed

subsection \<open>Rows with a bad timestamp\<close>

lemma nth_in_enumerate:
  "1 \<le> i \<Longrightarrow> i < length lines \<Longrightarrow> (i, lines ! i) \<in> set (enumerate 1 (tl lines))"
  by (cases lines) (auto simp: in_set_enumerate_eq nth_Cons split: nat.splits)

text \<open>C7. In an export whose header has a key for every required column, a data line that
  is not blank and has enough cells, and whose entry or exit timestamp cannot be read, is
  neither dropped nor a failure: both times are replaced, the entry time by the reading of
  the clock and the exit time by that reading plus one hour (3600000 ms), also when one of
  the two cells could be read; the import succeeds and holds the trade of that line. The
  clock is assumed to show a time one hour before the end of the range of dates at the
  latest.\<close>

theorem bad_timestamp_row_is_kept_with_clock_times:
  assumes "2 \<le> length (splitLines text)"
    and "\<forall>c \<in> set requiredColumns.
           \<exists>key \<in> set (objectKeys (columnMap toLowerCase (splitFields (hd (splitLines text))))).
             includesStr key (toLowerCase c)"
    and "cols = resolveColumns toLowerCase
                  (objectKeys (columnMap toLowerCase (splitFields (hd (splitLines text)))))"
    and "1 \<le> i" and "i < length (splitLines text)"
    and "line = splitLines text ! i"
    and "trim line \<noteq> []"
    and "neededFields cols \<le> length (splitFields line)"
    and "parseDate (splitFields line ! buyTimeCol cols) = None
         \<or> parseDate (splitFields line ! sellTimeCol cols) = None"
    and "\<bar>now i + 3600000\<bar> \<le> 8640000000000000"
  shows "\<exists>t ts. parseRow parseDate now cols i line = Parsed t
           \<and> entryTime t = now i \<and> exitTime t = now i + 3600000
           \<and> parseCSV toLowerCase parseDate now text = Inr ts \<and> t \<in> set ts"
proof -
  have st: "rowTimestamps parseDate (now i) (splitFields line ! buyTimeCol cols)
              (splitFields line ! sellTimeCol cols) = (Some (now i), Some (now i + 3600000))"
    using assms(9,10) by (auto simp: rowTimestamps_def timeClip_def Let_def)
  obtain t where t: "parseRow parseDate now cols i line = Parsed t"
    unfolding parseRow_cases using assms(7,8) st by simp
  have times: "entryTime t = now i \<and> exitTime t = now i + 3600000"
    using parseRow_Parsed(10) [OF t] st by simp
  have mem: "t \<in> set (collectTrades toLowerCase parseDate now (splitLines text))"
    unfolding collectTrades_eq set_rowTrades assms(3) [symmetric]
    using nth_in_enumerate [OF assms(4,5)] t assms(6) by auto
  have nm: "missingColumns toLowerCase (objectKeys (columnMap toLowerCase (splitFields (hd
      (splitLines text))))) = []"
  proof (rule ccontr)
    assume "missingColumns toLowerCase (objectKeys (columnMap toLowerCase (splitFields (hd
        (splitLines text))))) \<noteq> []"
    then obtain c where
      "c \<in> set (missingColumns toLowerCase (objectKeys (columnMap toLowerCase (splitFields (hd
          (splitLines text))))))"
      by (cases "missingColumns toLowerCase (objectKeys (columnMap toLowerCase (splitFields (hd
          (splitLines text)))))") auto
    then show False using assms(2) by (auto simp: missingColumns_iff)
  qed
  have ne: "collectTrades toLowerCase parseDate now (splitLines text) \<noteq> []" using mem by auto
  have "parseCSV toLowerCase parseDate now text
          = Inr (sortBy byEntryTimeDesc (collectTrades toLowerCase parseDate now (splitLines
              text)))"
    unfolding parseCSV_cases using assms(1) nm ne by simp
  moreover have "t \<in> set (sortBy byEntryTimeDesc (collectTrades toLowerCase parseDate now
      (splitLines text)))"
    using mem by (simp add: set_sortBy)
  ultimately show ?thesis using t times by blast
qed

theorem bad_timestamp_row_is_kept_with_clock_times_witness:
  "parseRow digitsDate fixedClock exampleCols 3 ''XAUUSD,1900,1905,1,bad,200,n/a'' = Parsed
      clockTrade
   \<and> digitsDate ''bad'' = None
   \<and> entryTime clockTrade = fixedClock 3 \<and> exitTime clockTrade = fixedClock 3 + 3600000
   \<and> (\<exists>ts. parseCSV asciiLowerCase digitsDate fixedClock exampleCsv = Inr ts \<and> clockTrade \<in> set ts)"
proof -
  have 1: "2 \<le> length (splitLines exampleCsv)" by (simp add: splitLines_exampleCsv)
  have 2: "\<forall>c \<in> set requiredColumns.
           \<exists>key \<in> set (objectKeys (columnMap asciiLowerCase
                                (splitFields (hd (splitLines exampleCsv))))).
             includesStr key (asciiLowerCase c)"
    by (simp add: splitLines_exampleCsv headers_example keys_example requiredColumns_def
          asciiLowerCase_def lowerChar_def char_eval)
  have 3: "exampleCols
             = resolveColumns asciiLowerCase (objectKeys (columnMap asciiLowerCase (splitFields
                 (hd (splitLines exampleCsv)))))"
    by (simp add: example_resolved)
  have 6: "badTimeRow = splitLines exampleCsv ! 3" by (simp add: splitLines_exampleCsv)
  have 7: "trim badTimeRow \<noteq> []" by (simp add: badTimeRow_def str_defs)
  have 8: "neededFields exampleCols \<le> length (splitFields badTimeRow)"
    by (simp add: badTimeRow_fields neededFields_def exampleCols_def)
  have 9: "digitsDate (splitFields badTimeRow ! buyTimeCol exampleCols) = None
         \<or> digitsDate (splitFields badTimeRow ! sellTimeCol exampleCols) = None"
    by (simp add: badTimeRow_fields exampleCols_def digitsDate_bad)
  have 10: "\<bar>fixedClock 3 + 3600000\<bar> \<le> 8640000000000000" by (simp add: fixedClock_def)
  have 5: "3 < length (splitLines exampleCsv)" by (simp add: splitLines_exampleCsv)
  have 4: "(1::nat) \<le> 3" by simp
  obtain t ts where r: "parseRow digitsDate fixedClock exampleCols 3 badTimeRow = Parsed t"
      "entryTime t = fixedClock 3" "exitTime t = fixedClock 3 + 3600000"
      "parseCSV asciiLowerCase digitsDate fixedClock exampleCsv = Inr ts" "t \<in> set ts"
    using bad_timestamp_row_is_kept_with_clock_times
            [of exampleCsv asciiLowerCase exampleCols 3 badTimeRow digitsDate fixedClock,
             OF 1 2 3 4 5 6 7 8 9 10]
    by blast
  have "t = clockTrade" using r(1) by (simp add: parseRow_badTimeRow clockTrade_def)
  then show ?thesis using r by (auto simp: badTimeRow_def digitsDate_bad parseRow_badTimeRow
      clockTrade_def)
qed

subsection \<open>The order of the result\<close>

text \<open>C8. The trades of a successful import are in descending order of their entry time,
  and trades with the same entry time keep the order of their lines in the input: for
  every entry time, the trades with that time are the same list in the result and in the
  list collected from the lines, and of two such trades the one that comes first in the
  result has the smaller line number.\<close>

theorem import_sorted_descending_and_stable:
  assumes "parseCSV toLowerCase parseDate now text = Inr ts"
  shows "sorted_wrt (\<lambda>a b. entryTime b \<le> entryTime a) ts
       \<and> (\<forall>k. filter (\<lambda>t. entryTime t = k) ts =
                filter (\<lambda>t. entryTime t = k)
                  (rowTrades parseDate now
                     (resolveColumns toLowerCase
                        (objectKeys (columnMap toLowerCase (splitFields (hd (splitLines text))))))
                     1 (tl (splitLines text))))
       \<and> (\<forall>a b. a < b \<and> b < length ts \<and> entryTime (ts ! a) = entryTime (ts ! b)
                \<longrightarrow> trade.id (ts ! a) < trade.id (ts ! b))"
proof -
  define input where "input = collectTrades toLowerCase parseDate now (splitLines text)"
  have ts: "ts = sortBy byEntryTimeDesc input"
    using assms unfolding parseCSV_cases input_def by (simp split: if_splits)
  have inp: "input = rowTrades parseDate now
                     (resolveColumns toLowerCase (objectKeys (columnMap toLowerCase (splitFields
                         (hd (splitLines text))))))
                     1 (tl (splitLines text))"
    by (simp add: input_def collectTrades_eq)
  have s: "sorted_wrt (\<lambda>a b. entryTime b \<le> entryTime a) ts"
    unfolding ts by (rule sorted_sortBy)
  have f: "\<And>k. filter (\<lambda>t. entryTime t = k) ts = filter (\<lambda>t. entryTime t = k) input"
    unfolding ts by (rule filter_sortBy)
  have ids: "sorted_wrt (\<lambda>x y. trade.id x < trade.id y) input"
    using rowTrades_ids [of parseDate now _ 1 "tl (splitLines text)"]
    unfolding inp by (simp add: sorted_wrt_map)
  have tie: "trade.id (ts ! a) < trade.id (ts ! b)"
    if h: "a < b \<and> b < length ts \<and> entryTime (ts ! a) = entryTime (ts ! b)" for a b
  proof -
    define k where "k = entryTime (ts ! b)"
    have "sorted_wrt (\<lambda>x y. trade.id x < trade.id y) (filter (\<lambda>t. entryTime t = k) input)"
      using ids by (rule sorted_wrt_filter)
    then have srt:
      "sorted_wrt (\<lambda>x y. trade.id x < trade.id y) (filter (\<lambda>t. entryTime t = k) ts)"
      by (simp only: f)
    have ab: "a < b" and bl: "b < length ts" using h by blast+
    have qb: "entryTime (ts ! b) = k" by (simp only: k_def)
    have qa: "entryTime (ts ! a) = k" using h unfolding k_def by blast
    show ?thesis
      by (rule sorted_wrt_filter_nth
                 [of "\<lambda>x y. trade.id x < trade.id y" "\<lambda>t. entryTime t = k" ts a b,
                  OF srt ab bl qa qb])
  qed
  show ?thesis
  proof (intro conjI allI impI)
    show "sorted_wrt (\<lambda>a b. entryTime b \<le> entryTime a) ts" by (rule s)
  next
    fix k
    show "filter (\<lambda>t. entryTime t = k) ts =
            filter (\<lambda>t. entryTime t = k)
              (rowTrades parseDate now
                 (resolveColumns toLowerCase (objectKeys (columnMap toLowerCase (splitFields (hd
                     (splitLines text))))))
                 1 (tl (splitLines text)))"
      using f [of k] unfolding inp .
  next
    fix a b
    assume "a < b \<and> b < length ts \<and> entryTime (ts ! a) = entryTime (ts ! b)"
    then show "trade.id (ts ! a) < trade.id (ts ! b)" by (rule tie)
  qed
qed


theorem import_sorted_descending_and_stable_witness:
  "parseCSV asciiLowerCase digitsDate fixedClock exampleCsv
     = Inr [clockTrade, lateTrade, dollarParensTrade\<lparr> id := 4 \<rparr>, dollarMinusTrade\<lparr> id := 5 \<rparr>]
   \<and> map entryTime [clockTrade, lateTrade, dollarParensTrade\<lparr> id := 4 \<rparr>,
                     dollarMinusTrade\<lparr> id := 5 \<rparr>] = [1000, 300, 100, 100]
   \<and> sorted_wrt (\<lambda>a b. entryTime b \<le> entryTime a)
        [clockTrade, lateTrade, dollarParensTrade\<lparr> id := 4 \<rparr>, dollarMinusTrade\<lparr> id := 5 \<rparr>]
   \<and> trade.id (dollarParensTrade\<lparr> id := 4 \<rparr>) < trade.id (dollarMinusTrade\<lparr> id := 5 \<rparr>)"
proof -
  have e: "map entryTime [clockTrade, lateTrade, dollarParensTrade\<lparr> id := 4 \<rparr>,
                     dollarMinusTrade\<lparr> id := 5 \<rparr>] = [1000, 300, 100, 100]"
    by (simp add: clockTrade_def lateTrade_def dollarParensTrade_def dollarMinusTrade_def)
  note T = import_sorted_descending_and_stable [OF parseCSV_example]
  have s: "sorted_wrt (\<lambda>a b. entryTime b \<le> entryTime a)
        [clockTrade, lateTrade, dollarParensTrade\<lparr> id := 4 \<rparr>, dollarMinusTrade\<lparr> id := 5 \<rparr>]"
    using T by blast
  have "(2::nat) < 3
        \<and> 3 < length [clockTrade, lateTrade, dollarParensTrade\<lparr> id := 4 \<rparr>,
                      dollarMinusTrade\<lparr> id := 5 \<rparr>]
        \<and> entryTime ([clockTrade, lateTrade, dollarParensTrade\<lparr> id := 4 \<rparr>,
                       dollarMinusTrade\<lparr> id := 5 \<rparr>] ! 2)
            = entryTime ([clockTrade, lateTrade, dollarParensTrade\<lparr> id := 4 \<rparr>,
                          dollarMinusTrade\<lparr> id := 5 \<rparr>] ! 3)"
    by (simp add: dollarParensTrade_def dollarMinusTrade_def)
  then have "trade.id ([clockTrade, lateTrade, dollarParensTrade\<lparr> id := 4 \<rparr>,
                         dollarMinusTrade\<lparr> id := 5 \<rparr>] ! 2)
               < trade.id ([clockTrade, lateTrade, dollarParensTrade\<lparr> id := 4 \<rparr>,
                            dollarMinusTrade\<lparr> id := 5 \<rparr>] ! 3)"
    using T by blast
  then have i: "trade.id (dollarParensTrade\<lparr> id := 4 \<rparr>) < trade.id (dollarMinusTrade\<lparr> id := 5 \<rparr>)"
    by simp
  show ?thesis using parseCSV_example e s i by simp
qed

subsection \<open>The keys of plain headers, and the index of a match\<close>

lemma map_fst_forEachHeader:
  "distinct (map toLowerCase hs) \<Longrightarrow> toLowerCase ` set hs \<inter> fst ` set m = {} \<Longrightarrow>
   ''__proto__'' \<notin> toLowerCase ` set hs \<Longrightarrow>
   map fst (forEachHeader toLowerCase hs i m) = map fst m @ map toLowerCase hs"
proof (induction hs arbitrary: i m)
  case Nil
  then show ?case by simp
next
  case (Cons h hs)
  have np: "toLowerCase h \<noteq> ''__proto__''" using Cons.prems(3) by auto
  have new: "toLowerCase h \<notin> fst ` set m" using Cons.prems(2) by auto
  have m': "map fst (setProperty m (toLowerCase h) i) = map fst m @ [toLowerCase h]"
    using np new by (simp add: setProperty_def map_fst_objAssign)
  have d: "toLowerCase ` set hs \<inter> fst ` set (setProperty m (toLowerCase h) i) = {}"
  proof -
    have "fst ` set (setProperty m (toLowerCase h) i) = insert (toLowerCase h) (fst ` set m)"
      using keys_setProperty [of m "toLowerCase h" i] np by simp
    then show ?thesis using Cons.prems(1,2) by auto
  qed
  have "map fst (forEachHeader toLowerCase hs (Suc i) (setProperty m (toLowerCase h) i))
          = map fst (setProperty m (toLowerCase h) i) @ map toLowerCase hs"
    using Cons.prems by (intro Cons.IH d) auto
  then show ?case by (simp add: m')
qed

lemma objectKeys_plain:
  "\<forall>k \<in> set (map fst m). \<not> isArrayIndex k \<Longrightarrow> objectKeys m = map fst m"
proof -
  assume a: "\<forall>k \<in> set (map fst m). \<not> isArrayIndex k"
  then have "filter isArrayIndex (map fst m) = []" by (simp add: filter_empty_conv)
  moreover have "filter (\<lambda>k. \<not> isArrayIndex k) (map fst m) = map fst m"
    using a by (simp add: filter_id_conv)
  ultimately show ?thesis by (simp add: objectKeys_def)
qed

lemma keys_plainHeaders:
  assumes "plainHeaders toLowerCase headers"
  shows "objectKeys (columnMap toLowerCase headers) = map toLowerCase headers"
proof -
  have d: "distinct (map toLowerCase headers)" using assms by (simp add: plainHeaders_def)
  have e: "toLowerCase ` set headers \<inter> fst ` set [] = {}" by simp
  have np: "''__proto__'' \<notin> toLowerCase ` set headers"
    using assms by (force simp: plainHeaders_def)
  have "map fst (columnMap toLowerCase headers) = map toLowerCase headers"
    unfolding columnMap_def
    using map_fst_forEachHeader [of toLowerCase headers "[]" 0, OF d e np] by simp
  moreover have "\<forall>k \<in> set (map toLowerCase headers). \<not> isArrayIndex k"
    using assms by (auto simp: plainHeaders_def)
  ultimately show ?thesis using objectKeys_plain [of "columnMap toLowerCase headers"] by simp
qed

lemma findIndex_none: "\<forall>x \<in> set xs. \<not> P x \<Longrightarrow> findIndex P xs = - 1"
  by (induction xs) auto

lemma findIndex_first:
  "j < length xs \<Longrightarrow> P (xs ! j) \<Longrightarrow> \<forall>k<j. \<not> P (xs ! k) \<Longrightarrow> findIndex P xs = int j"
proof (induction xs arbitrary: j)
  case Nil
  then show ?case by simp
next
  case (Cons x xs)
  show ?case
  proof (cases j)
    case 0
    then show ?thesis using Cons.prems by simp
  next
    case (Suc j')
    have nx: "\<not> P x" using Cons.prems(3) Suc by (metis nth_Cons_0 zero_less_Suc)
    have "findIndex P xs = int j'"
    proof (rule Cons.IH)
      show "j' < length xs" using Cons.prems(1) Suc by simp
      show "P (xs ! j')" using Cons.prems(2) Suc by simp
      show "\<forall>k<j'. \<not> P (xs ! k)"
      proof (intro allI impI)
        fix k assume "k < j'"
        then have "Suc k < j" using Suc by simp
        then have "\<not> P ((x # xs) ! Suc k)" using Cons.prems(3) by blast
        then show "\<not> P (xs ! k)" by simp
      qed
    qed
    then show ?thesis using nx Suc by simp
  qed
qed

lemma findIndex_neg_iff: "findIndex P xs < 0 \<longleftrightarrow> (\<forall>x \<in> set xs. \<not> P x)"
  by (induction xs) auto

lemma findIndex_nonneg: "\<exists>x \<in> set xs. P x \<Longrightarrow> 0 \<le> findIndex P xs"
  using findIndex_neg_iff [of P xs] by auto

lemma getColumnIndex_required:
  assumes "missingColumns toLowerCase keys = []" and "c \<in> set requiredColumns"
  shows "0 \<le> getColumnIndex toLowerCase keys c"
proof -
  have "c \<notin> set (missingColumns toLowerCase keys)" using assms(1) by simp
  then have "list_ex (\<lambda>key. includesStr key (toLowerCase c)) keys"
    using assms(2) by (simp add: missingColumns_def)
  then show ?thesis
    unfolding getColumnIndex_def by (intro findIndex_nonneg) (simp add: list_ex_iff)
qed

lemma getColumnIndex_unique:
  assumes "plainHeaders toLowerCase headers" and "uniqueColumn toLowerCase headers baseName j"
  shows "getColumnIndex toLowerCase (objectKeys (columnMap toLowerCase headers)) baseName = int j"
proof -
  have jl: "j < length headers"
    and pj: "includesStr (toLowerCase (headers ! j)) (toLowerCase baseName)"
    and un: "\<forall>k < length headers.
               includesStr (toLowerCase (headers ! k)) (toLowerCase baseName) \<longrightarrow> k = j"
    using assms(2) unfolding uniqueColumn_def by blast+
  have j: "j < length (map toLowerCase headers)" using jl by simp
  have p: "includesStr (map toLowerCase headers ! j) (toLowerCase baseName)"
    using jl pj by simp
  have u: "\<forall>k<j. \<not> includesStr (map toLowerCase headers ! k) (toLowerCase baseName)"
  proof (intro allI impI)
    fix k assume kj: "k < j"
    then have kl: "k < length headers" using jl by simp
    have "\<not> includesStr (toLowerCase (headers ! k)) (toLowerCase baseName)"
      using un kl kj by blast
    then show "\<not> includesStr (map toLowerCase headers ! k) (toLowerCase baseName)"
      using kl by simp
  qed
  show ?thesis
    unfolding getColumnIndex_def keys_plainHeaders [OF assms(1)]
    by (rule findIndex_first [of j "map toLowerCase headers"
                                 "\<lambda>key. includesStr key (toLowerCase baseName)", OF j p u])
qed

lemma getColumnIndex_absent:
  assumes "\<forall>h \<in> set headers. \<not> includesStr (toLowerCase h) (toLowerCase baseName)"
  shows "getColumnIndex toLowerCase (objectKeys (columnMap toLowerCase headers)) baseName = - 1"
proof -
  have "\<forall>key \<in> set (objectKeys (columnMap toLowerCase headers)). \<not> includesStr key (toLowerCase
      baseName)"
  proof
    fix key assume "key \<in> set (objectKeys (columnMap toLowerCase headers))"
    then have "key \<in> toLowerCase ` set headers" unfolding set_keys_columnMap by blast
    then show "\<not> includesStr key (toLowerCase baseName)" using assms by blast
  qed
  then show ?thesis unfolding getColumnIndex_def by (rule findIndex_none)
qed

lemma uniqueColumn_transfer:
  assumes p1: "plainHeaders toLowerCase hs1" and p2: "plainHeaders toLowerCase hs2"
    and same: "set (map toLowerCase hs1) = set (map toLowerCase hs2)"
    and u1: "uniqueColumn toLowerCase hs1 c j1"
  shows "\<exists>j2. uniqueColumn toLowerCase hs2 c j2 \<and> toLowerCase (hs2 ! j2) = toLowerCase (hs1 ! j1)"
proof -
  have j1: "j1 < length hs1"
    and m1: "includesStr (toLowerCase (hs1 ! j1)) (toLowerCase c)"
    and un1: "\<forall>k < length hs1. includesStr (toLowerCase (hs1 ! k)) (toLowerCase c) \<longrightarrow> k = j1"
    using u1 unfolding uniqueColumn_def by blast+
  have "toLowerCase (hs1 ! j1) \<in> set (map toLowerCase hs1)" using j1 by simp
  then have "toLowerCase (hs1 ! j1) \<in> set (map toLowerCase hs2)" using same by simp
  then obtain j2 where j2: "j2 < length hs2"
    and e: "toLowerCase (hs2 ! j2) = toLowerCase (hs1 ! j1)"
    by (auto simp: in_set_conv_nth)
  have d2: "distinct (map toLowerCase hs2)" using p2 by (simp add: plainHeaders_def)
  have un2: "\<forall>k < length hs2. includesStr (toLowerCase (hs2 ! k)) (toLowerCase c) \<longrightarrow> k = j2"
  proof (intro allI impI)
    fix k assume k: "k < length hs2"
      and mk: "includesStr (toLowerCase (hs2 ! k)) (toLowerCase c)"
    have "toLowerCase (hs2 ! k) \<in> set (map toLowerCase hs2)" using k by simp
    then have "toLowerCase (hs2 ! k) \<in> set (map toLowerCase hs1)" using same by simp
    then obtain k1 where k1: "k1 < length hs1"
      and ek: "toLowerCase (hs1 ! k1) = toLowerCase (hs2 ! k)"
      by (auto simp: in_set_conv_nth)
    have "includesStr (toLowerCase (hs1 ! k1)) (toLowerCase c)" using mk by (simp only: ek)
    then have "k1 = j1" using un1 k1 by blast
    then have "toLowerCase (hs2 ! k) = toLowerCase (hs1 ! j1)" using ek by (simp only:)
    then have "toLowerCase (hs2 ! k) = toLowerCase (hs2 ! j2)" by (simp only: e)
    moreover have kl: "k < length (map toLowerCase hs2)"
      and jl: "j2 < length (map toLowerCase hs2)"
      using k j2 by simp_all
    moreover have "map toLowerCase hs2 ! k = toLowerCase (hs2 ! k)"
      and "map toLowerCase hs2 ! j2 = toLowerCase (hs2 ! j2)"
      using k j2 by simp_all
    ultimately have q: "map toLowerCase hs2 ! k = map toLowerCase hs2 ! j2" by (simp only:)
    show "k = j2"
      using nth_eq_iff_index_eq [OF d2 kl jl] q by blast
  qed
  have m2: "includesStr (toLowerCase (hs2 ! j2)) (toLowerCase c)" using m1 by (simp only: e)
  have "uniqueColumn toLowerCase hs2 c j2"
    unfolding uniqueColumn_def using j2 m2 un2 by blast
  then show ?thesis using e by blast
qed

lemma resolved_cell:
  assumes p1: "plainHeaders toLowerCase hs1" and p2: "plainHeaders toLowerCase hs2"
    and same: "set (map toLowerCase hs1) = set (map toLowerCase hs2)"
    and u1: "uniqueColumn toLowerCase hs1 c j1"
    and cells: "\<forall>a<length hs1. \<forall>b<length hs2.
                  toLowerCase (hs1 ! a) = toLowerCase (hs2 ! b) \<longrightarrow> fs1 ! a = fs2 ! b"
  shows "\<exists>j2. getColumnIndex toLowerCase (objectKeys (columnMap toLowerCase hs1)) c = int j1
             \<and> getColumnIndex toLowerCase (objectKeys (columnMap toLowerCase hs2)) c = int j2
             \<and> j1 < length hs1 \<and> j2 < length hs2 \<and> fs1 ! j1 = fs2 ! j2"
proof -
  obtain j2 where u2: "uniqueColumn toLowerCase hs2 c j2"
    and e: "toLowerCase (hs2 ! j2) = toLowerCase (hs1 ! j1)"
    using uniqueColumn_transfer [OF p1 p2 same u1] by blast
  have j1: "j1 < length hs1" using u1 unfolding uniqueColumn_def by blast
  have j2: "j2 < length hs2" using u2 unfolding uniqueColumn_def by blast
  have "fs1 ! j1 = fs2 ! j2" using cells j1 j2 e [symmetric] by blast
  then show ?thesis
    using getColumnIndex_unique [OF p1 u1] getColumnIndex_unique [OF p2 u2] j1 j2 by blast
qed

lemma parseRow_cong:
  assumes "trim l1 \<noteq> []" and "trim l2 \<noteq> []"
    and "neededFields c1 \<le> length (splitFields l1)"
    and "neededFields c2 \<le> length (splitFields l2)"
    and "splitFields l1 ! symbolCol c1 = splitFields l2 ! symbolCol c2"
    and "splitFields l1 ! buyPriceCol c1 = splitFields l2 ! buyPriceCol c2"
    and "splitFields l1 ! sellPriceCol c1 = splitFields l2 ! sellPriceCol c2"
    and "splitFields l1 ! qtyCol c1 = splitFields l2 ! qtyCol c2"
    and "splitFields l1 ! buyTimeCol c1 = splitFields l2 ! buyTimeCol c2"
    and "splitFields l1 ! sellTimeCol c1 = splitFields l2 ! sellTimeCol c2"
    and "splitFields l1 ! pnlCol c1 = splitFields l2 ! pnlCol c2"
    and "\<And>ms. rowDuration c1 (splitFields l1) ms = rowDuration c2 (splitFields l2) ms"
  shows "parseRow parseDate now c1 i l1 = parseRow parseDate now c2 i l2"
proof -
  have a: "\<not> length (splitFields l1) < neededFields c1" using assms(3) by simp
  have b: "\<not> length (splitFields l2) < neededFields c2" using assms(4) by simp
  show ?thesis
    unfolding parseRow_cases
    by (simp only: assms(1,2) a b if_False assms(5-12))
qed

lemma required_cell:
  assumes p1: "plainHeaders toLowerCase hs1" and p2: "plainHeaders toLowerCase hs2"
    and same: "set (map toLowerCase hs1) = set (map toLowerCase hs2)"
    and req: "\<forall>c \<in> set requiredColumns. \<exists>j. uniqueColumn toLowerCase hs1 c j"
    and cells: "\<forall>a<length hs1. \<forall>b<length hs2.
                  toLowerCase (hs1 ! a) = toLowerCase (hs2 ! b) \<longrightarrow> fs1 ! a = fs2 ! b"
    and c: "c \<in> set requiredColumns"
  shows "fs1 ! nat (getColumnIndex toLowerCase (objectKeys (columnMap toLowerCase hs1)) c)
           = fs2 ! nat (getColumnIndex toLowerCase (objectKeys (columnMap toLowerCase hs2)) c)
       \<and> nat (getColumnIndex toLowerCase (objectKeys (columnMap toLowerCase hs1)) c) < length hs1
       \<and> nat (getColumnIndex toLowerCase (objectKeys (columnMap toLowerCase hs2)) c) < length hs2"
proof -
  obtain j1 where u1: "uniqueColumn toLowerCase hs1 c j1" using req c by blast
  obtain j2 where "getColumnIndex toLowerCase (objectKeys (columnMap toLowerCase hs1)) c = int j1"
      "getColumnIndex toLowerCase (objectKeys (columnMap toLowerCase hs2)) c = int j2"
      "j1 < length hs1" "j2 < length hs2" "fs1 ! j1 = fs2 ! j2"
    using resolved_cell [OF p1 p2 same u1 cells] by blast
  then show ?thesis by simp
qed

lemma duration_cell:
  assumes p1: "plainHeaders toLowerCase hs1" and p2: "plainHeaders toLowerCase hs2"
    and same: "set (map toLowerCase hs1) = set (map toLowerCase hs2)"
    and dur: "(\<exists>j. uniqueColumn toLowerCase hs1 ''duration'' j)
              \<or> (\<forall>h \<in> set hs1. \<not> includesStr (toLowerCase h) (toLowerCase ''duration''))"
    and cells: "\<forall>a<length hs1. \<forall>b<length hs2.
                  toLowerCase (hs1 ! a) = toLowerCase (hs2 ! b) \<longrightarrow> fs1 ! a = fs2 ! b"
    and l1: "length fs1 = length hs1" and l2: "length fs2 = length hs2"
  shows "rowDuration (resolveColumns toLowerCase (objectKeys (columnMap toLowerCase hs1))) fs1 ms
           = rowDuration (resolveColumns toLowerCase (objectKeys (columnMap toLowerCase hs2))) fs2
               ms"
proof -
  consider (u) j1 where "uniqueColumn toLowerCase hs1 ''duration'' j1"
    | (n) "\<forall>h \<in> set hs1. \<not> includesStr (toLowerCase h) (toLowerCase ''duration'')"
    using dur by blast
  then show ?thesis
  proof cases
    case u
    obtain j2 where "getColumnIndex toLowerCase (objectKeys (columnMap toLowerCase hs1))
        ''duration'' = int j1"
      "getColumnIndex toLowerCase (objectKeys (columnMap toLowerCase hs2)) ''duration'' = int j2"
      "j1 < length hs1" "j2 < length hs2" "fs1 ! j1 = fs2 ! j2"
      using resolved_cell [OF p1 p2 same u cells] by blast
    then show ?thesis using l1 l2 by (simp add: rowDuration_def resolveColumns_def)
  next
    case n
    have "\<forall>h \<in> set hs2. \<not> includesStr (toLowerCase h) (toLowerCase ''duration'')"
    proof
      fix h assume "h \<in> set hs2"
      then have "toLowerCase h \<in> set (map toLowerCase hs1)" using same by simp
      then obtain h1 where "h1 \<in> set hs1" "toLowerCase h1 = toLowerCase h" by auto
      then show "\<not> includesStr (toLowerCase h) (toLowerCase ''duration'')" using n by metis
    qed
    then have "getColumnIndex toLowerCase (objectKeys (columnMap toLowerCase hs2)) ''duration'' =
        - 1"
      by (rule getColumnIndex_absent)
    moreover have "getColumnIndex toLowerCase (objectKeys (columnMap toLowerCase hs1))
        ''duration'' = - 1"
      using n by (rule getColumnIndex_absent)
    ultimately show ?thesis by (simp add: rowDuration_def resolveColumns_def)
  qed
qed

subsection \<open>Resolution of the columns\<close>

lemma neededFields_le:
  assumes "symbolCol c < n" and "buyPriceCol c < n" and "sellPriceCol c < n" and "qtyCol c < n"
    and "buyTimeCol c < n" and "sellTimeCol c < n" and "pnlCol c < n"
  shows "neededFields c \<le> n"
  using assms by (simp add: neededFields_def Suc_le_eq)

lemma resolveColumns_sel:
  "symbolCol (resolveColumns toLowerCase ks) = nat (getColumnIndex toLowerCase ks ''symbol'')"
  "buyPriceCol (resolveColumns toLowerCase ks) = nat (getColumnIndex toLowerCase ks ''buyprice'')"
  "sellPriceCol (resolveColumns toLowerCase ks) = nat (getColumnIndex toLowerCase ks ''sellprice'')"
  "qtyCol (resolveColumns toLowerCase ks) = nat (getColumnIndex toLowerCase ks ''qty'')"
  "buyTimeCol (resolveColumns toLowerCase ks) = nat (getColumnIndex toLowerCase ks
      ''boughttimestamp'')"
  "sellTimeCol (resolveColumns toLowerCase ks) = nat (getColumnIndex toLowerCase ks
      ''soldtimestamp'')"
  "pnlCol (resolveColumns toLowerCase ks) = nat (getColumnIndex toLowerCase ks ''pnl'')"
  "durationCol (resolveColumns toLowerCase ks) = getColumnIndex toLowerCase ks ''duration''"
  by (simp_all add: resolveColumns_def)

lemma requiredColumns_mem:
  "''symbol'' \<in> set requiredColumns" "''buyprice'' \<in> set requiredColumns"
  "''sellprice'' \<in> set requiredColumns" "''qty'' \<in> set requiredColumns"
  "''boughttimestamp'' \<in> set requiredColumns" "''soldtimestamp'' \<in> set requiredColumns"
  "''pnl'' \<in> set requiredColumns"
  by (simp_all add: requiredColumns_def)

lemmas header_eval = asciiLowerCase_def lowerChar_def char_eval isArrayIndex_def is_digit_def
  All_less_Suc2

lemma plain_exampleHeaders: "plainHeaders asciiLowerCase exampleHeaders"
  by (simp add: plainHeaders_def exampleHeaders_def header_eval)

lemma plain_shuffledHeaders: "plainHeaders asciiLowerCase shuffledHeaders"
  by (simp add: plainHeaders_def shuffledHeaders_def header_eval)

lemma same_names_example:
  "set (map asciiLowerCase exampleHeaders) = set (map asciiLowerCase shuffledHeaders)"
  by (simp add: exampleHeaders_def shuffledHeaders_def header_eval insert_commute)

lemma unique_exampleHeaders:
  "uniqueColumn asciiLowerCase exampleHeaders ''symbol'' 0"
  "uniqueColumn asciiLowerCase exampleHeaders ''buyprice'' 1"
  "uniqueColumn asciiLowerCase exampleHeaders ''sellprice'' 2"
  "uniqueColumn asciiLowerCase exampleHeaders ''qty'' 3"
  "uniqueColumn asciiLowerCase exampleHeaders ''boughttimestamp'' 4"
  "uniqueColumn asciiLowerCase exampleHeaders ''soldtimestamp'' 5"
  "uniqueColumn asciiLowerCase exampleHeaders ''pnl'' 6"
  by (simp_all add: uniqueColumn_def exampleHeaders_def header_eval)

lemma unique_shuffledHeaders:
  "uniqueColumn asciiLowerCase shuffledHeaders ''pnl'' 0"
  by (simp_all add: uniqueColumn_def shuffledHeaders_def header_eval)

lemma no_duration_exampleHeaders:
  "\<forall>h \<in> set exampleHeaders. \<not> includesStr (asciiLowerCase h) (asciiLowerCase ''duration'')"
  by (simp add: exampleHeaders_def header_eval)

lemma shuffledRow_fields:
  "splitFields shuffledRow = [''n/a'', ''XAUUSD'', ''1900'', ''1905'', ''1'', ''100'', ''200'']"
  by (simp add: shuffledRow_def str_defs)

lemma trim_shuffledRow: "trim shuffledRow \<noteq> []"
  by (simp add: shuffledRow_def str_defs)

lemma same_cells_example:
  "\<forall>a<length exampleHeaders. \<forall>b<length shuffledHeaders.
     asciiLowerCase (exampleHeaders ! a) = asciiLowerCase (shuffledHeaders ! b)
     \<longrightarrow> splitFields fallbackRow ! a = splitFields shuffledRow ! b"
  unfolding fallbackRow_fields shuffledRow_fields
  by (simp add: exampleHeaders_def shuffledHeaders_def header_eval)

lemma keys_collisionA:
  "objectKeys (columnMap asciiLowerCase collisionHeadersA)
     = [''symbol'', ''buyprice'', ''sellprice'', ''qty'', ''boughttimestamp'', ''soldtimestamp'',
        ''pnl'', ''pnlpct'']"
  by (simp add: collisionHeadersA_def columnMap_def setProperty_def objectKeys_def header_eval)

lemma keys_collisionB:
  "objectKeys (columnMap asciiLowerCase collisionHeadersB)
     = [''symbol'', ''buyprice'', ''sellprice'', ''qty'', ''boughttimestamp'', ''soldtimestamp'',
        ''pnlpct'', ''pnl'']"
  by (simp add: collisionHeadersB_def columnMap_def setProperty_def objectKeys_def header_eval)

lemma cols_collisionA: "resolveColumns asciiLowerCase (objectKeys (columnMap asciiLowerCase
    collisionHeadersA)) = exampleCols"
  unfolding keys_collisionA
  by (simp add: resolveColumns_def getColumnIndex_def exampleCols_def header_eval)

lemma cols_collisionB: "resolveColumns asciiLowerCase (objectKeys (columnMap asciiLowerCase
    collisionHeadersB)) = exampleCols"
  unfolding keys_collisionB
  by (simp add: resolveColumns_def getColumnIndex_def exampleCols_def header_eval)

lemma parsePnl_7:
  "parsePnl ''7'' (Num 1900) (Num 1905) (Num 1) = \<lparr>pnl = Num 7, origPnl = ''7'', dispNeg = False\<rparr>"
  by (simp add: str_defs num_defs pnl_defs)

lemma parseRow_collisionA:
  "parseRow digitsDate fixedClock exampleCols 1 ''XAUUSD,1900,1905,1,100,200,10,7''
     = Parsed collisionTradeA"
  unfolding parseRow_cases
  by (simp add: str_defs exampleCols_def neededFields_def parseFloat_1900
        parseFloat_1905 parseFloat_1 parsePnl_10 digitsDate_100 digitsDate_200
        rowTimestamps_def tradeDirection_def js_le_def rowDuration_def elapsed_def
            floor_divBy_small divBy_hour divBy_60 collisionTradeA_def
        fallbackTrade_def)

lemma parseRow_collisionB:
  "parseRow digitsDate fixedClock exampleCols 1 ''XAUUSD,1900,1905,1,100,200,7,10''
     = Parsed collisionTradeB"
  unfolding parseRow_cases
  by (simp add: str_defs exampleCols_def neededFields_def parseFloat_1900
        parseFloat_1905 parseFloat_1 parsePnl_7 digitsDate_100 digitsDate_200
        rowTimestamps_def tradeDirection_def js_le_def rowDuration_def elapsed_def
            floor_divBy_small divBy_hour divBy_60 collisionTradeB_def
        fallbackTrade_def)

text \<open>A column is found through the position of the first key of \<open>columnMap\<close> that
  contains its name, so two headers in lower case that are equal make one key and move
  every later column one place to the left: \<^verbatim>\<open>Symbol\<close> is the third header here and
  the column resolved for it is the second.\<close>

lemma duplicate_header_shifts_columns:
  "uniqueColumn asciiLowerCase duplicateHeaders ''symbol'' 2
   \<and> getColumnIndex asciiLowerCase (objectKeys (columnMap asciiLowerCase duplicateHeaders))
         ''symbol'' = 1"
  by (simp add: uniqueColumn_def duplicateHeaders_def columnMap_def setProperty_def
        objectKeys_def getColumnIndex_def header_eval)

text \<open>C4, as stated, fails: the column of a name is the first header that contains it, so
  when two headers contain \<^verbatim>\<open>pnl\<close> the order of the headers decides which cell is the
  P/L. The headers \<^verbatim>\<open>Pnl\<close> and \<^verbatim>\<open>PnlPct\<close> with the cells 10 and 7 give a trade
  with \<open>profitLoss = 10\<close> when \<^verbatim>\<open>Pnl\<close> comes first and one with \<open>profitLoss = 7\<close> when
  \<^verbatim>\<open>PnlPct\<close> does; there the column resolved for \<^verbatim>\<open>pnl\<close> is the one headed
  \<^verbatim>\<open>PnlPct\<close>.\<close>

theorem pnl_column_depends_on_header_order:
  "collisionHeadersA ! 6 = ''Pnl'' \<and> collisionHeadersA ! 7 = ''PnlPct''
   \<and> collisionHeadersB ! 6 = ''PnlPct'' \<and> collisionHeadersB ! 7 = ''Pnl''
   \<and> take 6 collisionHeadersA = take 6 collisionHeadersB
   \<and> getColumnIndex asciiLowerCase (objectKeys (columnMap asciiLowerCase collisionHeadersB))
         ''pnl'' = 6
   \<and> parseRow digitsDate fixedClock
         (resolveColumns asciiLowerCase (objectKeys (columnMap asciiLowerCase collisionHeadersA)))
         1 ''XAUUSD,1900,1905,1,100,200,10,7'' = Parsed collisionTradeA
   \<and> parseRow digitsDate fixedClock
         (resolveColumns asciiLowerCase (objectKeys (columnMap asciiLowerCase collisionHeadersB)))
         1 ''XAUUSD,1900,1905,1,100,200,7,10'' = Parsed collisionTradeB
   \<and> profitLoss collisionTradeA = Num 10 \<and> profitLoss collisionTradeB = Num 7"
proof -
  have i: "getColumnIndex asciiLowerCase (objectKeys (columnMap asciiLowerCase collisionHeadersB))
      ''pnl'' = 6"
    unfolding keys_collisionB by (simp add: getColumnIndex_def header_eval)
  have h: "collisionHeadersA ! 6 = ''Pnl'' \<and> collisionHeadersA ! 7 = ''PnlPct''
     \<and> collisionHeadersB ! 6 = ''PnlPct'' \<and> collisionHeadersB ! 7 = ''Pnl''
     \<and> take 6 collisionHeadersA = take 6 collisionHeadersB"
    by (simp add: collisionHeadersA_def collisionHeadersB_def eval_nat_numeral)
  have p: "profitLoss collisionTradeA = Num 10 \<and> profitLoss collisionTradeB = Num 7"
    by (simp add: collisionTradeA_def collisionTradeB_def)
  show ?thesis
    unfolding cols_collisionA cols_collisionB parseRow_collisionA parseRow_collisionB
    using i h p by simp
qed

text \<open>C4, amended. Take two header rows that are plain (their names differ pairwise once
  in lower case, none is an array index or \<^verbatim>\<open>__proto__\<close>) and have the same names up
  to order and letter case, where each of \<^verbatim>\<open>symbol\<close>, \<^verbatim>\<open>buyprice\<close>,
  \<^verbatim>\<open>sellprice\<close>, \<^verbatim>\<open>qty\<close>, \<^verbatim>\<open>boughttimestamp\<close>, \<^verbatim>\<open>soldtimestamp\<close> and
  \<^verbatim>\<open>pnl\<close> is contained in exactly one name, and \<^verbatim>\<open>duration\<close> in at most one. Then
  every name contained in exactly one header resolves to the index of that header, in both
  rows, and two non-blank data lines with one cell per header that carry the same cell under
  the same name give the same result, whatever the order and the letter case of the
  headers.\<close>

theorem header_resolution_independent_of_order_and_case:
  assumes "plainHeaders toLowerCase hs1" and "plainHeaders toLowerCase hs2"
    and "set (map toLowerCase hs1) = set (map toLowerCase hs2)"
    and "\<forall>c \<in> set requiredColumns. \<exists>j. uniqueColumn toLowerCase hs1 c j"
    and "(\<exists>j. uniqueColumn toLowerCase hs1 ''duration'' j)
         \<or> (\<forall>h \<in> set hs1. \<not> includesStr (toLowerCase h) (toLowerCase ''duration''))"
    and "length (splitFields l1) = length hs1" and "length (splitFields l2) = length hs2"
    and "trim l1 \<noteq> []" and "trim l2 \<noteq> []"
    and "\<forall>a<length hs1. \<forall>b<length hs2.
           toLowerCase (hs1 ! a) = toLowerCase (hs2 ! b)
           \<longrightarrow> splitFields l1 ! a = splitFields l2 ! b"
  shows "(\<forall>c j. uniqueColumn toLowerCase hs1 c j
            \<longrightarrow> getColumnIndex toLowerCase (objectKeys (columnMap toLowerCase hs1)) c = int j)
       \<and> (\<forall>c j. uniqueColumn toLowerCase hs2 c j
            \<longrightarrow> getColumnIndex toLowerCase (objectKeys (columnMap toLowerCase hs2)) c = int j)
       \<and> parseRow parseDate now
             (resolveColumns toLowerCase (objectKeys (columnMap toLowerCase hs1))) i l1
           = parseRow parseDate now
               (resolveColumns toLowerCase (objectKeys (columnMap toLowerCase hs2))) i l2"
proof -
  have u1: "\<forall>c j. uniqueColumn toLowerCase hs1 c j
              \<longrightarrow> getColumnIndex toLowerCase (objectKeys (columnMap toLowerCase hs1)) c = int j"
    using getColumnIndex_unique [OF assms(1)] by blast
  have u2: "\<forall>c j. uniqueColumn toLowerCase hs2 c j
              \<longrightarrow> getColumnIndex toLowerCase (objectKeys (columnMap toLowerCase hs2)) c = int j"
    using getColumnIndex_unique [OF assms(2)] by blast
  let ?k1 = "objectKeys (columnMap toLowerCase hs1)" and ?k2 = "objectKeys (columnMap toLowerCase
      hs2)"
  let ?f1 = "splitFields l1" and ?f2 = "splitFields l2"
  note rc = required_cell [of toLowerCase hs1 hs2 ?f1 ?f2, OF assms(1,2,3,4,10)]
  note s = rc [OF requiredColumns_mem(1)]
  note b = rc [OF requiredColumns_mem(2)]
  note e = rc [OF requiredColumns_mem(3)]
  note q = rc [OF requiredColumns_mem(4)]
  note bt = rc [OF requiredColumns_mem(5)]
  note st = rc [OF requiredColumns_mem(6)]
  note p = rc [OF requiredColumns_mem(7)]
  have n1: "neededFields (resolveColumns toLowerCase ?k1) \<le> length ?f1"
    unfolding assms(6)
    by (rule neededFields_le)
       (simp_all only: resolveColumns_sel s [THEN conjunct2, THEN conjunct1]
          b [THEN conjunct2, THEN conjunct1] e [THEN conjunct2, THEN conjunct1]
          q [THEN conjunct2, THEN conjunct1] bt [THEN conjunct2, THEN conjunct1]
          st [THEN conjunct2, THEN conjunct1] p [THEN conjunct2, THEN conjunct1])
  have n2: "neededFields (resolveColumns toLowerCase ?k2) \<le> length ?f2"
    unfolding assms(7)
    by (rule neededFields_le)
       (simp_all only: resolveColumns_sel s [THEN conjunct2, THEN conjunct2]
          b [THEN conjunct2, THEN conjunct2] e [THEN conjunct2, THEN conjunct2]
          q [THEN conjunct2, THEN conjunct2] bt [THEN conjunct2, THEN conjunct2]
          st [THEN conjunct2, THEN conjunct2] p [THEN conjunct2, THEN conjunct2])
  have d: "\<And>ms. rowDuration (resolveColumns toLowerCase ?k1) ?f1 ms = rowDuration (resolveColumns
      toLowerCase ?k2) ?f2 ms"
    by (rule duration_cell [OF assms(1,2,3,5,10) assms(6,7)])
  have r: "parseRow parseDate now (resolveColumns toLowerCase ?k1) i l1
           = parseRow parseDate now (resolveColumns toLowerCase ?k2) i l2"
  proof (rule parseRow_cong [OF assms(8,9) n1 n2])
    show "?f1 ! symbolCol (resolveColumns toLowerCase ?k1) = ?f2 ! symbolCol (resolveColumns
        toLowerCase ?k2)"
      unfolding resolveColumns_sel by (rule s [THEN conjunct1])
    show "?f1 ! buyPriceCol (resolveColumns toLowerCase ?k1) = ?f2 ! buyPriceCol (resolveColumns
        toLowerCase ?k2)"
      unfolding resolveColumns_sel by (rule b [THEN conjunct1])
    show "?f1 ! sellPriceCol (resolveColumns toLowerCase ?k1) = ?f2 ! sellPriceCol (resolveColumns
        toLowerCase ?k2)"
      unfolding resolveColumns_sel by (rule e [THEN conjunct1])
    show "?f1 ! qtyCol (resolveColumns toLowerCase ?k1) = ?f2 ! qtyCol (resolveColumns toLowerCase
        ?k2)"
      unfolding resolveColumns_sel by (rule q [THEN conjunct1])
    show "?f1 ! buyTimeCol (resolveColumns toLowerCase ?k1) = ?f2 ! buyTimeCol (resolveColumns
        toLowerCase ?k2)"
      unfolding resolveColumns_sel by (rule bt [THEN conjunct1])
    show "?f1 ! sellTimeCol (resolveColumns toLowerCase ?k1) = ?f2 ! sellTimeCol (resolveColumns
        toLowerCase ?k2)"
      unfolding resolveColumns_sel by (rule st [THEN conjunct1])
    show "?f1 ! pnlCol (resolveColumns toLowerCase ?k1) = ?f2 ! pnlCol (resolveColumns toLowerCase
        ?k2)"
      unfolding resolveColumns_sel by (rule p [THEN conjunct1])
    show "\<And>ms. rowDuration (resolveColumns toLowerCase ?k1) ?f1 ms = rowDuration (resolveColumns
        toLowerCase ?k2) ?f2 ms"
      by (rule d)
  qed
  from u1 u2 r show ?thesis by (intro conjI)
qed

text \<open>The usual headers and the same names shuffled and in another letter case: \<^verbatim>\<open>PNL\<close>
  is first there, it resolves to column 0, and the shuffled row gives the trade that the
  row in the usual order gives.\<close>

theorem header_resolution_independent_of_order_and_case_witness:
  "plainHeaders asciiLowerCase exampleHeaders \<and> plainHeaders asciiLowerCase shuffledHeaders
   \<and> set (map asciiLowerCase exampleHeaders) = set (map asciiLowerCase shuffledHeaders)
   \<and> uniqueColumn asciiLowerCase shuffledHeaders ''pnl'' 0
   \<and> getColumnIndex asciiLowerCase (objectKeys (columnMap asciiLowerCase shuffledHeaders))
         ''pnl'' = 0
   \<and> parseRow digitsDate fixedClock
         (resolveColumns asciiLowerCase (objectKeys (columnMap asciiLowerCase shuffledHeaders)))
         1 shuffledRow = Parsed fallbackTrade"
proof -
  have r: "\<forall>c \<in> set requiredColumns. \<exists>j. uniqueColumn asciiLowerCase exampleHeaders c j"
    unfolding requiredColumns_def using unique_exampleHeaders by auto
  have d: "(\<exists>j. uniqueColumn asciiLowerCase exampleHeaders ''duration'' j)
         \<or> (\<forall>h \<in> set exampleHeaders. \<not> includesStr (asciiLowerCase h) (asciiLowerCase
             ''duration''))"
    using no_duration_exampleHeaders by (rule disjI2)
  have l1: "length (splitFields fallbackRow) = length exampleHeaders"
    unfolding fallbackRow_fields by (simp add: exampleHeaders_def)
  have l2: "length (splitFields shuffledRow) = length shuffledHeaders"
    unfolding shuffledRow_fields by (simp add: shuffledHeaders_def)
  note t = header_resolution_independent_of_order_and_case
      [where parseDate = digitsDate and now = fixedClock and i = 1,
       OF plain_exampleHeaders plain_shuffledHeaders same_names_example r d l1 l2
          trim_fallbackRow trim_shuffledRow same_cells_example]
  have k: "resolveColumns asciiLowerCase (objectKeys (columnMap asciiLowerCase exampleHeaders)) =
      exampleCols"
    unfolding exampleHeaders_def keys_example by (rule cols_example)
  have a: "getColumnIndex asciiLowerCase (objectKeys (columnMap asciiLowerCase shuffledHeaders))
      ''pnl'' = int 0"
    using t [THEN conjunct2, THEN conjunct1] unique_shuffledHeaders by blast
  have b: "parseRow digitsDate fixedClock (resolveColumns asciiLowerCase (objectKeys (columnMap
      asciiLowerCase shuffledHeaders))) 1
         shuffledRow = Parsed fallbackTrade"
    using t [THEN conjunct2, THEN conjunct2] unfolding k parseRow_fallbackRow by (rule sym)
  from plain_exampleHeaders plain_shuffledHeaders same_names_example unique_shuffledHeaders a b
  show ?thesis by simp
qed

end
